(* ===== verification/Prelude.thy ===== *)
theory Prelude
  imports Main "HOL-Library.Word" "HOL-Library.Char_ord" "HOL-Library.List_Lexorder"
begin

text \<open>
  What every component shares: fallible computations (\<open>Result\<close> as a sum whose left side is the
  error), the integer widths of the source with their checked and saturating operations, and the
  handful of string and list operations of the Rust standard library that the source calls.

  Strings are HOL strings; they are ordered byte by byte (\<^theory_text>\<open>List_Lexorder\<close> over
  \<^theory_text>\<open>Char_ord\<close>), which is the order of \<open>str\<close> and so of every \<open>BTreeMap<String, _>\<close>.
  White space is the ASCII white space.
\<close>

named_theorems result_simps \<open>how fallible computations split into their branches\<close>
named_theorems arith_bounds \<open>bounds of checked and saturating arithmetic\<close>

section \<open>Fallible computations\<close>

fun bind_r :: "'e + 'a \<Rightarrow> ('a \<Rightarrow> 'e + 'b) \<Rightarrow> 'e + 'b" where
  "bind_r (Inl e) k = Inl e"
| "bind_r (Inr x) k = k x"

fun map_err :: "('e \<Rightarrow> 'f) \<Rightarrow> 'e + 'a \<Rightarrow> 'f + 'a" where
  "map_err f (Inl e) = Inl (f e)"
| "map_err f (Inr x) = Inr x"

fun ok_or :: "'e \<Rightarrow> 'a option \<Rightarrow> 'e + 'a" where
  "ok_or e None = Inl e"
| "ok_or e (Some x) = Inr x"

definition ensure :: "bool \<Rightarrow> 'e \<Rightarrow> 'e + unit" where
  "ensure c e = (if c then Inr () else Inl e)"

fun try_fold :: "('s \<Rightarrow> 'a \<Rightarrow> 'e + 's) \<Rightarrow> 's \<Rightarrow> 'a list \<Rightarrow> 'e + 's" where
  "try_fold f s [] = Inr s"
| "try_fold f s (x # xs) = bind_r (f s x) (\<lambda>s'. try_fold f s' xs)"

fun try_map :: "('a \<Rightarrow> 'e + 'b) \<Rightarrow> 'a list \<Rightarrow> 'e + 'b list" where
  "try_map f [] = Inr []"
| "try_map f (x # xs) = bind_r (f x) (\<lambda>y. bind_r (try_map f xs) (\<lambda>ys. Inr (y # ys)))"

fun try_all :: "('a \<Rightarrow> 'e + unit) \<Rightarrow> 'a list \<Rightarrow> 'e + unit" where
  "try_all f [] = Inr ()"
| "try_all f (x # xs) = bind_r (f x) (\<lambda>_. try_all f xs)"

definition is_ok :: "'e + 'a \<Rightarrow> bool" where
  "is_ok r = (case r of Inl _ \<Rightarrow> False | Inr _ \<Rightarrow> True)"

section \<open>Integers at their width\<close>

type_synonym u64 = "64 word"
type_synonym u32 = "32 word"

definition checked_succ :: "('a::len) word \<Rightarrow> 'a word option" where
  "checked_succ w = (if w = - 1 then None else Some (w + 1))"

definition saturating_succ :: "('a::len) word \<Rightarrow> 'a word" where
  "saturating_succ w = (if w = - 1 then w else w + 1)"

definition i64_max :: int where "i64_max = 9223372036854775807"
definition i64_min :: int where "i64_min = - 9223372036854775808"

definition clamp_i64 :: "int \<Rightarrow> int" where
  "clamp_i64 x = max i64_min (min i64_max x)"

definition i64_saturating_add :: "int \<Rightarrow> int \<Rightarrow> int" where
  "i64_saturating_add a b = clamp_i64 (a + b)"

definition i64_saturating_sub :: "int \<Rightarrow> int \<Rightarrow> int" where
  "i64_saturating_sub a b = clamp_i64 (a - b)"

definition i64_checked_add :: "int \<Rightarrow> int \<Rightarrow> int option" where
  "i64_checked_add a b = (if i64_min \<le> a + b \<and> a + b \<le> i64_max then Some (a + b) else None)"

definition is_i64 :: "int \<Rightarrow> bool" where
  "is_i64 x \<longleftrightarrow> i64_min \<le> x \<and> x \<le> i64_max"

section \<open>Strings\<close>

fun strip_prefix :: "string \<Rightarrow> string \<Rightarrow> string option" where
  "strip_prefix [] s = Some s"
| "strip_prefix (p # ps) [] = None"
| "strip_prefix (p # ps) (c # cs) = (if p = c then strip_prefix ps cs else None)"

definition starts_with :: "string \<Rightarrow> string \<Rightarrow> bool" where
  "starts_with s p = (strip_prefix p s \<noteq> None)"

fun split_once :: "char \<Rightarrow> string \<Rightarrow> (string \<times> string) option" where
  "split_once d [] = None"
| "split_once d (c # cs) =
     (if c = d then Some ([], cs)
      else map_option (\<lambda>(a, b). (c # a, b)) (split_once d cs))"

fun split_on :: "char \<Rightarrow> string \<Rightarrow> string list" where
  "split_on d [] = [[]]"
| "split_on d (c # cs) =
     (if c = d then [] # split_on d cs
      else case split_on d cs of [] \<Rightarrow> [[c]] | w # ws \<Rightarrow> (c # w) # ws)"

definition to_ascii_lowercase :: "string \<Rightarrow> string" where
  "to_ascii_lowercase s =
     map (\<lambda>c. let n = (of_char c :: nat) in if 65 \<le> n \<and> n \<le> 90 then char_of (n + 32) else c) s"

definition is_whitespace :: "char \<Rightarrow> bool" where
  "is_whitespace c = (let n = (of_char c :: nat) in (9 \<le> n \<and> n \<le> 13) \<or> n = 32)"

definition trim :: "string \<Rightarrow> string" where
  "trim s = rev (dropWhile is_whitespace (rev (dropWhile is_whitespace s)))"

section \<open>Facts about fallible computations\<close>

lemma bind_r_eq_Inr [result_simps]:
  "bind_r m k = Inr y \<longleftrightarrow> (\<exists>x. m = Inr x \<and> k x = Inr y)"
  by (cases m) auto

lemma bind_r_eq_Inl [result_simps]:
  "bind_r m k = Inl e \<longleftrightarrow> m = Inl e \<or> (\<exists>x. m = Inr x \<and> k x = Inl e)"
  by (cases m) auto

lemma ensure_eq_Inr [result_simps]: "ensure c e = Inr u \<longleftrightarrow> c"
  by (simp add: ensure_def)

lemma ensure_eq_Inl [result_simps]: "ensure c e = Inl e' \<longleftrightarrow> \<not> c \<and> e' = e"
  by (auto simp: ensure_def)

lemma ok_or_eq_Inr [result_simps]: "ok_or e m = Inr x \<longleftrightarrow> m = Some x"
  by (cases m) auto

lemma ok_or_eq_Inl [result_simps]: "ok_or e m = Inl e' \<longleftrightarrow> m = None \<and> e' = e"
  by (cases m) auto

lemma map_err_eq_Inr [result_simps]: "map_err f m = Inr x \<longleftrightarrow> m = Inr x"
  by (cases m) auto

lemma is_ok_simps [simp]: "is_ok (Inr x)" "\<not> is_ok (Inl e)"
  by (simp_all add: is_ok_def)

lemma is_ok_iff: "is_ok r \<longleftrightarrow> (\<exists>x. r = Inr x)"
  by (cases r) auto

lemma try_all_ok [result_simps]: "try_all f xs = Inr u \<longleftrightarrow> (\<forall>x\<in>set xs. f x = Inr ())"
  by (induction xs) (auto simp: result_simps)

lemma try_fold_append:
  "try_fold f s (xs @ ys) = bind_r (try_fold f s xs) (\<lambda>s'. try_fold f s' ys)"
proof (induction xs arbitrary: s)
  case (Cons x xs)
  then show ?case by (cases "f s x") auto
qed simp

lemma try_fold_invariant:
  assumes "try_fold f s xs = Inr s'" and "P s"
    and step: "\<And>s x t. P s \<Longrightarrow> x \<in> set xs \<Longrightarrow> f s x = Inr t \<Longrightarrow> P t"
  shows "P s'"
proof -
  have "set ys \<subseteq> set xs \<Longrightarrow> try_fold f t ys = Inr s' \<Longrightarrow> P t \<Longrightarrow> P s'" for ys t
  proof (induction ys arbitrary: t)
    case (Cons y ys)
    then obtain u where u: "f t y = Inr u" "try_fold f u ys = Inr s'"
      by (auto simp: result_simps)
    have "P u" using step [OF Cons.prems(3) _ u(1)] Cons.prems(1) by simp
    with Cons.IH Cons.prems(1) u(2) show ?case by simp
  qed simp
  with assms(1,2) show ?thesis by blast
qed

lemma try_fold_accumulates:
  assumes "try_fold f s xs = Inr t" and "I s"
    and step: "\<And>s x s'. I s \<Longrightarrow> f s x = Inr s' \<Longrightarrow> I s' \<and> le s s' \<and> Q x s'"
    and mono: "\<And>x s s'. Q x s \<Longrightarrow> le s s' \<Longrightarrow> Q x s'"
  shows "\<forall>x\<in>set xs. Q x t"
  using assms(1,2)
proof (induction xs arbitrary: t rule: rev_induct)
  case (snoc x xs)
  then obtain u where u: "try_fold f s xs = Inr u" "f u x = Inr t"
    by (auto simp: try_fold_append result_simps)
  have "I u"
    by (rule try_fold_invariant [where P = I, OF u(1) \<open>I s\<close>]) (use step in blast)
  with step u(2) have "le u t" "Q x t" by blast+
  with snoc.IH [OF u(1) \<open>I s\<close>] mono show ?case by (simp) blast
qed simp

lemma try_map_length: "try_map f xs = Inr ys \<Longrightarrow> length ys = length xs"
  by (induction xs arbitrary: ys) (auto simp: result_simps)

lemma try_map_nth:
  "try_map f xs = Inr ys \<Longrightarrow> i < length xs \<Longrightarrow> f (xs ! i) = Inr (ys ! i)"
proof (induction xs arbitrary: ys i)
  case (Cons x xs)
  then show ?case by (cases i) (auto simp: result_simps)
qed simp

lemma try_map_set:
  "try_map f xs = Inr ys \<Longrightarrow> y \<in> set ys \<Longrightarrow> \<exists>x\<in>set xs. f x = Inr y"
  by (induction xs arbitrary: ys) (auto simp: result_simps)

section \<open>Facts about lists\<close>

lemma sorted_last_max: "sorted (map f xs) \<Longrightarrow> x \<in> set xs \<Longrightarrow> f x \<le> f (last xs)"
  by (induction xs rule: rev_induct) (auto simp: sorted_append)

lemma sort_key_last_max: "x \<in> set xs \<Longrightarrow> f x \<le> f (last (sort_key f xs))"
  using sorted_last_max [of f "sort_key f xs" x] by simp

lemma sort_key_last_mem: "sort_key f xs \<noteq> [] \<Longrightarrow> last (sort_key f xs) \<in> set xs"
  using last_in_set [of "sort_key f xs"] by simp

lemma distinct_dedup_sorted: "sorted xs \<Longrightarrow> distinct (remdups_adj xs)"
proof (induction xs rule: remdups_adj.induct)
  case (3 x y xs)
  then show ?case by (cases "x = y") (auto dest: order.antisym)
qed simp_all

section \<open>Facts about integers\<close>

lemma unat_succ: "w \<noteq> - 1 \<Longrightarrow> unat (w + 1) = Suc (unat w)"
proof -
  assume "w \<noteq> - 1"
  then have "1 + w \<noteq> 0" by (metis add.commute eq_neg_iff_add_eq_0)
  then show "unat (w + 1) = Suc (unat w)" using unatSuc [of w] by (simp add: add.commute)
qed

lemma checked_succ_unat [arith_bounds]:
  "checked_succ w = Some w' \<Longrightarrow> unat w' = Suc (unat w)"
  by (auto simp: checked_succ_def unat_succ split: if_splits)

lemma checked_succ_greater [arith_bounds]: "checked_succ w = Some w' \<Longrightarrow> w < w'"
  by (simp add: word_less_nat_alt checked_succ_unat)

lemma saturating_succ_mono [arith_bounds]: "w \<le> saturating_succ w"
  by (simp add: saturating_succ_def word_le_nat_alt unat_succ)

lemma saturating_succ_strict [arith_bounds]: "w \<noteq> - 1 \<Longrightarrow> w < saturating_succ w"
  by (simp add: saturating_succ_def word_less_nat_alt unat_succ)

lemma clamp_i64_bounds [arith_bounds]: "is_i64 (clamp_i64 x)"
  by (simp add: is_i64_def clamp_i64_def i64_min_def i64_max_def)

lemma clamp_i64_id [arith_bounds]: "is_i64 x \<Longrightarrow> clamp_i64 x = x"
  by (auto simp: is_i64_def clamp_i64_def)

lemma clamp_i64_mono [arith_bounds]: "x \<le> y \<Longrightarrow> clamp_i64 x \<le> clamp_i64 y"
  by (auto simp: clamp_i64_def)

section \<open>Facts about strings\<close>

lemma strip_prefix_append [simp]: "strip_prefix p (p @ s) = Some s"
  by (induction p) auto

lemma strip_prefix_Some: "strip_prefix p s = Some r \<longleftrightarrow> s = p @ r"
  by (induction p s rule: strip_prefix.induct) auto

lemma starts_with_iff: "starts_with s p \<longleftrightarrow> (\<exists>r. s = p @ r)"
  by (auto simp: starts_with_def strip_prefix_Some)

lemma split_on_not_Nil [simp]: "split_on d s \<noteq> []"
  by (induction s) (auto split: list.splits)

lemma split_once_append:
  "d \<notin> set a \<Longrightarrow> split_once d (a @ d # b) = Some (a, b)"
  by (induction a) auto

lemma split_once_Some:
  "split_once d s = Some (a, b) \<Longrightarrow> s = a @ d # b \<and> d \<notin> set a"
  by (induction s arbitrary: a) (auto split: if_splits)

end
