(* ===== verification/Decimal.thy ===== *)
theory Decimal
  imports Prelude
begin

text \<open>
  Decimal text of integers: what \<open>format!\<close> and \<open>to_string\<close> print for an \<open>i64\<close> or \<open>u64\<close> and
  what \<open>str::parse\<close> reads back.  The stored objects carry times and counters in this form, so the
  round trip is used wherever a record is written to properties and read again.
\<close>

definition digit :: "nat \<Rightarrow> char" where
  "digit d = char_of (48 + d)"

definition is_ascii_digit :: "char \<Rightarrow> bool" where
  "is_ascii_digit c = (let n = (of_char c :: nat) in 48 \<le> n \<and> n \<le> 57)"

fun show_nat :: "nat \<Rightarrow> string" where
  "show_nat n = (if n < 10 then [digit n] else show_nat (n div 10) @ [digit (n mod 10)])"

declare show_nat.simps [simp del]

definition show_int :: "int \<Rightarrow> string" where
  "show_int x = (if x < 0 then CHR ''-'' # show_nat (nat (- x)) else show_nat (nat x))"

definition digit_value :: "char \<Rightarrow> nat" where
  "digit_value c = of_char c - 48"

definition read_digits :: "string \<Rightarrow> nat" where
  "read_digits s = foldl (\<lambda>n c. n * 10 + digit_value c) 0 s"

definition parse_nat :: "string \<Rightarrow> nat option" where
  "parse_nat s = (if s \<noteq> [] \<and> list_all is_ascii_digit s then Some (read_digits s) else None)"

definition parse_int :: "string \<Rightarrow> int option" where
  "parse_int s = (case s of
     [] \<Rightarrow> None
   | c # cs \<Rightarrow>
       if c = CHR ''-'' then map_option (\<lambda>n. - int n) (parse_nat cs)
       else if c = CHR ''+'' then map_option int (parse_nat cs)
       else map_option int (parse_nat s))"

definition parse_i64 :: "string \<Rightarrow> int option" where
  "parse_i64 s = (case parse_int s of None \<Rightarrow> None | Some x \<Rightarrow> if is_i64 x then Some x else None)"

definition parse_u64 :: "string \<Rightarrow> u64 option" where
  "parse_u64 s =
     (case parse_nat (case s of [] \<Rightarrow> [] | c # cs \<Rightarrow> if c = CHR ''+'' then cs else s) of
        None \<Rightarrow> None
      | Some n \<Rightarrow> if n < 2 ^ 64 then Some (of_nat n) else None)"

lemma of_char_digit: "d < 10 \<Longrightarrow> (of_char (digit d) :: nat) = 48 + d"
  by (simp add: digit_def)

lemma digit_is_digit: "d < 10 \<Longrightarrow> is_ascii_digit (digit d)"
  by (simp add: is_ascii_digit_def of_char_digit)

lemma digit_value_digit: "d < 10 \<Longrightarrow> digit_value (digit d) = d"
  by (simp add: digit_value_def of_char_digit)

lemma show_nat_not_Nil [simp]: "show_nat n \<noteq> []"
  by (subst show_nat.simps) auto

lemma show_nat_digits: "list_all is_ascii_digit (show_nat n)"
proof (induction n rule: show_nat.induct)
  case (1 n)
  then show ?case by (subst show_nat.simps) (auto simp: digit_is_digit)
qed

lemma read_digits_snoc: "read_digits (s @ [c]) = read_digits s * 10 + digit_value c"
  by (simp add: read_digits_def)

lemma read_digits_show_nat: "read_digits (show_nat n) = n"
proof (induction n rule: show_nat.induct)
  case (1 n)
  show ?case
  proof (cases "n < 10")
    case True
    then show ?thesis
      by (subst show_nat.simps) (simp add: read_digits_def digit_value_digit)
  next
    case False
    then show ?thesis using 1
      by (subst show_nat.simps) (simp add: read_digits_snoc digit_value_digit)
  qed
qed

lemma parse_show_nat [simp]: "parse_nat (show_nat n) = Some n"
  by (simp add: parse_nat_def show_nat_digits read_digits_show_nat)

lemma digit_chars:
  "is_ascii_digit c \<Longrightarrow> c \<noteq> CHR ''-'' \<and> c \<noteq> CHR ''+'' \<and> c \<noteq> CHR '':'' \<and> c \<noteq> CHR ''@''"
  by (auto simp: is_ascii_digit_def)

lemma parse_show_int [simp]: "parse_int (show_int x) = Some x"
proof (cases "x < 0")
  case True
  then show ?thesis by (simp add: show_int_def parse_int_def)
next
  case False
  obtain c cs where s: "show_nat (nat x) = c # cs" by (meson list.exhaust show_nat_not_Nil)
  have "is_ascii_digit c" using show_nat_digits [of "nat x"] by (simp add: s)
  then have "parse_int (c # cs) = map_option int (parse_nat (c # cs))"
    by (simp add: parse_int_def digit_chars)
  also have "\<dots> = Some x" using False parse_show_nat [of "nat x"] unfolding s by simp
  finally show ?thesis using False by (simp add: show_int_def s)
qed

lemma parse_i64_show_int: "is_i64 x \<Longrightarrow> parse_i64 (show_int x) = Some x"
  by (simp add: parse_i64_def)

lemma show_int_inject [simp]: "show_int x = show_int y \<longleftrightarrow> x = y"
  by (metis parse_show_int option.inject)

lemma show_int_no_colon: "CHR '':'' \<notin> set (show_int x)"
  using show_nat_digits by (auto simp: show_int_def list_all_iff dest!: bspec digit_chars)

end
