(* ===== verification/Ontology.thy ===== *)
theory Ontology
  imports Decimal
begin

text \<open>
  \<open>src/ontology.rs\<close>: the identifier rules and the deterministic object ids.  The id functions are
  injective on the identifiers that the validators admit, so two objects of the store never share
  an id by accident, and the product of a release is read back from its id.
\<close>

datatype ontology_error =
    Bad_Identifier string
  | Bad_Opaque_Identifier string
  | Bad_Instance_Name

definition is_ascii_alphanumeric :: "char \<Rightarrow> bool" where
  "is_ascii_alphanumeric c = (let n = (of_char c :: nat) in
     (48 \<le> n \<and> n \<le> 57) \<or> (65 \<le> n \<and> n \<le> 90) \<or> (97 \<le> n \<and> n \<le> 122))"

definition is_control :: "char \<Rightarrow> bool" where
  "is_control c = (let n = (of_char c :: nat) in n < 32 \<or> n = 127)"

fun contains_str :: "string \<Rightarrow> string \<Rightarrow> bool" where
  "contains_str needle [] = (needle = [])"
| "contains_str needle (c # cs) =
     (strip_prefix needle (c # cs) \<noteq> None \<or> contains_str needle cs)"

definition max_opaque_identifier_bytes :: nat where
  "max_opaque_identifier_bytes = 256"

definition validate_identifier :: "string \<Rightarrow> string \<Rightarrow> ontology_error + unit" where
  "validate_identifier label value = (case value of
     [] \<Rightarrow> Inl (Bad_Identifier label)
   | first # rest \<Rightarrow>
       ensure (is_ascii_alphanumeric first
               \<and> list_all (\<lambda>ch. is_ascii_alphanumeric ch \<or> ch \<in> set ''._-+'') rest)
         (Bad_Identifier label))"

definition validate_opaque_identifier :: "string \<Rightarrow> string \<Rightarrow> ontology_error + unit" where
  "validate_opaque_identifier label value =
     ensure (\<not> (value = []
               \<or> max_opaque_identifier_bytes < length value
               \<or> list_ex is_control value
               \<or> contains_str ''://'' value
               \<or> CHR ''/'' \<in> set value
               \<or> CHR 0x5C \<in> set value))
       (Bad_Opaque_Identifier label)"

definition validate_instance_name :: "string \<Rightarrow> ontology_error + unit" where
  "validate_instance_name name = (case name of
     [] \<Rightarrow> Inl Bad_Instance_Name
   | first # rest \<Rightarrow>
       ensure (\<not> (40 < length name
                 \<or> \<not> is_ascii_alphanumeric first
                 \<or> \<not> list_all (\<lambda>ch. is_ascii_alphanumeric ch \<or> ch = CHR ''-'') rest
                 \<or> last name = CHR ''-''))
         Bad_Instance_Name)"

definition instance_or_product :: "string option \<Rightarrow> string \<Rightarrow> ontology_error + string" where
  "instance_or_product inst product = (case map_option trim inst of
     None \<Rightarrow> Inr product
   | Some name \<Rightarrow>
       if name = [] then Inr product
       else if name = product then Inr product
       else bind_r (validate_instance_name name) (\<lambda>_. Inr name))"

definition product_id :: "string \<Rightarrow> string" where
  "product_id name = ''tenkai:product:'' @ name"

definition release_id :: "string \<Rightarrow> string \<Rightarrow> string" where
  "release_id product version = ''tenkai:release:'' @ product @ ''@'' @ version"

definition channel_id :: "string \<Rightarrow> string \<Rightarrow> string" where
  "channel_id product channel = ''tenkai:channel:'' @ product @ ''/'' @ channel"

definition env_id :: "string \<Rightarrow> string" where
  "env_id name = ''tenkai:env:'' @ name"

definition package_migration_lock_id_in :: "string option \<Rightarrow> string \<Rightarrow> string" where
  "package_migration_lock_id_in part environment = (case part of
     None \<Rightarrow> ''tenkai:package-migration-lock:'' @ environment
   | Some p \<Rightarrow>
       if p = [] then ''tenkai:package-migration-lock:'' @ environment
       else ''tenkai:package-migration-lock:'' @ p @ '':'' @ environment)"

definition package_migration_lock_id :: "string \<Rightarrow> string" where
  "package_migration_lock_id environment = package_migration_lock_id_in None environment"

definition plan_id :: "string \<Rightarrow> int \<Rightarrow> string \<Rightarrow> string" where
  "plan_id env ts content_id =
     ''tenkai:plan:'' @ env @ '':'' @ show_int ts @ '':'' @ content_id"

definition deployment_id :: "string \<Rightarrow> string \<Rightarrow> int \<Rightarrow> string" where
  "deployment_id env product ts =
     ''tenkai:deployment:'' @ env @ '':'' @ product @ '':'' @ show_int ts"

definition instance_id :: "string \<Rightarrow> string \<Rightarrow> string" where
  "instance_id env name = ''tenkai:instance:'' @ env @ '':'' @ name"

definition product_of_release_id :: "string \<Rightarrow> string option" where
  "product_of_release_id rid =
     map_option fst (Option.bind (strip_prefix ''tenkai:release:'' rid) (split_once CHR ''@''))"

section \<open>Identifiers hold no delimiter\<close>

lemma alphanumeric_not_delimiter:
  "is_ascii_alphanumeric c \<Longrightarrow> c \<notin> set '':@/''"
  by (auto simp: is_ascii_alphanumeric_def)

lemma identifier_no_delimiter:
  assumes "validate_identifier l v = Inr ()" and "d \<in> set '':@/''"
  shows "d \<notin> set v"
  using assms alphanumeric_not_delimiter
  by (auto simp: validate_identifier_def result_simps list_all_iff split: list.splits)

lemma instance_name_no_delimiter:
  assumes "validate_instance_name v = Inr ()" and "d \<in> set '':@/''"
  shows "d \<notin> set v"
  using assms alphanumeric_not_delimiter
  by (auto simp: validate_instance_name_def result_simps list_all_iff split: list.splits)

lemma split_at_delimiter:
  fixes d :: char
  assumes "d \<notin> set a" and "d \<notin> set a'" and "a @ d # b = a' @ d # b'"
  shows "a = a' \<and> b = b'"
proof -
  have "Some (a, b) = split_once d (a @ d # b)" using assms(1) by (simp add: split_once_append)
  also have "\<dots> = Some (a', b')"
    unfolding assms(3) using assms(2) by (simp add: split_once_append)
  finally show ?thesis by simp
qed

section \<open>Ids are injective\<close>

lemma product_of_release_id_release_id:
  "CHR ''@'' \<notin> set p \<Longrightarrow> product_of_release_id (release_id p v) = Some p"
  using split_once_append [of "CHR ''@''" p v]
  by (simp add: product_of_release_id_def release_id_def)

text \<open>Release ids do not collide: for products that pass \<open>validate_identifier\<close> two
  release ids are equal exactly when product and version are, and \<open>product_of_release_id\<close> reads the
  product back out of the id whatever the version is.\<close>

theorem release_id_faithful:
  assumes "validate_identifier l p = Inr ()" and "validate_identifier l' p' = Inr ()"
  shows "(release_id p v = release_id p' v' \<longleftrightarrow> p = p' \<and> v = v')
    \<and> product_of_release_id (release_id p v) = Some p"
proof -
  have "CHR ''@'' \<notin> set p" "CHR ''@'' \<notin> set p'"
    using assms identifier_no_delimiter by auto
  then show ?thesis
    using split_at_delimiter [of "CHR ''@''" p p' v v']
    by (intro conjI product_of_release_id_release_id) (auto simp: release_id_def)
qed

theorem release_id_faithful_witness:
  "product_of_release_id (release_id ''api'' ''1.2.0+b@7'') = Some ''api''
   \<and> (release_id ''api'' ''1.2.0+b@7'' = release_id ''api-2'' ''1.2.0''
        \<longleftrightarrow> ''api'' = ''api-2'' \<and> ''1.2.0+b@7'' = ''1.2.0'')"
  using release_id_faithful 
    [of "''product''" "''api''" "''product''" "''api-2''" "''1.2.0+b@7''" "''1.2.0''"]
  by (simp add: validate_identifier_def is_ascii_alphanumeric_def ensure_def)

text \<open>Plan ids do not collide: for environments that pass \<open>validate_identifier\<close>, equal plan
  ids come from the same environment, the same creation time and the same content id.\<close>

theorem plan_id_injective:
  assumes "validate_identifier l e = Inr ()" and "validate_identifier l' e' = Inr ()"
  shows "plan_id e t c = plan_id e' t' c' \<longleftrightarrow> e = e' \<and> t = t' \<and> c = c'"
proof -
  have e: "CHR '':'' \<notin> set e" "CHR '':'' \<notin> set e'"
    using assms identifier_no_delimiter by auto
  have "e = e' \<and> t = t' \<and> c = c'" if "plan_id e t c = plan_id e' t' c'"
  proof -
    have "e @ CHR '':'' # show_int t @ CHR '':'' # c = e' @ CHR '':'' # show_int t' @ CHR '':'' # c'"
      using that by (simp add: plan_id_def)
    then have "e = e'" and "show_int t @ CHR '':'' # c = show_int t' @ CHR '':'' # c'"
      using split_at_delimiter [OF e] by blast+
    then show ?thesis
      using split_at_delimiter [OF show_int_no_colon show_int_no_colon] show_int_inject by blast
  qed
  then show ?thesis by blast
qed

theorem plan_id_injective_witness:
  "plan_id ''prod'' 17 ''ab'' = plan_id ''prod'' 17 ''cd''
     \<longleftrightarrow> ''prod'' = ''prod'' \<and> (17 :: int) = 17 \<and> ''ab'' = ''cd''"
  using plan_id_injective 
    [of "''environment''" "''prod''" "''environment''" "''prod''" 17 "''ab''" 17 "''cd''"]
  by (simp add: validate_identifier_def is_ascii_alphanumeric_def ensure_def)

end
