(* ===== verification/Plan_Data.thy ===== *)
theory Plan_Data
  imports Ontology
begin

text \<open>
  \<open>src/plan.rs\<close> and \<open>src/product_kind.rs\<close>: the plan record, its steps and inputs, the two digests
  that bind a plan to its content, and the closed policy of product kinds.

  The JSON encoder (\<open>serde_json::to_vec\<close>) and SHA-256 are parameters: a function from the encoded
  value to optional bytes (None is the encoder's error) and one from bytes to hexadecimal text.
\<close>

datatype Action = Install | Upgrade | Downgrade | Rollback | Restart | Remove

fun action_name :: "Action \<Rightarrow> string" where
  "action_name Install = ''install''"
| "action_name Upgrade = ''upgrade''"
| "action_name Downgrade = ''downgrade''"
| "action_name Rollback = ''rollback''"
| "action_name Restart = ''restart''"
| "action_name Remove = ''remove''"

datatype HostAction = HostInstall | HostUninstall | HostHealth

fun host_action_as_str :: "HostAction \<Rightarrow> string" where
  "host_action_as_str HostInstall = ''install''"
| "host_action_as_str HostUninstall = ''uninstall''"
| "host_action_as_str HostHealth = ''health''"

record HostStep =
  hs_action :: HostAction
  hs_expected_generation :: u64

record ReleasePin =
  pin_release_id :: string
  pin_digest :: string
  pin_artifact_digest :: string
  pin_workdir :: string

record Step =
  st_id :: string
  st_order :: u32
  st_product :: string
  st_instance :: string
  st_action :: Action
  st_from :: "string option"
  st_to :: string
  st_release_id :: string
  st_release_digest :: string
  st_artifact_digest :: string
  st_workdir :: string
  st_restore :: "ReleasePin option"
  st_host :: "HostStep option"

record DesiredStateInput =
  in_product :: string
  in_instance :: string
  in_channel :: string
  in_channel_id :: string
  in_desired_version :: string
  in_release_id :: string
  in_release_digest :: string
  in_artifact_digest :: string
  in_deployed_version :: "string option"

definition step_instance_name :: "Step \<Rightarrow> string" where
  "step_instance_name s = (if st_instance s = [] then st_product s else st_instance s)"

definition input_instance_name :: "DesiredStateInput \<Rightarrow> string" where
  "input_instance_name i = (if in_instance i = [] then in_product i else in_instance i)"

datatype PlanState = Computed | Running | Blocked | Succeeded | Failed

fun plan_state_name :: "PlanState \<Rightarrow> string" where
  "plan_state_name Computed = ''computed''"
| "plan_state_name Running = ''running''"
| "plan_state_name Blocked = ''blocked''"
| "plan_state_name Succeeded = ''succeeded''"
| "plan_state_name Failed = ''failed''"

record CredentialRunway =
  cr_credential :: string
  cr_expires_at_ms :: int
  cr_window_opens_at_ms :: int

record Plan =
  pl_format_version :: u32
  pl_id :: string
  pl_content_id :: string
  pl_environment :: string
  pl_created_at :: int
  pl_inputs :: "DesiredStateInput list"
  pl_steps :: "Step list"
  pl_state :: PlanState
  pl_gates_skipped :: "bool option"
  pl_status_detail :: string
  pl_maintenance_blocked :: bool
  pl_prior_warnings :: "string list"
  pl_recalled_recovery_reason :: "string option"
  pl_credential_runway :: "CredentialRunway option"

definition plan_format_version :: u32 where
  "plan_format_version = 1"

section \<open>Digests\<close>

datatype content_tuple =
    Content_With_Reason u32 string int "DesiredStateInput list" "Step list" string
  | Content_Plain u32 string int "DesiredStateInput list" "Step list"

record ExecutableContent =
  ec_format_version :: u32
  ec_id :: string
  ec_content_id :: string
  ec_environment :: string
  ec_created_at :: int
  ec_inputs :: "DesiredStateInput list"
  ec_steps :: "Step list"
  ec_recalled_recovery_reason :: "string option"

record 'b codec =
  encode_content :: "content_tuple \<Rightarrow> 'b option"
  encode_executable :: "ExecutableContent \<Rightarrow> 'b option"
  sha256_hex :: "'b \<Rightarrow> string"

definition normalize_step :: "Step \<Rightarrow> Step" where
  "normalize_step s = s\<lparr>st_id := []\<rparr>"

definition effective_reason :: "string option \<Rightarrow> string option" where
  "effective_reason r = (case r of None \<Rightarrow> None | Some v \<Rightarrow> if v = [] then None else Some v)"

definition content_tuple_of ::
  "string \<Rightarrow> int \<Rightarrow> DesiredStateInput list \<Rightarrow> Step list \<Rightarrow> string option \<Rightarrow> content_tuple" where
  "content_tuple_of environment created_at inputs steps reason =
     (let normalized = map normalize_step steps in
      case effective_reason reason of
        Some r \<Rightarrow> Content_With_Reason plan_format_version environment created_at inputs normalized r
      | None \<Rightarrow> Content_Plain plan_format_version environment created_at inputs normalized)"

definition content_address ::
  "('b, 'z) codec_scheme \<Rightarrow> string \<Rightarrow> int \<Rightarrow> DesiredStateInput list \<Rightarrow> Step list \<Rightarrow> string option
     \<Rightarrow> string option" where
  "content_address c environment created_at inputs steps reason =
     map_option (sha256_hex c)
       (encode_content c (content_tuple_of environment created_at inputs steps reason))"

definition executable_content :: "Plan \<Rightarrow> ExecutableContent" where
  "executable_content p = \<lparr>
     ec_format_version = pl_format_version p,
     ec_id = pl_id p,
     ec_content_id = pl_content_id p,
     ec_environment = pl_environment p,
     ec_created_at = pl_created_at p,
     ec_inputs = pl_inputs p,
     ec_steps = pl_steps p,
     ec_recalled_recovery_reason = pl_recalled_recovery_reason p\<rparr>"

definition executable_digest :: "('b, 'z) codec_scheme \<Rightarrow> Plan \<Rightarrow> string option" where
  "executable_digest c p = map_option (sha256_hex c) (encode_executable c (executable_content p))"

section \<open>Product kinds\<close>

datatype ProductKind =
    Software | RoutingConfig | ModelRuntime | PolicyBundle | EvalSuite | AgentDefinition
  | WorkerPool | PromptPackage | WorkshopModule

datatype StagedKind =
    Staged_PolicyBundle | Staged_EvalSuite | Staged_AgentDefinition | Staged_PromptPackage
  | Staged_WorkshopModule

datatype ProductTarget =
    Target_Software | Target_RoutingConfig | Target_ModelRuntime | Target_WorkerPool
  | Staged StagedKind

datatype CleanupPolicy = Atomic | UninstallIfDeclared
datatype RolloutDirection = Forward | Reverse

fun policy_target :: "ProductKind \<Rightarrow> ProductTarget" where
  "policy_target Software = Target_Software"
| "policy_target RoutingConfig = Target_RoutingConfig"
| "policy_target ModelRuntime = Target_ModelRuntime"
| "policy_target WorkerPool = Target_WorkerPool"
| "policy_target PolicyBundle = Staged Staged_PolicyBundle"
| "policy_target EvalSuite = Staged Staged_EvalSuite"
| "policy_target AgentDefinition = Staged Staged_AgentDefinition"
| "policy_target PromptPackage = Staged Staged_PromptPackage"
| "policy_target WorkshopModule = Staged Staged_WorkshopModule"

definition staged_kind :: "ProductTarget \<Rightarrow> StagedKind option" where
  "staged_kind t = (case t of Staged k \<Rightarrow> Some k | _ \<Rightarrow> None)"

definition cleanup :: "ProductTarget \<Rightarrow> CleanupPolicy" where
  "cleanup t = (case t of Target_Software \<Rightarrow> UninstallIfDeclared | _ \<Rightarrow> Atomic)"

definition rollout_rank :: "ProductTarget \<Rightarrow> RolloutDirection \<Rightarrow> nat" where
  "rollout_rank t d =
     (if (t = Target_ModelRuntime \<and> d = Forward) \<or> (t = Target_RoutingConfig \<and> d = Reverse) then 0
      else if (t = Target_RoutingConfig \<and> d = Forward) \<or> (t = Target_ModelRuntime \<and> d = Reverse)
      then 1
      else 2)"

section \<open>Sample data\<close>

definition demo_step :: "string \<Rightarrow> Step" where
  "demo_step sid = \<lparr>st_id = sid, st_order = 0, st_product = ''api'', st_instance = [],
     st_action = Install, st_from = None, st_to = ''1.0.0'', st_release_id = ''r'',
     st_release_digest = ''d'', st_artifact_digest = ''a'', st_workdir = ''w'', st_restore = None,
     st_host = None\<rparr>"

definition demo_codec :: "bool codec" where
  "demo_codec = \<lparr>
     encode_content = (\<lambda>x. if x = content_tuple_of ''e'' 1 [] [demo_step []] None then Some True
        else None),
     encode_executable = (\<lambda>x. None),
     sha256_hex = (\<lambda>b. if b then ''1'' else ''0'')\<rparr>"

section \<open>What the digests bind\<close>

definition hash_collision :: "('b, 'z) codec_scheme \<Rightarrow> bool" where
  "hash_collision c \<longleftrightarrow> (\<exists>x y. x \<noteq> y \<and> sha256_hex c x = sha256_hex c y)"

lemma content_tuple_of_eq:
  "content_tuple_of e t is ss r = content_tuple_of e' t' is' ss' r' \<longleftrightarrow>
     e = e' \<and> t = t' \<and> is = is' \<and> map normalize_step ss = map normalize_step ss'
       \<and> effective_reason r = effective_reason r'"
  by (auto simp: content_tuple_of_def Let_def split: option.splits)

lemma digest_eq_cases:
  assumes "map_option (sha256_hex c) x = Some d" and "map_option (sha256_hex c) y = Some d"
  shows "x = y \<or> hash_collision c"
  using assms by (auto simp: hash_collision_def) metis

lemma executable_digest_binds:
  assumes json: "inj_on (encode_executable c) {x. encode_executable c x \<noteq> None}"
    and d: "executable_digest c p = Some d" "executable_digest c p' = Some d"
  shows "executable_content p = executable_content p' \<or> hash_collision c"
proof (cases "hash_collision c")
  case False
  then have eq: "encode_executable c (executable_content p) = encode_executable c (executable_content p')"
    using digest_eq_cases [OF d [unfolded executable_digest_def]] by blast
  have "encode_executable c (executable_content p) \<noteq> None"
    using d(1) by (auto simp: executable_digest_def)
  then show ?thesis using inj_onD [OF json eq] eq by simp
qed simp

text \<open>The content address binds a plan's content: under an injective JSON encoding, two
  contents with the same address have the same environment, creation time, inputs, recovery reason
  (an empty reason counts as none) and the same steps up to their ids, or SHA-256 collides.\<close>

theorem content_address_binds_content:
  assumes json: "inj_on (encode_content c) {x. encode_content c x \<noteq> None}"
    and a: "content_address c e t is ss r = Some d"
    and b: "content_address c e' t' is' ss' r' = Some d"
  shows "(e = e' \<and> t = t' \<and> is = is' \<and> effective_reason r = effective_reason r'
      \<and> map normalize_step ss = map normalize_step ss') \<or> hash_collision c"
proof (cases "hash_collision c")
  case False
  have eq: "encode_content c (content_tuple_of e t is ss r)
      = encode_content c (content_tuple_of e' t' is' ss' r')"
    using digest_eq_cases [OF a [unfolded content_address_def] b [unfolded content_address_def]]
      False by blast
  have "encode_content c (content_tuple_of e t is ss r) \<noteq> None"
    using a by (auto simp: content_address_def)
  then have "content_tuple_of e t is ss r = content_tuple_of e' t' is' ss' r'"
    using inj_onD [OF json eq] eq by simp
  then show ?thesis by (simp add: content_tuple_of_eq)
qed simp

theorem content_address_binds_content_witness:
  "inj_on (encode_content demo_codec) {x. encode_content demo_codec x \<noteq> None}
   \<and> content_address demo_codec ''e'' 1 [] [demo_step ''p:step:0''] None = Some ''1''
   \<and> content_address demo_codec ''e'' 1 [] [demo_step ''q:step:0''] (Some []) = Some ''1''
   \<and> (map normalize_step [demo_step ''p:step:0''] = map normalize_step [demo_step ''q:step:0'']
        \<or> hash_collision demo_codec)"
proof -
  have inj: "inj_on (encode_content demo_codec) {x. encode_content demo_codec x \<noteq> None}"
    by (auto simp: inj_on_def demo_codec_def split: if_splits)
  have a: "content_address demo_codec ''e'' 1 [] [demo_step ''p:step:0''] None = Some ''1''"
    and b: "content_address demo_codec ''e'' 1 [] [demo_step ''q:step:0''] (Some []) = Some ''1''"
    by (simp_all add: content_address_def demo_codec_def content_tuple_of_def effective_reason_def
        normalize_step_def demo_step_def Let_def)
  show ?thesis using content_address_binds_content [OF inj a b] inj a b by blast
qed

end
