(* ===== verification/BTree_Map.thy ===== *)
theory BTree_Map
  imports Prelude
begin

text \<open>
  The ordered maps and sets of the Rust standard library (\<open>BTreeMap\<close>, \<open>BTreeSet\<close>): an association
  list whose keys ascend strictly, so that iteration is the list itself.  The contract that the
  components rely on is the locale \<open>ordered_map\<close>; the lists implement it.
\<close>

type_synonym ('k, 'v) btree_map = "('k \<times> 'v) list"
type_synonym 'k btree_set = "'k list"

definition bt_ok :: "('k::linorder, 'v) btree_map \<Rightarrow> bool" where
  "bt_ok m = sorted_wrt (<) (map fst m)"

abbreviation bt_get :: "('k, 'v) btree_map \<Rightarrow> 'k \<Rightarrow> 'v option" where
  "bt_get \<equiv> map_of"

fun bt_insert :: "'k::linorder \<Rightarrow> 'v \<Rightarrow> ('k, 'v) btree_map \<Rightarrow> ('k, 'v) btree_map" where
  "bt_insert k v [] = [(k, v)]"
| "bt_insert k v (e # m) =
     (if fst e < k then e # bt_insert k v m
      else if fst e = k then (k, v) # m
      else (k, v) # e # m)"

definition bt_remove :: "'k \<Rightarrow> ('k, 'v) btree_map \<Rightarrow> ('k, 'v) btree_map" where
  "bt_remove k m = filter (\<lambda>e. fst e \<noteq> k) m"

definition bt_modify :: "'k \<Rightarrow> ('v \<Rightarrow> 'v) \<Rightarrow> ('k, 'v) btree_map \<Rightarrow> ('k, 'v) btree_map" where
  "bt_modify k f m = map (\<lambda>(j, v). if j = k then (j, f v) else (j, v)) m"

definition bt_keys :: "('k, 'v) btree_map \<Rightarrow> 'k list" where
  "bt_keys m = map fst m"

definition bt_contains :: "('k, 'v) btree_map \<Rightarrow> 'k \<Rightarrow> bool" where
  "bt_contains m k = (k \<in> set (bt_keys m))"

definition bt_of_list :: "('k::linorder \<times> 'v) list \<Rightarrow> ('k, 'v) btree_map" where
  "bt_of_list es = fold (\<lambda>(k, v) m. bt_insert k v m) es []"

definition bs_ok :: "('k::linorder) btree_set \<Rightarrow> bool" where
  "bs_ok s = sorted_wrt (<) s"

fun bs_insert :: "'k::linorder \<Rightarrow> 'k btree_set \<Rightarrow> 'k btree_set" where
  "bs_insert k [] = [k]"
| "bs_insert k (x # s) =
     (if x < k then x # bs_insert k s else if x = k then x # s else k # x # s)"

definition bs_of_list :: "('k::linorder) list \<Rightarrow> 'k btree_set" where
  "bs_of_list xs = fold bs_insert xs []"

section \<open>The contract of an ordered map\<close>

locale ordered_map =
  fixes emp :: 'm
    and ins :: "'k::linorder \<Rightarrow> 'v \<Rightarrow> 'm \<Rightarrow> 'm"
    and del :: "'k \<Rightarrow> 'm \<Rightarrow> 'm"
    and get :: "'m \<Rightarrow> 'k \<Rightarrow> 'v option"
    and iter :: "'m \<Rightarrow> ('k \<times> 'v) list"
    and ok :: "'m \<Rightarrow> bool"
  assumes emp_ok: "ok emp"
    and ins_ok: "ok m \<Longrightarrow> ok (ins k v m)"
    and del_ok: "ok m \<Longrightarrow> ok (del k m)"
    and get_emp: "get emp j = None"
    and get_ins: "ok m \<Longrightarrow> get (ins k v m) j = (if j = k then Some v else get m j)"
    and get_del: "ok m \<Longrightarrow> get (del k m) j = (if j = k then None else get m j)"
    and iter_sorted: "ok m \<Longrightarrow> sorted_wrt (<) (map fst (iter m))"
    and iter_get: "ok m \<Longrightarrow> map_of (iter m) = get m"
begin

lemma iter_mem: "ok m \<Longrightarrow> (k, v) \<in> set (iter m) \<longleftrightarrow> get m k = Some v"
proof -
  assume m: "ok m"
  then have "distinct (map fst (iter m))"
    using iter_sorted strict_sorted_iff by blast
  then show ?thesis using iter_get [OF m] by (metis map_of_eq_Some_iff)
qed

lemma iter_ext:
  assumes "ok m" and "ok m'" and "get m = get m'"
  shows "iter m = iter m'"
proof (rule map_sorted_distinct_set_unique)
  have d: "sorted_wrt (<) (map fst (iter m))" "sorted_wrt (<) (map fst (iter m'))"
    using assms iter_sorted by blast+
  then show "sorted (map fst (iter m))" "distinct (map fst (iter m))"
    "sorted (map fst (iter m'))" "distinct (map fst (iter m'))"
    by (simp_all add: strict_sorted_iff)
  show eq: "set (iter m) = set (iter m')"
    using assms iter_mem by auto
  show "inj_on fst (set (iter m) \<union> set (iter m'))"
    using d eq by (simp add: strict_sorted_iff distinct_map)
qed

lemma iter_ins_ins_swap:
  assumes "ok m" and "j \<noteq> k"
  shows "iter (ins j u (ins k v m)) = iter (ins k v (ins j u m))"
  using assms by (intro iter_ext) (auto simp: ins_ok get_ins)

lemma iter_ins_ins_same:
  assumes "ok m"
  shows "iter (ins k u (ins k v m)) = iter (ins k u m)"
  using assms by (intro iter_ext) (auto simp: ins_ok get_ins)

lemma iter_del_ins_same:
  assumes "ok m" and "get m k = None"
  shows "iter (del k (ins k v m)) = iter m"
  using assms by (intro iter_ext) (auto simp: ins_ok del_ok get_ins get_del)

end

section \<open>The association lists implement it\<close>

lemma bt_ok_Nil [simp]: "bt_ok []"
  by (simp add: bt_ok_def)

lemma bt_ok_Cons: "bt_ok (e # m) \<longleftrightarrow> (\<forall>x\<in>set m. fst e < fst x) \<and> bt_ok m"
  by (auto simp: bt_ok_def)

lemma bt_insert_set_subset: "set (bt_insert k v m) \<subseteq> insert (k, v) (set m)"
  by (induction m) auto

lemma bt_insert_ok [simp]: "bt_ok m \<Longrightarrow> bt_ok (bt_insert k v m)"
proof (induction m)
  case (Cons e m)
  have "\<forall>x\<in>set (bt_insert k v m). fst e < fst x" if "fst e < k"
    using that Cons.prems bt_insert_set_subset [of k v m] by (auto simp: bt_ok_Cons)
  with Cons show ?case
    by (auto simp: bt_ok_Cons not_less dest: le_less_trans less_trans)
qed (simp add: bt_ok_def)

lemma bt_get_insert [simp]:
  "map_of (bt_insert k v m) j = (if j = k then Some v else map_of m j)"
  by (induction m) auto

lemma bt_remove_ok [simp]: "bt_ok m \<Longrightarrow> bt_ok (bt_remove k m)"
  by (induction m) (auto simp: bt_ok_Cons bt_remove_def)

lemma bt_get_remove [simp]:
  "map_of (bt_remove k m) j = (if j = k then None else map_of m j)"
  by (induction m) (auto simp: bt_remove_def)

lemma bt_get_modify [simp]:
  "map_of (bt_modify k f m) j = (if j = k then map_option f (map_of m j) else map_of m j)"
  by (induction m) (auto simp: bt_modify_def)

lemma bt_modify_ok [simp]: "bt_ok (bt_modify k f m) = bt_ok m"
proof -
  have "map fst (bt_modify k f m) = map fst m" by (simp add: bt_modify_def split_def if_distrib)
  then show ?thesis by (simp add: bt_ok_def)
qed

lemma bt_ok_distinct: "bt_ok m \<Longrightarrow> distinct (map fst m)"
  by (simp add: bt_ok_def strict_sorted_iff)

interpretation bt: ordered_map "[]" bt_insert bt_remove map_of "\<lambda>m. m" bt_ok
  by unfold_locales (auto simp: bt_ok_def [symmetric])

lemma bt_of_list_fold_ok: "bt_ok m \<Longrightarrow> bt_ok (fold (\<lambda>(k, v) m. bt_insert k v m) es m)"
  by (induction es arbitrary: m) auto

lemma bt_of_list_ok [simp]: "bt_ok (bt_of_list es)"
  by (simp add: bt_of_list_def bt_of_list_fold_ok)

lemma map_of_fold_insert:
  "map_of (fold (\<lambda>(k, v) m. bt_insert k v m) es m) j
     = (case map_of (rev es) j of None \<Rightarrow> map_of m j | Some v \<Rightarrow> Some v)"
  by (induction es arbitrary: m) (auto simp: map_add_def split: option.splits)

lemma map_of_bt_of_list: "map_of (bt_of_list es) = map_of (rev es)"
  by (rule ext) (simp add: bt_of_list_def map_of_fold_insert split: option.splits)

lemma set_bt_keys: "set (bt_keys m) = dom (map_of m)"
  by (simp add: bt_keys_def dom_map_of_conv_image_fst)

lemma bs_ok_bt_keys: "bt_ok m \<Longrightarrow> bs_ok (bt_keys m)"
  by (simp add: bt_ok_def bs_ok_def bt_keys_def)

lemma bs_ok_singleton: "bs_ok s \<Longrightarrow> set s = {x} \<longleftrightarrow> s = [x]"
proof (cases s)
  case (Cons y ys)
  assume "bs_ok s"
  then have "\<forall>z\<in>set ys. y < z" by (simp add: bs_ok_def Cons)
  then show ?thesis using Cons by (cases ys) auto
qed simp

lemma bt_contains_iff: "bt_contains m k \<longleftrightarrow> map_of m k \<noteq> None"
  by (auto simp: bt_contains_def bt_keys_def map_of_eq_None_iff)

section \<open>Ordered sets\<close>

lemma set_bs_insert [simp]: "set (bs_insert k s) = insert k (set s)"
  by (induction s) auto

lemma bs_ok_Nil [simp]: "bs_ok []"
  by (simp add: bs_ok_def)

lemma bs_insert_ok [simp]: "bs_ok s \<Longrightarrow> bs_ok (bs_insert k s)"
  unfolding bs_ok_def by (induction s) auto

lemma set_fold_bs_insert: "set (fold bs_insert xs s) = set xs \<union> set s"
  by (induction xs arbitrary: s) auto

lemma bs_fold_ok: "bs_ok s \<Longrightarrow> bs_ok (fold bs_insert xs s)"
  by (induction xs arbitrary: s) auto

lemma set_bs_of_list [simp]: "set (bs_of_list xs) = set xs"
  by (simp add: bs_of_list_def set_fold_bs_insert)

lemma bs_of_list_ok [simp]: "bs_ok (bs_of_list xs)"
  by (simp add: bs_of_list_def bs_fold_ok)

lemma bs_ok_distinct: "bs_ok s \<Longrightarrow> distinct s"
  by (simp add: bs_ok_def strict_sorted_iff)

end
