(* ===== verification/Quorum.thy ===== *)
theory Quorum
  imports Plan_Data BTree_Map
begin

text \<open>
  Approval quorums: \<open>count_quorum\<close> of \<open>src/plan_approval.rs\<close>, the rule type and default rule of
  \<open>src/approval_policy.rs\<close>, and the counted approvals of \<open>src/host_apply/policy.rs\<close> that the root-side
  applier checks before a step starts.  Counts are unbounded; \<open>n\<close> is a \<open>u32\<close>.
\<close>

datatype QuorumPurpose = ExecutePlan | RollbackPurpose | SkipGates | DowngradePurpose

record QuorumRule =
  qr_purpose :: QuorumPurpose
  qr_n :: nat
  qr_groups :: "string list"
  qr_exclude_requester :: bool
  qr_min_criticality :: "string option"

record CountedApproval =
  ca_key_id :: string
  ca_identity :: string
  ca_groups :: "string list"
  ca_auto :: bool

record QuorumTally =
  qt_counted :: "CountedApproval list"
  qt_missing :: nat

definition default_quorum :: "QuorumPurpose \<Rightarrow> QuorumRule" where
  "default_quorum purpose =
     \<lparr>qr_purpose = purpose, qr_n = 1, qr_groups = [], qr_exclude_requester = False,
      qr_min_criticality = None\<rparr>"

definition eligible :: "QuorumRule \<Rightarrow> string option \<Rightarrow> CountedApproval \<Rightarrow> bool" where
  "eligible rule requester c \<longleftrightarrow>
     \<not> (1 < qr_n rule \<and> ca_auto c)
     \<and> \<not> (qr_exclude_requester rule \<and> requester = Some (ca_identity c))
     \<and> (qr_groups rule = []
        \<or> list_ex (\<lambda>group. list_ex (\<lambda>needed. needed = group) (qr_groups rule)) (ca_groups c))"

fun count_loop ::
  "QuorumRule \<Rightarrow> string option \<Rightarrow> CountedApproval list \<Rightarrow> string btree_set \<Rightarrow> string btree_set
     \<Rightarrow> CountedApproval list \<Rightarrow> CountedApproval list" where
  "count_loop rule requester [] seen_keys seen_identities counted = counted"
| "count_loop rule requester (c # cs) seen_keys seen_identities counted =
     (if \<not> eligible rule requester c then count_loop rule requester cs seen_keys seen_identities counted
      else if ca_key_id c \<in> set seen_keys \<or> ca_identity c \<in> set seen_identities
      then count_loop rule requester cs seen_keys seen_identities counted
      else if qr_n rule \<le> length (counted @ [c]) then counted @ [c]
      else count_loop rule requester cs (bs_insert (ca_key_id c) seen_keys)
             (bs_insert (ca_identity c) seen_identities) (counted @ [c]))"

definition count_quorum ::
  "QuorumRule \<Rightarrow> CountedApproval list \<Rightarrow> string option \<Rightarrow> QuorumTally" where
  "count_quorum rule candidates requester =
     (let counted = count_loop rule requester candidates [] [] [] in
      \<lparr>qt_counted = counted, qt_missing = qr_n rule - length counted\<rparr>)"

section \<open>Host approvals\<close>

record Candidate =
  cd_approval :: CountedApproval
  cd_valid_until :: int

record HostApprovals =
  ha_rules :: "QuorumPurpose \<Rightarrow> QuorumRule list"
  ha_candidates :: "Candidate list"
  ha_rejected :: "string list"

definition policy_rules :: "QuorumRule list \<Rightarrow> QuorumPurpose \<Rightarrow> QuorumRule list" where
  "policy_rules quorum purpose =
     (let rules = filter (\<lambda>rule. qr_purpose rule = purpose) quorum in
      if rules = [] then [default_quorum purpose] else rules)"

definition approvals_at :: "HostApprovals \<Rightarrow> int \<Rightarrow> HostApprovals" where
  "approvals_at a now_ms =
     a\<lparr>ha_candidates := filter (\<lambda>c. now_ms < cd_valid_until c) (ha_candidates a),
       ha_rejected := ha_rejected a
         @ map (\<lambda>c. ca_key_id (cd_approval c)
                 @ '': stopped being valid before the step could start'')
             (filter (\<lambda>c. \<not> now_ms < cd_valid_until c) (ha_candidates a))\<rparr>"

datatype quorum_error = Quorum_Missing QuorumPurpose

definition require_purpose :: "HostApprovals \<Rightarrow> QuorumPurpose \<Rightarrow> quorum_error + unit" where
  "require_purpose a purpose =
     (let approvals = map cd_approval (ha_candidates a) in
      ensure (list_all (\<lambda>rule. qt_missing (count_quorum rule approvals None) = 0) (ha_rules a purpose))
        (Quorum_Missing purpose))"

definition require_all :: "HostApprovals \<Rightarrow> QuorumPurpose list \<Rightarrow> quorum_error + unit" where
  "require_all a purposes = try_all (require_purpose a) purposes"

definition plan_purposes :: "Plan \<Rightarrow> QuorumPurpose list" where
  "plan_purposes plan =
     [ExecutePlan, SkipGates]
     @ (if list_ex (\<lambda>s. st_action s = Rollback) (pl_steps plan) then [RollbackPurpose] else [])
     @ (if list_ex (\<lambda>s. st_action s = Downgrade) (pl_steps plan) then [DowngradePurpose] else [])"

section \<open>Counting\<close>

definition distinct_approvals :: "CountedApproval list \<Rightarrow> bool" where
  "distinct_approvals cs \<longleftrightarrow> distinct (map ca_key_id cs) \<and> distinct (map ca_identity cs)"

definition seen_matches :: "CountedApproval list \<Rightarrow> string list \<Rightarrow> string list \<Rightarrow> bool" where
  "seen_matches counted ks is \<longleftrightarrow>
     set ks = ca_key_id ` set counted \<and> set is = ca_identity ` set counted"

definition count_ok :: "QuorumRule \<Rightarrow> string option \<Rightarrow> CountedApproval set \<Rightarrow> CountedApproval list \<Rightarrow> bool" where
  "count_ok rule requester from counted \<longleftrightarrow>
     distinct_approvals counted \<and> (\<forall>c\<in>set counted. eligible rule requester c)
     \<and> set counted \<subseteq> from \<and> length counted \<le> max 1 (qr_n rule)"

lemma count_loop_sound:
  assumes "seen_matches counted ks ids" and "count_ok rule requester from counted"
    and "length counted < qr_n rule \<or> counted = []" and "set cs \<subseteq> from"
  shows "count_ok rule requester from (count_loop rule requester cs ks ids counted)"
  using assms
proof (induction rule requester cs ks ids counted rule: count_loop.induct)
  case (2 rule requester c cs ks ids counted)
  have sub: "set cs \<subseteq> from" "c \<in> from" using 2(7) by auto
  consider (skip) "\<not> eligible rule requester c" | (seen) "eligible rule requester c"
      "ca_key_id c \<in> set ks \<or> ca_identity c \<in> set ids"
    | (new) "eligible rule requester c" "\<not> (ca_key_id c \<in> set ks \<or> ca_identity c \<in> set ids)"
    by blast
  then show ?case
  proof cases
    case skip
    then show ?thesis using 2(1) [OF skip 2(4,5,6) sub(1)] by simp
  next
    case seen
    then show ?thesis using 2(2) [OF _ seen(2) 2(4,5,6) sub(1)] by simp
  next
    case new
    have ok: "count_ok rule requester from (counted @ [c])"
      using 2(4,5,6) new sub(2)
      by (auto simp: count_ok_def distinct_approvals_def seen_matches_def)
    have m: "seen_matches (counted @ [c]) (bs_insert (ca_key_id c) ks) (bs_insert (ca_identity c) ids)"
      using 2(4) by (simp add: seen_matches_def)
    show ?thesis
    proof (cases "qr_n rule \<le> length (counted @ [c])")
      case True
      then show ?thesis using new ok by simp
    next
      case False
      then show ?thesis using 2(3) [OF _ new(2) False m ok _ sub(1)] new by simp
    qed
  qed
qed simp

definition eligible_identities ::
  "QuorumRule \<Rightarrow> string option \<Rightarrow> CountedApproval list \<Rightarrow> string set" where
  "eligible_identities rule requester cs = ca_identity ` {c \<in> set cs. eligible rule requester c}"

definition keys_identify :: "CountedApproval list \<Rightarrow> bool" where
  "keys_identify cs \<longleftrightarrow> (\<forall>a\<in>set cs. \<forall>b\<in>set cs. ca_key_id a = ca_key_id b \<longrightarrow> ca_identity a = ca_identity b)"

lemma keys_identify_mono: "keys_identify cs \<Longrightarrow> set ds \<subseteq> set cs \<Longrightarrow> keys_identify ds"
  unfolding keys_identify_def by blast

lemma keys_identify_seen:
  assumes "keys_identify (counted @ c # cs)" and "seen_matches counted ks ids"
    and "ca_key_id c \<in> set ks \<or> ca_identity c \<in> set ids"
  shows "ca_identity c \<in> set ids"
proof -
  have ids: "set ks = ca_key_id ` set counted" "set ids = ca_identity ` set counted"
    using assms(2) by (simp_all add: seen_matches_def)
  have "c \<in> set (counted @ c # cs)" and "\<And>d. d \<in> set counted \<Longrightarrow> d \<in> set (counted @ c # cs)" by simp_all
  with assms(1,3) show ?thesis unfolding ids keys_identify_def image_iff by metis
qed

lemma finite_eligible_identities [simp]: "finite (eligible_identities rule requester cs)"
  by (simp add: eligible_identities_def)

lemma eligible_identities_Cons:
  "eligible_identities rule requester (c # cs) =
     (if eligible rule requester c then insert (ca_identity c) (eligible_identities rule requester cs)
      else eligible_identities rule requester cs)"
  by (auto simp: eligible_identities_def)

lemma count_loop_length:
  assumes "seen_matches counted ks ids" and "length counted < qr_n rule" and "keys_identify (counted @ cs)"
  shows "length (count_loop rule requester cs ks ids counted)
    = min (qr_n rule) (length counted + card (eligible_identities rule requester cs - set ids))"
  using assms
proof (induction rule requester cs ks ids counted rule: count_loop.induct)
  case (1 rule requester ks ids counted)
  then show ?case by (simp add: eligible_identities_def)
next
  case (2 rule requester c cs ks ids counted)
  have ki: "keys_identify (counted @ cs)" by (rule keys_identify_mono [OF 2(6)]) auto
  consider (skip) "\<not> eligible rule requester c" | (seen) "eligible rule requester c"
      "ca_key_id c \<in> set ks \<or> ca_identity c \<in> set ids"
    | (new) "eligible rule requester c" "\<not> (ca_key_id c \<in> set ks \<or> ca_identity c \<in> set ids)"
    by blast
  then show ?case
  proof cases
    case skip
    then show ?thesis using 2(1) [OF skip 2(4,5) ki] by (simp add: eligible_identities_Cons)
  next
    case seen
    have "ca_identity c \<in> set ids"
      by (rule keys_identify_seen [OF 2(6,4) seen(2)])
    then have "eligible_identities rule requester (c # cs) - set ids
        = eligible_identities rule requester cs - set ids"
      by (simp add: eligible_identities_Cons insert_Diff_if)
    then show ?thesis using 2(2) [OF _ seen(2) 2(4,5) ki] seen by simp
  next
    case new
    have split: "card (eligible_identities rule requester (c # cs) - set ids)
        = Suc (card (eligible_identities rule requester cs - set (bs_insert (ca_identity c) ids)))"
    proof -
      have "eligible_identities rule requester (c # cs) - set ids
          = insert (ca_identity c) (eligible_identities rule requester cs - set (bs_insert (ca_identity c) ids))"
        using new by (auto simp: eligible_identities_Cons)
      then show ?thesis by simp
    qed
    have m: "seen_matches (counted @ [c]) (bs_insert (ca_key_id c) ks) (bs_insert (ca_identity c) ids)"
      using 2(4) by (simp add: seen_matches_def)
    show ?thesis
    proof (cases "qr_n rule \<le> length (counted @ [c])")
      case True
      then show ?thesis using new 2(5) split by simp
    next
      case False
      then have "length (counted @ [c]) < qr_n rule" by simp
      have k: "keys_identify ((counted @ [c]) @ cs)" using 2(6) by simp
      show ?thesis using 2(3) [OF _ new(2) False m \<open>length (counted @ [c]) < qr_n rule\<close> k] new split False
        by simp
    qed
  qed
qed

text \<open>A quorum counts distinct people: the counted approvals carry distinct keys and distinct
  identities, each is eligible under the rule (not automatic when more than one is needed, from the
  rule's groups, not the excluded requester), and when each key belongs to one identity what is
  missing is exactly \<open>n\<close> minus the number of distinct eligible identities.\<close>

theorem quorum_counts_distinct_people:
  assumes "1 \<le> qr_n rule" and "keys_identify candidates"
  shows "qt_missing (count_quorum rule candidates requester)
      = qr_n rule - card (eligible_identities rule requester candidates)
    \<and> distinct_approvals (qt_counted (count_quorum rule candidates requester))
    \<and> (\<forall>c\<in>set (qt_counted (count_quorum rule candidates requester)).
         c \<in> set candidates \<and> eligible rule requester c)"
proof -
  have m: "seen_matches [] [] []" by (simp add: seen_matches_def)
  have "count_ok rule requester (set candidates) (count_loop rule requester candidates [] [] [])"
    using count_loop_sound [OF m, of rule requester "set candidates" candidates]
    by (simp add: count_ok_def distinct_approvals_def)
  moreover have "length (count_loop rule requester candidates [] [] [])
      = min (qr_n rule) (card (eligible_identities rule requester candidates))"
    using count_loop_length [OF m, of rule candidates requester] assms by simp
  ultimately show ?thesis by (auto simp: count_quorum_def Let_def count_ok_def)
qed

theorem quorum_counts_distinct_people_witness:
  "qt_missing (count_quorum ((default_quorum ExecutePlan)\<lparr>qr_n := 2\<rparr>)
      [\<lparr>ca_key_id = ''k1'', ca_identity = ''ana'', ca_groups = [], ca_auto = False\<rparr>,
       \<lparr>ca_key_id = ''k2'', ca_identity = ''ana'', ca_groups = [], ca_auto = False\<rparr>] None) = 1"
proof -
  let ?r = "(default_quorum ExecutePlan)\<lparr>qr_n := 2\<rparr>"
  let ?cs = "[\<lparr>ca_key_id = ''k1'', ca_identity = ''ana'', ca_groups = [], ca_auto = False\<rparr>,
     \<lparr>ca_key_id = ''k2'', ca_identity = ''ana'', ca_groups = [], ca_auto = False\<rparr>]"
  have n: "1 \<le> qr_n ?r" by simp
  have k: "keys_identify ?cs" by (simp add: keys_identify_def)
  have "eligible_identities ?r None ?cs = {''ana''}"
    by (simp add: eligible_identities_Cons eligible_identities_def [of _ _ "[]"] eligible_def default_quorum_def)
  then show ?thesis using quorum_counts_distinct_people [OF n k, of None] by simp
qed

end
