(* ===== verification/Semver.thy ===== *)
theory Semver
  imports Decimal "HOL-Library.Product_Lexorder"
begin

text \<open>
  The \<open>semver\<close> crate as a parameter: the operations of \<open>semver::Version\<close> that the source calls, in
  one record.  \<open>semver_laws\<close> states the documented behaviour the proofs rely on: \<open>Ord\<close> is a strict
  linear order that compares major, then minor; precedence is a strict weak order that ignores
  build metadata.  A three-number version is a concrete instance that satisfies the laws.
\<close>

record 'v semver =
  sv_parse :: "string \<Rightarrow> 'v option"
  sv_less :: "'v \<Rightarrow> 'v \<Rightarrow> bool"
  sv_prec_less :: "'v \<Rightarrow> 'v \<Rightarrow> bool"
  sv_major :: "'v \<Rightarrow> nat"
  sv_minor :: "'v \<Rightarrow> nat"
  sv_has_pre :: "'v \<Rightarrow> bool"
  sv_has_build :: "'v \<Rightarrow> bool"

definition semver_laws :: "('v, 'z) semver_scheme \<Rightarrow> bool" where
  "semver_laws sv \<longleftrightarrow>
     (\<forall>a. \<not> sv_less sv a a)
     \<and> (\<forall>a b c. sv_less sv a b \<longrightarrow> sv_less sv b c \<longrightarrow> sv_less sv a c)
     \<and> (\<forall>a b. sv_less sv a b \<or> a = b \<or> sv_less sv b a)
     \<and> (\<forall>a b. sv_major sv a < sv_major sv b \<longrightarrow> sv_less sv a b)
     \<and> (\<forall>a b. sv_major sv a = sv_major sv b \<longrightarrow> sv_minor sv a < sv_minor sv b \<longrightarrow> sv_less sv a b)
     \<and> (\<forall>a. \<not> sv_prec_less sv a a)
     \<and> (\<forall>a b c. sv_prec_less sv a b \<longrightarrow> sv_prec_less sv b c \<longrightarrow> sv_prec_less sv a c)
     \<and> (\<forall>a b c. sv_prec_less sv a b \<longrightarrow> sv_prec_less sv a c \<or> sv_prec_less sv c b)"

definition parse_triple :: "string \<Rightarrow> (nat \<times> nat \<times> nat) option" where
  "parse_triple s = (case split_on CHR ''.'' s of
     [a, b, c] \<Rightarrow>
       (case (parse_nat a, parse_nat b, parse_nat c) of
          (Some x, Some y, Some z) \<Rightarrow> Some (x, y, z)
        | _ \<Rightarrow> None)
   | _ \<Rightarrow> None)"

definition triple_semver :: "(nat \<times> nat \<times> nat) semver" where
  "triple_semver = \<lparr>
     sv_parse = parse_triple,
     sv_less = (<),
     sv_prec_less = (<),
     sv_major = fst,
     sv_minor = (\<lambda>v. fst (snd v)),
     sv_has_pre = (\<lambda>_. False),
     sv_has_build = (\<lambda>_. False)\<rparr>"

lemma triple_semver_laws: "semver_laws triple_semver"
  by (auto simp: semver_laws_def triple_semver_def)

lemma semver_irrefl: "semver_laws sv \<Longrightarrow> \<not> sv_less sv a a"
  by (simp add: semver_laws_def)

lemma semver_trans: "semver_laws sv \<Longrightarrow> sv_less sv a b \<Longrightarrow> sv_less sv b c \<Longrightarrow> sv_less sv a c"
  unfolding semver_laws_def by blast

lemma semver_le_trans:
  assumes "semver_laws sv" and "\<not> sv_less sv b a" and "\<not> sv_less sv c b"
  shows "\<not> sv_less sv c a"
  using assms unfolding semver_laws_def by metis

lemma semver_asym: "semver_laws sv \<Longrightarrow> sv_less sv a b \<Longrightarrow> \<not> sv_less sv b a"
  using semver_irrefl semver_trans by metis

lemma semver_linear: "semver_laws sv \<Longrightarrow> sv_less sv a b \<or> a = b \<or> sv_less sv b a"
  by (simp add: semver_laws_def)

lemma semver_prec_irrefl: "semver_laws sv \<Longrightarrow> \<not> sv_prec_less sv a a"
  by (simp add: semver_laws_def)

lemma semver_prec_le_trans:
  assumes "semver_laws sv" and "\<not> sv_prec_less sv b a" and "\<not> sv_prec_less sv c b"
  shows "\<not> sv_prec_less sv c a"
  using assms unfolding semver_laws_def by metis

lemma semver_minor_less:
  "semver_laws sv \<Longrightarrow> sv_major sv a = sv_major sv b \<Longrightarrow> sv_minor sv a < sv_minor sv b
     \<Longrightarrow> sv_less sv a b"
  unfolding semver_laws_def by blast

end
