(* ===== verification/Store_Object.thy ===== *)
theory Store_Object
  imports Ontology BTree_Map
begin

text \<open>
  The stored object (\<open>message Object\<close> of \<open>proto/vendor/sekai.proto\<close>) that plans, environments and
  evidence are persisted as.  Properties are a \<open>HashMap<String, String>\<close>, here a finite map whose
  iteration order is never relied on.
\<close>

type_synonym props = "string \<Rightarrow> string option"

record Object =
  ob_id :: string
  ob_kind :: string
  ob_name :: string
  ob_namespace :: string
  ob_external_id :: string
  ob_properties :: props
  ob_created :: int
  ob_updated :: int

definition prop_or_empty :: "props \<Rightarrow> string \<Rightarrow> string" where
  "prop_or_empty p k = (case p k of None \<Rightarrow> [] | Some v \<Rightarrow> v)"

definition remove_prop :: "string \<Rightarrow> props \<Rightarrow> props" where
  "remove_prop k p = p(k := None)"

definition key_for :: "string \<Rightarrow> string \<Rightarrow> string" where
  "key_for field name = field @ ''.'' @ name"

lemma remove_prop_apply [simp]: "remove_prop k p j = (if j = k then None else p j)"
  by (simp add: remove_prop_def)

lemma key_for_inject:
  assumes "CHR ''.'' \<notin> set f" and "CHR ''.'' \<notin> set g"
  shows "key_for f n = key_for g m \<longleftrightarrow> f = g \<and> n = m"
  using split_at_delimiter [OF assms, of n m] by (auto simp: key_for_def)

end
