(* ===== verification/Approval_Policy.thy ===== *)
theory Approval_Policy
  imports Quorum Semver Store_Object "HOL-Library.Option_ord"
begin

text \<open>
  \<open>src/approval_policy.rs\<close> and \<open>CriticalityLevel\<close> of \<open>src/criticality.rs\<close>: when an environment's
  policy lets the server sign a plan itself, which quorum rule a plan falls under, and which release
  metadata along the plan's version ranges forces a human.

  Reading the policy file and the signing key is I/O; the loaded policy is an argument.  Reads of
  the object store are arguments that may fail with an error of any type.
\<close>

datatype CriticalityLevel = Low | Medium | High | Critical

fun criticality_rank :: "CriticalityLevel \<Rightarrow> nat" where
  "criticality_rank Low = 0"
| "criticality_rank Medium = 1"
| "criticality_rank High = 2"
| "criticality_rank Critical = 3"

lemma criticality_rank_inject [simp]: "criticality_rank a = criticality_rank b \<longleftrightarrow> a = b"
  by (cases a; cases b) auto

instantiation CriticalityLevel :: linorder
begin

definition less_eq_criticality_def: "a \<le> b \<longleftrightarrow> criticality_rank a \<le> criticality_rank b"
definition less_criticality_def: "a < b \<longleftrightarrow> criticality_rank a < criticality_rank b"

instance
  by standard (auto simp: less_eq_criticality_def less_criticality_def)

end

fun criticality_as_str :: "CriticalityLevel \<Rightarrow> string" where
  "criticality_as_str Low = ''low''"
| "criticality_as_str Medium = ''medium''"
| "criticality_as_str High = ''high''"
| "criticality_as_str Critical = ''critical''"

definition criticality_parse :: "string \<Rightarrow> CriticalityLevel option" where
  "criticality_parse value =
     (if value = ''low'' then Some Low
      else if value = ''medium'' then Some Medium
      else if value = ''high'' then Some High
      else if value = ''critical'' then Some Critical
      else None)"

datatype PolicyMode = Auto | Manual

record ApprovalPolicy =
  ap_version :: u32
  ap_mode :: PolicyMode
  ap_ttl_ms :: int
  ap_auto_signer_key :: "string option"
  ap_require_human :: "string list"
  ap_require_preflight :: "int option"
  ap_quorum :: "QuorumRule list"
  ap_continue_after_failure_max_criticality :: "string option"

record DeliverySignals =
  ds_has_migration :: bool
  ds_changes_identity_config :: bool
  ds_reverses_migration :: bool

datatype Decision = Decision_Auto string | RequireHuman string

definition policy_provider :: string where
  "policy_provider = ''builtin-auto''"

definition preflight_provider :: string where
  "preflight_provider = ''preflight''"

section \<open>Signals of the releases a plan crosses\<close>

definition flag :: "props \<Rightarrow> string \<Rightarrow> bool" where
  "flag properties key = (properties key = Some ''true'')"

definition no_signals :: DeliverySignals where
  "no_signals = \<lparr>ds_has_migration = False, ds_changes_identity_config = False,
     ds_reverses_migration = False\<rparr>"

definition signals_target :: "props \<Rightarrow> DeliverySignals" where
  "signals_target p = \<lparr>ds_has_migration = flag p ''has_migration'',
     ds_changes_identity_config = flag p ''changes_identity_config'',
     ds_reverses_migration = False\<rparr>"

definition signals_departed :: "props \<Rightarrow> DeliverySignals" where
  "signals_departed p = no_signals\<lparr>ds_reverses_migration := flag p ''has_migration''\<rparr>"

definition signals_merge :: "DeliverySignals \<Rightarrow> DeliverySignals \<Rightarrow> DeliverySignals" where
  "signals_merge a b = \<lparr>ds_has_migration = ds_has_migration a \<or> ds_has_migration b,
     ds_changes_identity_config = ds_changes_identity_config a \<or> ds_changes_identity_config b,
     ds_reverses_migration = ds_reverses_migration a \<or> ds_reverses_migration b\<rparr>"

definition merge_found :: "DeliverySignals \<Rightarrow> (props \<Rightarrow> DeliverySignals) \<Rightarrow> Object option \<Rightarrow> DeliverySignals" where
  "merge_found signals read found =
     (case found of None \<Rightarrow> signals | Some r \<Rightarrow> signals_merge signals (read (ob_properties r)))"

definition crossed_release ::
  "('v, 'z) semver_scheme \<Rightarrow> string \<Rightarrow> 'v \<Rightarrow> 'v \<Rightarrow> Object \<Rightarrow> bool" where
  "crossed_release sv product low high release \<longleftrightarrow>
     ob_properties release ''product'' = Some product
     \<and> (case ob_properties release ''version'' of
          None \<Rightarrow> False
        | Some text \<Rightarrow> (case sv_parse sv text of
            None \<Rightarrow> False
          | Some v \<Rightarrow> sv_less sv low v \<and> \<not> sv_less sv high v))"

definition merge_crossed ::
  "('v, 'z) semver_scheme \<Rightarrow> string \<Rightarrow> bool \<Rightarrow> 'v \<Rightarrow> 'v \<Rightarrow> Object \<Rightarrow> DeliverySignals \<Rightarrow> DeliverySignals" where
  "merge_crossed sv product reverse low high release signals =
     (if crossed_release sv product low high release
      then signals_merge signals
             ((if reverse then signals_departed else signals_target) (ob_properties release))
      else signals)"

definition reverse_step :: "Step \<Rightarrow> bool" where
  "reverse_step s \<longleftrightarrow> st_action s = Downgrade \<or> st_action s = Rollback"

definition step_signals ::
  "('v, 'z) semver_scheme \<Rightarrow> (string \<Rightarrow> 'e + Object option) \<Rightarrow> ('e + Object list)
     \<Rightarrow> DeliverySignals \<times> Object list option \<Rightarrow> Step \<Rightarrow> 'e + DeliverySignals \<times> Object list option" where
  "step_signals sv get list_releases st step = (case st of (signals, releases) \<Rightarrow>
     if st_action step = Restart then Inr (signals, releases)
     else bind_r (get (st_release_id step)) (\<lambda>found.
       let signals = merge_found signals signals_target found in
       case st_from step of
         None \<Rightarrow> Inr (signals, releases)
       | Some from_text \<Rightarrow>
           (case (sv_parse sv from_text, sv_parse sv (st_to step)) of
              (Some from, Some to) \<Rightarrow>
                (let low = (if reverse_step step then to else from);
                     high = (if reverse_step step then from else to) in
                 bind_r (case releases of Some rs \<Rightarrow> Inr rs | None \<Rightarrow> list_releases) (\<lambda>rs.
                   Inr (fold (merge_crossed sv (st_product step) (reverse_step step) low high) rs signals,
                        Some rs)))
            | _ \<Rightarrow>
                (if reverse_step step
                 then bind_r (get (release_id (st_product step) from_text)) (\<lambda>departed.
                        Inr (merge_found signals signals_departed departed, releases))
                 else Inr (signals, releases)))))"

definition delivery_signals_for_plan ::
  "('v, 'z) semver_scheme \<Rightarrow> (string \<Rightarrow> 'e + Object option) \<Rightarrow> ('e + Object list) \<Rightarrow> Plan
     \<Rightarrow> 'e + DeliverySignals" where
  "delivery_signals_for_plan sv get list_releases plan =
     bind_r (try_fold (step_signals sv get list_releases) (no_signals, None) (pl_steps plan))
       (\<lambda>st. Inr (fst st))"

section \<open>The decision\<close>

definition quorum_purpose :: "Plan \<Rightarrow> bool \<Rightarrow> QuorumPurpose" where
  "quorum_purpose plan skip_gates =
     (if skip_gates then SkipGates
      else if list_ex (\<lambda>s. st_action s = Rollback) (pl_steps plan) then RollbackPurpose
      else if list_ex (\<lambda>s. st_action s = Downgrade) (pl_steps plan) then DowngradePurpose
      else ExecutePlan)"

definition rule_applies :: "QuorumPurpose \<Rightarrow> CriticalityLevel option \<Rightarrow> QuorumRule \<Rightarrow> bool" where
  "rule_applies purpose criticality rule \<longleftrightarrow>
     qr_purpose rule = purpose
     \<and> (case qr_min_criticality rule of
          None \<Rightarrow> True
        | Some text \<Rightarrow>
            (case criticality_parse text of
               None \<Rightarrow> False
             | Some least \<Rightarrow> (case criticality of None \<Rightarrow> False | Some got \<Rightarrow> least \<le> got)))"

definition rule_rank :: "QuorumRule \<Rightarrow> CriticalityLevel option \<times> nat" where
  "rule_rank rule =
     ((case qr_min_criticality rule of None \<Rightarrow> None | Some text \<Rightarrow> criticality_parse text), qr_n rule)"

definition quorum_rule ::
  "ApprovalPolicy \<Rightarrow> QuorumPurpose \<Rightarrow> CriticalityLevel option \<Rightarrow> QuorumRule" where
  "quorum_rule policy purpose criticality =
     (let matched = sort_key rule_rank (filter (rule_applies purpose criticality) (ap_quorum policy)) in
      if matched = [] then default_quorum purpose else last matched)"

definition plan_mentions_product :: "Plan \<Rightarrow> string \<Rightarrow> bool" where
  "plan_mentions_product plan product \<longleftrightarrow>
     list_ex (\<lambda>s. st_product s = product) (pl_steps plan)
     \<or> list_ex (\<lambda>i. in_product i = product) (pl_inputs plan)"

definition policy_evaluate ::
  "ApprovalPolicy \<Rightarrow> Plan \<Rightarrow> bool \<Rightarrow> DeliverySignals \<Rightarrow> CriticalityLevel option \<Rightarrow> Decision" where
  "policy_evaluate policy plan skip_gates signals criticality =
     (if ap_mode policy \<noteq> Auto then RequireHuman ''policy mode is manual''
      else if list_ex (\<lambda>s. st_host s \<noteq> None) (pl_steps plan)
      then RequireHuman ''host steps require human or external approval''
      else if 1 < qr_n (quorum_rule policy (quorum_purpose plan skip_gates) criticality)
      then RequireHuman ''multi-party approval requires human-signed envelopes''
      else if skip_gates then RequireHuman ''skip_gates requires a human-signed envelope''
      else if list_ex reverse_step (pl_steps plan)
      then RequireHuman ''downgrade or rollback requires a human-signed envelope''
      else if ds_has_migration signals
      then RequireHuman ''has_migration requires a human-signed envelope''
      else if ds_changes_identity_config signals
      then RequireHuman ''changes_identity_config requires a human-signed envelope''
      else if ds_reverses_migration signals
      then RequireHuman ''downgrade across a migration boundary requires a human-signed envelope''
      else case find (plan_mentions_product plan) (ap_require_human policy) of
        Some product \<Rightarrow>
          RequireHuman (''product '' @ product @ '' requires a human-signed envelope'')
      | None \<Rightarrow> Decision_Auto ''auto'')"

section \<open>Validation\<close>

datatype policy_error =
    Policy_Version
  | Policy_Ttl
  | Policy_No_Signer
  | Policy_Path
  | Policy_Credential_Path
  | Policy_Identifier ontology_error
  | Policy_Preflight_Age
  | Policy_Quorum_Zero
  | Policy_Criticality string
  | Policy_Quorum_Duplicated QuorumPurpose

definition validate_policy_file_path :: "string \<Rightarrow> policy_error + unit" where
  "validate_policy_file_path raw =
     bind_r (ensure (\<not> (raw = [] \<or> char_of (0 :: nat) \<in> set raw \<or> char_of (10 :: nat) \<in> set raw)) Policy_Path)
       (\<lambda>_. ensure (\<not> list_ex (\<lambda>needle. contains_str needle (to_ascii_lowercase raw))
              [''-----begin '', ''bearer '', ''token='', ''password='', ''secret=''])
          Policy_Credential_Path)"

definition parse_policy_criticality :: "string option \<Rightarrow> policy_error + unit" where
  "parse_policy_criticality value = (case value of
     None \<Rightarrow> Inr ()
   | Some text \<Rightarrow> ensure (criticality_parse text \<noteq> None) (Policy_Criticality text))"

definition validate_quorum_rule ::
  "(QuorumPurpose \<times> string option) list \<Rightarrow> QuorumRule
     \<Rightarrow> policy_error + (QuorumPurpose \<times> string option) list" where
  "validate_quorum_rule seen rule =
     bind_r (ensure (qr_n rule \<noteq> 0) Policy_Quorum_Zero) (\<lambda>_.
     bind_r (parse_policy_criticality (qr_min_criticality rule)) (\<lambda>_.
     bind_r (ensure ((qr_purpose rule, qr_min_criticality rule) \<notin> set seen)
       (Policy_Quorum_Duplicated (qr_purpose rule))) (\<lambda>_.
     bind_r (map_err Policy_Identifier (try_all (validate_identifier ''quorum group'') (qr_groups rule)))
       (\<lambda>_. Inr ((qr_purpose rule, qr_min_criticality rule) # seen)))))"

definition validate_policy :: "ApprovalPolicy \<Rightarrow> policy_error + unit" where
  "validate_policy policy =
     bind_r (ensure (ap_version policy = 1) Policy_Version) (\<lambda>_.
     bind_r (ensure (0 < ap_ttl_ms policy) Policy_Ttl) (\<lambda>_.
     bind_r (if ap_mode policy = Auto
             then bind_r (ok_or Policy_No_Signer (ap_auto_signer_key policy)) validate_policy_file_path
             else Inr ()) (\<lambda>_.
     bind_r (map_err Policy_Identifier
         (try_all (validate_identifier ''require_human product'') (ap_require_human policy))) (\<lambda>_.
     bind_r (ensure (case ap_require_preflight policy of None \<Rightarrow> True | Some age \<Rightarrow> 0 < age)
         Policy_Preflight_Age) (\<lambda>_.
     bind_r (try_fold validate_quorum_rule [] (ap_quorum policy)) (\<lambda>_.
       parse_policy_criticality (ap_continue_after_failure_max_criticality policy)))))))"

section \<open>Sample objects\<close>

definition demo_release :: "string \<Rightarrow> string \<Rightarrow> Object" where
  "demo_release product version = \<lparr>ob_id = release_id product version, ob_kind = ''tenkai.release'',
     ob_name = product, ob_namespace = ''tenkai'', ob_external_id = [],
     ob_properties = [''product'' \<mapsto> product, ''version'' \<mapsto> version],
     ob_created = 0, ob_updated = 0\<rparr>"

definition upgrade_step :: "string \<Rightarrow> string \<Rightarrow> string \<Rightarrow> Step" where
  "upgrade_step product from to = \<lparr>st_id = ''p:step:0'', st_order = 0, st_product = product,
     st_instance = [], st_action = Upgrade, st_from = Some from, st_to = to,
     st_release_id = release_id product to, st_release_digest = ''d'', st_artifact_digest = ''a'',
     st_workdir = ''w'', st_restore = None, st_host = None\<rparr>"

definition demo_plan :: "Step list \<Rightarrow> Plan" where
  "demo_plan steps = \<lparr>pl_format_version = 1, pl_id = ''p'', pl_content_id = ''c'',
     pl_environment = ''prod'', pl_created_at = 1, pl_inputs = [], pl_steps = steps,
     pl_state = Computed, pl_gates_skipped = None, pl_status_detail = [],
     pl_maintenance_blocked = False, pl_prior_warnings = [], pl_recalled_recovery_reason = None,
     pl_credential_runway = None\<rparr>"

definition auto_policy :: ApprovalPolicy where
  "auto_policy = \<lparr>ap_version = 1, ap_mode = Auto, ap_ttl_ms = 1000,
     ap_auto_signer_key = Some ''/etc/key'', ap_require_human = [], ap_require_preflight = None,
     ap_quorum = [], ap_continue_after_failure_max_criticality = None\<rparr>"

section \<open>Signals only accumulate\<close>

definition signals_le :: "DeliverySignals \<Rightarrow> DeliverySignals \<Rightarrow> bool" where
  "signals_le a b \<longleftrightarrow>
     (ds_has_migration a \<longrightarrow> ds_has_migration b)
     \<and> (ds_changes_identity_config a \<longrightarrow> ds_changes_identity_config b)
     \<and> (ds_reverses_migration a \<longrightarrow> ds_reverses_migration b)"

lemma signals_le_refl [simp]: "signals_le a a"
  by (simp add: signals_le_def)

lemma signals_le_trans: "signals_le a b \<Longrightarrow> signals_le b c \<Longrightarrow> signals_le a c"
  by (simp add: signals_le_def)

lemma signals_le_merge [simp]: "signals_le a (signals_merge a b)" "signals_le b (signals_merge a b)"
  by (simp_all add: signals_le_def signals_merge_def)

lemma merge_found_le: "signals_le a (merge_found a read found)"
  by (simp add: merge_found_def split: option.split)

lemma merge_crossed_le: "signals_le a (merge_crossed sv p rv lo hi r a)"
  by (simp add: merge_crossed_def)

lemma fold_merge_crossed_le: "signals_le a (fold (merge_crossed sv p rv lo hi) rs a)"
proof (induction rs arbitrary: a)
  case (Cons r rs)
  then show ?case using signals_le_trans [OF merge_crossed_le Cons.IH] by simp
qed simp

lemma fold_merge_crossed_covers:
  assumes "r \<in> set rs" and "crossed_release sv p lo hi r"
  shows "signals_le ((if rv then signals_departed else signals_target) (ob_properties r))
    (fold (merge_crossed sv p rv lo hi) rs a)"
  using assms(1)
proof (induction rs arbitrary: a)
  case (Cons x rs)
  show ?case
  proof (cases "x = r")
    case True
    have "signals_le ((if rv then signals_departed else signals_target) (ob_properties r))
        (merge_crossed sv p rv lo hi r a)"
      using assms(2) by (simp add: merge_crossed_def)
    from signals_le_trans [OF this fold_merge_crossed_le] True show ?thesis
      by (simp split del: if_split)
  next
    case False
    then show ?thesis using Cons by simp
  qed
qed simp

definition step_low :: "Step \<Rightarrow> 'v \<Rightarrow> 'v \<Rightarrow> 'v" where
  "step_low step from to = (if reverse_step step then to else from)"

definition step_high :: "Step \<Rightarrow> 'v \<Rightarrow> 'v \<Rightarrow> 'v" where
  "step_high step from to = (if reverse_step step then from else to)"

definition target_covered ::
  "(string \<Rightarrow> 'e + Object option) \<Rightarrow> Step \<Rightarrow> DeliverySignals \<Rightarrow> bool" where
  "target_covered get step signals \<longleftrightarrow>
     (\<forall>r. get (st_release_id step) = Inr (Some r) \<longrightarrow>
        signals_le (signals_target (ob_properties r)) signals)"

definition range_covered ::
  "('v, 'z) semver_scheme \<Rightarrow> ('e + Object list) \<Rightarrow> Step \<Rightarrow> DeliverySignals \<Rightarrow> bool" where
  "range_covered sv list_releases step signals \<longleftrightarrow>
     (\<forall>f from to rs r. st_from step = Some f \<longrightarrow> sv_parse sv f = Some from
        \<longrightarrow> sv_parse sv (st_to step) = Some to \<longrightarrow> list_releases = Inr rs \<longrightarrow> r \<in> set rs
        \<longrightarrow> crossed_release sv (st_product step) (step_low step from to) (step_high step from to) r
        \<longrightarrow> signals_le ((if reverse_step step then signals_departed else signals_target)
              (ob_properties r)) signals)"

definition listed_ok :: "('e + Object list) \<Rightarrow> DeliverySignals \<times> Object list option \<Rightarrow> bool" where
  "listed_ok list_releases st \<longleftrightarrow> (case snd st of None \<Rightarrow> True | Some rs \<Rightarrow> list_releases = Inr rs)"

lemma target_covered_mono: "target_covered get x a \<Longrightarrow> signals_le a b \<Longrightarrow> target_covered get x b"
  unfolding target_covered_def by (blast intro: signals_le_trans)

lemma range_covered_mono: "range_covered sv rs x a \<Longrightarrow> signals_le a b \<Longrightarrow> range_covered sv rs x b"
  unfolding range_covered_def by (blast intro: signals_le_trans)

lemma merge_found_covers:
  "get (st_release_id step) = Inr found \<Longrightarrow>
     target_covered get step (merge_found a signals_target found)"
  by (simp add: target_covered_def merge_found_def)

lemma step_signals_sound:
  assumes ok: "listed_ok list_releases st"
    and run: "step_signals sv get list_releases st step = Inr st'" and act: "st_action step \<noteq> Restart"
  shows "listed_ok list_releases st' \<and> signals_le (fst st) (fst st')
    \<and> target_covered get step (fst st') \<and> range_covered sv list_releases step (fst st')"
proof -
  obtain signals releases where st: "st = (signals, releases)" by force
  from run act obtain found where found: "get (st_release_id step) = Inr found"
    by (auto simp: step_signals_def st result_simps split: option.splits prod.splits)
  define base where "base = merge_found signals signals_target found"
  have base: "signals_le signals base" "target_covered get step base"
    using merge_found_le merge_found_covers [of get step found, OF found] unfolding base_def by blast+
  show ?thesis
  proof (cases "\<exists>f from to. st_from step = Some f \<and> sv_parse sv f = Some from
      \<and> sv_parse sv (st_to step) = Some to")
    case True
    then obtain f src dst where v: "st_from step = Some f" "sv_parse sv f = Some src"
      "sv_parse sv (st_to step) = Some dst" by blast
    from run act found v obtain rs where rs: "list_releases = Inr rs" and st':
      "st' = (fold (merge_crossed sv (st_product step) (reverse_step step) (step_low step src dst)
          (step_high step src dst)) rs base, Some rs)"
      using ok
      by (auto simp: step_signals_def st Let_def result_simps listed_ok_def step_low_def step_high_def
          base_def split: option.splits split del: if_split)
    have le: "signals_le base (fst st')" unfolding st' by (simp add: fold_merge_crossed_le)
    have "range_covered sv list_releases step (fst st')"
      unfolding range_covered_def st'
      using v rs fold_merge_crossed_covers by (auto split del: if_split)
    then show ?thesis using rs le base st' st
      by (auto simp: listed_ok_def intro: signals_le_trans target_covered_mono)
  next
    case False
    then have range: "range_covered sv list_releases step s" for s
      by (auto simp: range_covered_def)
    from run act found False have "snd st' = releases" and "signals_le base (fst st')"
      by (auto simp: step_signals_def st Let_def result_simps base_def merge_found_le
          split: option.splits if_splits)
    then show ?thesis using range base st ok
      by (auto simp: listed_ok_def intro: signals_le_trans target_covered_mono)
  qed
qed

lemma delivery_signals_cover:
  assumes "delivery_signals_for_plan sv get list_releases plan = Inr signals"
    and "step \<in> set (pl_steps plan)" and "st_action step \<noteq> Restart"
  shows "target_covered get step signals \<and> range_covered sv list_releases step signals"
proof -
  from assms(1) obtain st where st: "try_fold (step_signals sv get list_releases) (no_signals, None)
      (pl_steps plan) = Inr st" "signals = fst st"
    by (auto simp: delivery_signals_for_plan_def result_simps)
  let ?Q = "\<lambda>x s. st_action x \<noteq> Restart \<longrightarrow>
    target_covered get x (fst s) \<and> range_covered sv list_releases x (fst s)"
  have "\<forall>x\<in>set (pl_steps plan). ?Q x st"
  proof (rule try_fold_accumulates [where I = "listed_ok list_releases" and Q = ?Q
        and le = "\<lambda>s s'. signals_le (fst s) (fst s')", OF st(1)])
    show "listed_ok list_releases (no_signals, None)" by (simp add: listed_ok_def)
    fix s x s'
    assume "listed_ok list_releases s" and run: "step_signals sv get list_releases s x = Inr s'"
    then show "listed_ok list_releases s' \<and> signals_le (fst s) (fst s') \<and> ?Q x s'"
      using step_signals_sound [of list_releases s sv get x s']
      by (cases "st_action x = Restart") (auto simp: step_signals_def split: prod.splits)
  qed (blast intro: target_covered_mono range_covered_mono)
  with assms(2,3) st(2) show ?thesis by blast
qed

lemma policy_evaluate_auto:
  assumes "policy_evaluate policy plan skip_gates signals criticality = Decision_Auto e"
  shows "ap_mode policy = Auto \<and> \<not> skip_gates
    \<and> qr_n (quorum_rule policy (quorum_purpose plan skip_gates) criticality) \<le> 1
    \<and> (\<forall>s\<in>set (pl_steps plan). st_host s = None \<and> \<not> reverse_step s)
    \<and> \<not> ds_has_migration signals \<and> \<not> ds_changes_identity_config signals
    \<and> \<not> ds_reverses_migration signals
    \<and> (\<forall>product\<in>set (ap_require_human policy). \<not> plan_mentions_product plan product)"
  using assms
  by (auto simp: policy_evaluate_def list_ex_iff find_None_iff split: if_splits option.splits)

section \<open>Quorum rules\<close>

definition rule_key :: "QuorumRule \<Rightarrow> QuorumPurpose \<times> string option" where
  "rule_key rule = (qr_purpose rule, qr_min_criticality rule)"

definition rule_valid :: "QuorumRule \<Rightarrow> bool" where
  "rule_valid rule \<longleftrightarrow> qr_n rule \<noteq> 0
     \<and> (case qr_min_criticality rule of None \<Rightarrow> True | Some text \<Rightarrow> criticality_parse text \<noteq> None)"

lemma validate_quorum_rule_ok:
  assumes "validate_quorum_rule seen rule = Inr seen'"
  shows "rule_valid rule \<and> rule_key rule \<notin> set seen \<and> seen' = rule_key rule # seen"
  using assms
  by (auto simp: validate_quorum_rule_def result_simps rule_valid_def rule_key_def
      parse_policy_criticality_def split: option.splits)

lemma validate_quorum_rules_ok:
  assumes "try_fold validate_quorum_rule seen rules = Inr seen'"
  shows "distinct (map rule_key rules) \<and> set (map rule_key rules) \<inter> set seen = {}
    \<and> list_all rule_valid rules"
  using assms
proof (induction rules arbitrary: seen)
  case (Cons rule rules)
  then obtain mid where mid: "validate_quorum_rule seen rule = Inr mid"
    "try_fold validate_quorum_rule mid rules = Inr seen'"
    by (auto simp: result_simps)
  from validate_quorum_rule_ok [OF mid(1)] Cons.IH [OF mid(2)] show ?case by auto
qed simp

lemma validate_policy_quorum:
  assumes "validate_policy policy = Inr ()"
  shows "distinct (map rule_key (ap_quorum policy)) \<and> list_all rule_valid (ap_quorum policy)"
proof -
  from assms obtain seen where "try_fold validate_quorum_rule [] (ap_quorum policy) = Inr seen"
    by (auto simp: validate_policy_def result_simps)
  from validate_quorum_rules_ok [OF this] show ?thesis by simp
qed

lemma criticality_parse_inject:
  "criticality_parse a = Some l \<Longrightarrow> criticality_parse b = Some l \<Longrightarrow> a = b"
  by (auto simp: criticality_parse_def split: if_splits)

lemma rule_rank_key:
  assumes "rule_valid a" and "rule_valid b" and "qr_purpose a = qr_purpose b"
    and "fst (rule_rank a) = fst (rule_rank b)"
  shows "rule_key a = rule_key b"
  using assms
  by (auto simp: rule_rank_def rule_key_def rule_valid_def split: option.splits
      dest: criticality_parse_inject)

text \<open>C24. A validated policy selects the most specific quorum rule: among the rules for the purpose
  whose minimum criticality the target meets, the chosen one has strictly the highest minimum, it
  asks for at least one approval, and the default of one approval is used only when no rule
  applies.\<close>

theorem quorum_rule_most_specific:
  assumes valid: "validate_policy policy = Inr ()"
  shows "(case filter (rule_applies purpose criticality) (ap_quorum policy) of
      [] \<Rightarrow> quorum_rule policy purpose criticality = default_quorum purpose
    | _ \<Rightarrow> quorum_rule policy purpose criticality \<in> set (ap_quorum policy)
        \<and> rule_applies purpose criticality (quorum_rule policy purpose criticality)
        \<and> 1 \<le> qr_n (quorum_rule policy purpose criticality)
        \<and> list_all (\<lambda>rule. rule = quorum_rule policy purpose criticality
            \<or> fst (rule_rank rule) < fst (rule_rank (quorum_rule policy purpose criticality)))
          (filter (rule_applies purpose criticality) (ap_quorum policy)))"
proof -
  let ?m = "filter (rule_applies purpose criticality) (ap_quorum policy)"
  let ?q = "quorum_rule policy purpose criticality"
  note ok = validate_policy_quorum [OF valid]
  have "?q \<in> set ?m \<and> (\<forall>rule\<in>set ?m. rule = ?q \<or> fst (rule_rank rule) < fst (rule_rank ?q))"
    if ne: "?m \<noteq> []"
  proof -
    have sne: "sort_key rule_rank ?m \<noteq> []" using ne by (metis set_sort set_empty)
    then have q: "?q = last (sort_key rule_rank ?m)" by (simp add: quorum_rule_def)
    have mem: "?q \<in> set ?m" unfolding q by (rule sort_key_last_mem [OF sne])
    moreover have "rule = ?q \<or> fst (rule_rank rule) < fst (rule_rank ?q)" if r: "rule \<in> set ?m" for rule
    proof -
      have "rule_rank rule \<le> rule_rank ?q" unfolding q by (rule sort_key_last_max [OF r])
      then have le: "fst (rule_rank rule) \<le> fst (rule_rank ?q)"
        by (cases "rule_rank rule"; cases "rule_rank ?q") auto
      show ?thesis
      proof (cases "fst (rule_rank rule) = fst (rule_rank ?q)")
        case True
        have "rule_valid rule" "rule_valid ?q" using ok r mem by (auto simp: list_all_iff)
        then have "rule_key rule = rule_key ?q"
          using True r mem by (intro rule_rank_key) (auto simp: rule_applies_def)
        then show ?thesis using ok r mem by (auto simp: distinct_map dest: inj_onD)
      next
        case False
        then show ?thesis using le le_neq_trans by blast
      qed
    qed
    ultimately show ?thesis by blast
  qed
  note best = this
  show ?thesis
  proof (cases ?m)
    case Nil
    then show ?thesis by (simp add: quorum_rule_def)
  next
    case (Cons a as)
    then have "?m \<noteq> []" by simp
    note best = best [OF this]
    have "?q \<in> set (ap_quorum policy)" and "rule_applies purpose criticality ?q" using best by simp_all
    moreover have "1 \<le> qr_n ?q"
      using ok \<open>?q \<in> set (ap_quorum policy)\<close> by (simp add: list_all_iff rule_valid_def Suc_le_eq)
    moreover have "list_all (\<lambda>rule. rule = ?q \<or> fst (rule_rank rule) < fst (rule_rank ?q)) ?m"
      using best unfolding list_all_iff by blast
    ultimately show ?thesis unfolding Cons list.case by blast
  qed
qed

theorem quorum_rule_most_specific_witness:
  "quorum_rule \<lparr>ap_version = 1, ap_mode = Manual, ap_ttl_ms = 1000, ap_auto_signer_key = None,
      ap_require_human = [], ap_require_preflight = None,
      ap_quorum = [(default_quorum ExecutePlan)\<lparr>qr_n := 3, qr_min_criticality := Some ''high''\<rparr>,
        (default_quorum ExecutePlan)\<lparr>qr_n := 2\<rparr>],
      ap_continue_after_failure_max_criticality = None\<rparr> ExecutePlan (Some Critical)
    = (default_quorum ExecutePlan)\<lparr>qr_n := 3, qr_min_criticality := Some ''high''\<rparr>"
proof -
  let ?h = "(default_quorum ExecutePlan)\<lparr>qr_n := 3, qr_min_criticality := Some ''high''\<rparr>"
  let ?l = "(default_quorum ExecutePlan)\<lparr>qr_n := 2\<rparr>"
  let ?p = "\<lparr>ap_version = 1, ap_mode = Manual, ap_ttl_ms = 1000, ap_auto_signer_key = None,
      ap_require_human = [], ap_require_preflight = None, ap_quorum = [?h, ?l],
      ap_continue_after_failure_max_criticality = None\<rparr>"
  have v: "validate_policy ?p = Inr ()" by code_simp
  have m: "filter (rule_applies ExecutePlan (Some Critical)) (ap_quorum ?p) = [?h, ?l]" by code_simp
  have lt: "fst (rule_rank ?l) < fst (rule_rank ?h)" by code_simp
  have ne: "?h \<noteq> ?l" by code_simp
  let ?q = "quorum_rule ?p ExecutePlan (Some Critical)"
  have "?q \<in> {?h, ?l} \<and> (?h = ?q \<or> fst (rule_rank ?h) < fst (rule_rank ?q))"
    using quorum_rule_most_specific [OF v, of ExecutePlan "Some Critical"] unfolding m by simp
  with lt show ?thesis by (metis insertE order_less_asym singletonD)
qed



end
