(* ===== verification/Cycle_Check.thy ===== *)
theory Cycle_Check
  imports BTree_Map
begin

text \<open>
  The depth-first search that refuses requirement cycles.  The source has it twice with the same
  body, \<open>visit_plan_contract_edge\<close> in \<open>src/plan/convergence.rs\<close> for the edges between releases and
  \<open>visit_requirement_edge\<close> in \<open>src/software_compatibility.rs\<close> for the components of one release.

  \<open>visiting\<close> and \<open>visiting_set\<close> are passed by value: each push is undone by the pop, and each insert by
  the remove, before the next edge is looked at.  \<open>done\<close> is threaded.  The search terminates on
  every graph; the loop over the outgoing edges is \<open>visit_edges\<close>.
\<close>

type_synonym out_edges = "(string, (string \<times> string) list) btree_map"

datatype cycle_error = Requirement_Cycle "string list" "string list"

definition succ_edges :: "out_edges \<Rightarrow> string \<Rightarrow> (string \<times> string) list" where
  "succ_edges g n = (case map_of g n of None \<Rightarrow> [] | Some next \<Rightarrow> next)"

definition open_nodes :: "out_edges \<Rightarrow> (string, nat) btree_map \<Rightarrow> string set" where
  "open_nodes g vs = dom (map_of g) - dom (map_of vs)"

lemma open_nodes_decrease:
  assumes "map_of vs n = None" and "map_of g n = Some next"
  shows "card (open_nodes g (bt_insert n i vs)) < card (open_nodes g vs)"
proof (rule psubset_card_mono)
  show "finite (open_nodes g vs)" by (simp add: open_nodes_def finite_dom_map_of)
  show "open_nodes g (bt_insert n i vs) \<subset> open_nodes g vs"
    using assms by (auto simp: open_nodes_def dom_def split: if_splits)
qed

function visit_edge ::
    "string \<Rightarrow> out_edges \<Rightarrow> (string \<times> string) list \<Rightarrow> (string, nat) btree_map \<Rightarrow> string btree_set
      \<Rightarrow> cycle_error + string btree_set"
  and visit_edges ::
    "(string \<times> string) list \<Rightarrow> string \<Rightarrow> out_edges \<Rightarrow> (string \<times> string) list
      \<Rightarrow> (string, nat) btree_map \<Rightarrow> string btree_set \<Rightarrow> cycle_error + string btree_set" where
  "visit_edge node outgoing visiting visiting_set finished =
     (if node \<in> set finished then Inr finished
      else case map_of visiting_set node of
        Some index \<Rightarrow>
          Inl (Requirement_Cycle (map fst (drop index visiting) @ [node])
                (map snd (drop index visiting)))
      | None \<Rightarrow>
          (case map_of outgoing node of
             None \<Rightarrow> Inr (bs_insert node finished)
           | Some next \<Rightarrow>
               bind_r (visit_edges next node outgoing visiting
                        (bt_insert node (length visiting) visiting_set) finished)
                 (\<lambda>fin'. Inr (bs_insert node fin'))))"
| "visit_edges [] node outgoing visiting visiting_set finished = Inr finished"
| "visit_edges ((dependent, contract) # rest) node outgoing visiting visiting_set finished =
     bind_r (visit_edge dependent outgoing (visiting @ [(node, contract)]) visiting_set finished)
       (\<lambda>fin'. visit_edges rest node outgoing visiting visiting_set fin')"
  by pat_completeness auto

termination
proof (relation "inv_image (less_than <*lex*> less_than)
    (\<lambda>x. case x of
       Inl (n, g, v, vs, fin) \<Rightarrow> (card (open_nodes g vs), 0)
     | Inr (es, n, g, v, vs, fin) \<Rightarrow> (card (open_nodes g vs), Suc (length es)))", goal_cases)
  case 1
  then show ?case by auto
next
  case (2 n g v vs fin nx)
  then show ?case using open_nodes_decrease by simp
next
  case (3 d c rest n g v vs fin)
  then show ?case by simp
next
  case (4 d c rest n g v vs fin fin')
  then show ?case by simp
qed

declare visit_edge.simps [simp del]

definition check_nodes :: "out_edges \<Rightarrow> string list \<Rightarrow> cycle_error + string btree_set" where
  "check_nodes outgoing nodes =
     try_fold (\<lambda>finished node. visit_edge node outgoing [] [] finished) [] nodes"

definition push_edge :: "string \<Rightarrow> string \<times> string \<Rightarrow> out_edges \<Rightarrow> out_edges" where
  "push_edge n e g = bt_insert n (succ_edges g n @ [e]) g"

section \<open>The graph and the walks in it\<close>

definition edge_rel :: "out_edges \<Rightarrow> (string \<times> string) set" where
  "edge_rel g = {(a, b). \<exists>c. (b, c) \<in> set (succ_edges g a)}"

fun labelled_walk :: "out_edges \<Rightarrow> (string \<times> string) list \<Rightarrow> string \<Rightarrow> bool" where
  "labelled_walk g [] n = True"
| "labelled_walk g ((a, c) # v) n =
     ((case v of [] \<Rightarrow> n | (b, _) # _ \<Rightarrow> b, c) \<in> set (succ_edges g a) \<and> labelled_walk g v n)"

definition real_cycle :: "out_edges \<Rightarrow> cycle_error \<Rightarrow> bool" where
  "real_cycle g err = (case err of Requirement_Cycle names contracts \<Rightarrow>
     names \<noteq> [] \<and> contracts \<noteq> [] \<and> length names = Suc (length contracts)
     \<and> hd names = last names \<and> labelled_walk g (zip names contracts) (last names))"

definition stack_ok :: "(string \<times> string) list \<Rightarrow> (string, nat) btree_map \<Rightarrow> bool" where
  "stack_ok v vs \<longleftrightarrow>
     (\<forall>n i. map_of vs n = Some i \<longrightarrow> i < length v \<and> fst (v ! i) = n)"

lemma labelled_walk_drop: "labelled_walk g v n \<Longrightarrow> labelled_walk g (drop i v) n"
proof (induction g v n arbitrary: i rule: labelled_walk.induct)
  case (2 g a c v n)
  then show ?case by (cases i) auto
qed simp

lemma labelled_walk_snoc:
  "labelled_walk g v n \<Longrightarrow> (d, c) \<in> set (succ_edges g n) \<Longrightarrow> labelled_walk g (v @ [(n, c)]) d"
proof (induction g v n rule: labelled_walk.induct)
  case (2 g a b v n)
  then show ?case by (cases v) auto
qed simp

lemma stack_ok_snoc: "stack_ok v vs \<Longrightarrow> stack_ok (v @ [e]) vs"
  unfolding stack_ok_def by (fastforce simp: nth_append)

lemma stack_ok_visit:
  "stack_ok v vs \<Longrightarrow> stack_ok (v @ [(n, c)]) (bt_insert n (length v) vs)"
  unfolding stack_ok_def by (auto simp: nth_append less_Suc_eq)

lemma real_cycleI:
  assumes "stack_ok v vs" and "map_of vs n = Some i" and "labelled_walk g v n"
  shows "real_cycle g (Requirement_Cycle (map fst (drop i v) @ [n]) (map snd (drop i v)))"
proof -
  have i: "i < length v" "fst (v ! i) = n" using assms by (auto simp: stack_ok_def)
  then have "drop i v \<noteq> []" and "hd (map fst (drop i v)) = n"
    by (auto simp: hd_map hd_drop_conv_nth)
  moreover have "zip (map fst (drop i v) @ [n]) (map snd (drop i v)) = drop i v"
    by (simp add: zip_append1 zip_map_fst_snd)
  ultimately show ?thesis
    using labelled_walk_drop [OF assms(3), of i] by (simp add: real_cycle_def)
qed

section \<open>An error is a cycle\<close>

lemma visit_error_is_cycle:
  "visit_edge n g v vs fin = Inl e \<Longrightarrow> stack_ok v vs \<Longrightarrow> labelled_walk g v n \<Longrightarrow> real_cycle g e"
  "visit_edges es n g v vs fin = Inl e \<Longrightarrow> (\<forall>c. stack_ok (v @ [(n, c)]) vs) \<Longrightarrow> labelled_walk g v n
     \<Longrightarrow> set es \<subseteq> set (succ_edges g n) \<Longrightarrow> real_cycle g e"
proof (induction n g v vs fin and es n g v vs fin rule: visit_edge_visit_edges.induct)
  case (1 n g v vs fin)
  show ?case
  proof (cases "map_of vs n")
    case None
    with 1 show ?thesis
      by (auto simp: visit_edge.simps [of n] result_simps stack_ok_visit succ_edges_def
          split: if_splits option.splits)
  next
    case (Some i)
    with 1 show ?thesis
      by (auto simp: visit_edge.simps [of n] intro: real_cycleI split: if_splits)
  qed
next
  case (3 d c rest n g v vs fin)
  then show ?case by (auto simp: result_simps labelled_walk_snoc)
qed simp

section \<open>Acceptance is acyclicity\<close>

definition settled :: "out_edges \<Rightarrow> string set \<Rightarrow> bool" where
  "settled g F \<longleftrightarrow> edge_rel g `` F \<subseteq> F \<and> acyclic (edge_rel g \<inter> F \<times> F)"

lemma settled_empty [simp]: "settled g {}"
  by (simp add: settled_def acyclic_def)

lemma settled_insert:
  assumes F: "settled g F" and n: "n \<notin> F" and succs: "edge_rel g `` {n} \<subseteq> F"
  shows "settled g (insert n F)"
proof -
  let ?E = "edge_rel g"
  let ?R = "?E \<inter> insert n F \<times> insert n F"
  have closed: "?E `` F \<subseteq> F" and ac: "acyclic (?E \<inter> F \<times> F)"
    using F by (auto simp: settled_def)
  have stay: "(a, b) \<in> ?R\<^sup>+ \<Longrightarrow> b \<in> F \<and> (a \<in> F \<longrightarrow> (a, b) \<in> (?E \<inter> F \<times> F)\<^sup>+)" for a b
  proof (induction rule: trancl_induct)
    case (base b)
    then show ?case using closed succs by auto
  next
    case (step b c)
    then have "(b, c) \<in> ?E \<inter> F \<times> F" using closed by auto
    with step.IH show ?case by (auto intro: trancl_into_trancl)
  qed
  have "acyclic ?R"
    unfolding acyclic_def using stay ac n by (meson acyclic_def)
  then show ?thesis using closed succs by (auto simp: settled_def)
qed

lemma edge_rel_succs: "edge_rel g `` {n} = fst ` set (succ_edges g n)"
  by (force simp: edge_rel_def)

lemma visit_settles:
  "visit_edge n g v vs fin = Inr fin' \<Longrightarrow> settled g (set fin) \<Longrightarrow>
     settled g (set fin') \<and> set fin \<subseteq> set fin' \<and> n \<in> set fin'
     \<and> set fin' \<inter> dom (map_of vs) \<subseteq> set fin"
  "visit_edges es n g v vs fin = Inr fin' \<Longrightarrow> settled g (set fin) \<Longrightarrow>
     settled g (set fin') \<and> set fin \<subseteq> set fin' \<and> fst ` set es \<subseteq> set fin'
     \<and> set fin' \<inter> dom (map_of vs) \<subseteq> set fin"
proof (induction n g v vs fin and es n g v vs fin arbitrary: fin' and fin'
    rule: visit_edge_visit_edges.induct)
  case (1 n g v vs fin)
  show ?case
  proof (cases "n \<in> set fin \<or> map_of vs n \<noteq> None")
    case True
    with 1 show ?thesis by (auto simp: visit_edge.simps [of n] split: if_splits)
  next
    case False
    show ?thesis
    proof (cases "map_of g n")
      case None
      then have "edge_rel g `` {n} = {}" by (simp add: edge_rel_succs succ_edges_def)
      then have "settled g (insert n (set fin))"
        using settled_insert 1(3) False by auto
      with 1 False None show ?thesis by (auto simp: visit_edge.simps [of n])
    next
      case (Some nx)
      obtain f where f: "visit_edges nx n g v (bt_insert n (length v) vs) fin = Inr f"
        and fin': "fin' = bs_insert n f"
        using 1 False Some by (auto simp: visit_edge.simps [of n] result_simps)
      have f': "settled g (set f)" "set fin \<subseteq> set f" "fst ` set nx \<subseteq> set f"
        "set f \<inter> dom (map_of (bt_insert n (length v) vs)) \<subseteq> set fin"
        using 1(1) [OF _ _ Some f] False 1(3) by blast+
      then have n: "n \<notin> set f" and vs: "set f \<inter> dom (map_of vs) \<subseteq> set fin"
        using False by (auto simp: dom_def)
      have "edge_rel g `` {n} \<subseteq> set f"
        using f'(3) by (simp add: edge_rel_succs succ_edges_def Some)
      with f'(1) n have "settled g (insert n (set f))" by (rule settled_insert)
      then show ?thesis using f'(2) vs False by (auto simp: fin')
    qed
  qed
next
  case (3 d c rest n g v vs fin)
  then obtain f where f: "visit_edge d g (v @ [(n, c)]) vs fin = Inr f"
    and r: "visit_edges rest n g v vs f = Inr fin'"
    by (auto simp: result_simps)
  have a: "settled g (set f)" "set fin \<subseteq> set f" "d \<in> set f" "set f \<inter> dom (map_of vs) \<subseteq> set fin"
    using 3(1) [OF f 3(4)] by blast+
  have b: "settled g (set fin')" "set f \<subseteq> set fin'" "fst ` set rest \<subseteq> set fin'"
    "set fin' \<inter> dom (map_of vs) \<subseteq> set f"
    using 3(2) [OF r a(1)] by blast+
  have "set fin' \<inter> dom (map_of vs) \<subseteq> set fin" using a(4) b(4) by blast
  with a b show ?case by auto
qed simp

lemma check_nodes_settles:
  assumes "check_nodes g nodes = Inr fin"
  shows "settled g (set fin) \<and> set nodes \<subseteq> set fin"
proof -
  have "try_fold (\<lambda>finished node. visit_edge node g [] [] finished) f ns = Inr fin \<Longrightarrow>
    settled g (set f) \<Longrightarrow> settled g (set fin) \<and> set f \<union> set ns \<subseteq> set fin" for f ns
  proof (induction ns arbitrary: f)
    case (Cons n ns)
    then obtain h where h: "visit_edge n g [] [] f = Inr h"
      "try_fold (\<lambda>finished node. visit_edge node g [] [] finished) h ns = Inr fin"
      by (auto simp: result_simps)
    with Cons.IH [OF h(2)] visit_settles(1) [OF h(1)] Cons.prems(2) show ?case by auto
  qed simp
  from this [of "[]" nodes] assms show ?thesis by (simp add: check_nodes_def)
qed

lemma check_nodes_error:
  assumes "check_nodes g nodes = Inl e"
  shows "real_cycle g e"
proof -
  have "try_fold (\<lambda>finished node. visit_edge node g [] [] finished) f ns = Inl e \<Longrightarrow>
    real_cycle g e" for f ns
  proof (induction ns arbitrary: f)
    case (Cons n ns)
    then show ?case
      using visit_error_is_cycle(1) [of n g "[]" "[]" f e]
      by (auto simp: result_simps stack_ok_def)
  qed simp
  with assms show ?thesis by (simp add: check_nodes_def)
qed

lemma labelled_walk_trancl:
  "labelled_walk g ((a, c) # v) n \<Longrightarrow> (a, n) \<in> (edge_rel g)\<^sup>+"
proof (induction v arbitrary: a c)
  case Nil
  then show ?case by (auto simp: edge_rel_def)
next
  case (Cons e v)
  obtain b d where e: "e = (b, d)" by fastforce
  with Cons have "(b, n) \<in> (edge_rel g)\<^sup>+" by auto
  moreover have "(a, b) \<in> edge_rel g" using Cons.prems by (auto simp: e edge_rel_def)
  ultimately show ?case by (rule trancl_into_trancl2 [rotated])
qed

lemma real_cycle_not_acyclic:
  assumes "real_cycle g e" shows "\<not> acyclic (edge_rel g)"
proof -
  obtain names cs where e: "e = Requirement_Cycle names cs" by (cases e)
  with assms obtain a ns c cs' where "names = a # ns" "cs = c # cs'"
    by (auto simp: real_cycle_def neq_Nil_conv)
  with assms e have w: "labelled_walk g ((a, c) # zip ns cs') (last names)" and "a = last names"
    unfolding real_cycle_def by (simp_all del: labelled_walk.simps last.simps) metis
  then show ?thesis using labelled_walk_trancl [OF w] by (auto simp: acyclic_def)
qed

lemma check_nodes_iff_acyclic:
  assumes "Domain (edge_rel g) \<subseteq> set nodes"
  shows "is_ok (check_nodes g nodes) \<longleftrightarrow> acyclic (edge_rel g)"
proof (cases "check_nodes g nodes")
  case (Inl e)
  then show ?thesis using real_cycle_not_acyclic [OF check_nodes_error [OF Inl]] by simp
next
  case (Inr fin)
  then have s: "settled g (set fin)" and sub: "set nodes \<subseteq> set fin"
    using check_nodes_settles by auto
  then have "edge_rel g \<inter> set fin \<times> set fin = edge_rel g"
    using assms by (fastforce simp: settled_def)
  then show ?thesis using s Inr by (simp add: settled_def)
qed

lemma succ_edges_push [simp]:
  "succ_edges (push_edge n e g) m = (if m = n then succ_edges g n @ [e] else succ_edges g m)"
  by (simp add: push_edge_def succ_edges_def)

section \<open>The contract of a cycle refusal\<close>

text \<open>What a caller relies on: the check accepts exactly the acyclic graphs.\<close>

locale cycle_refusal =
  fixes check :: "'g \<Rightarrow> 'e + unit"
    and rel :: "'g \<Rightarrow> ('n \<times> 'n) set"
  assumes accepts_iff: "check g = Inr () \<longleftrightarrow> acyclic (rel g)"
    and finite_rel: "finite (rel g)"
begin

lemma accepted_irrefl: "check g = Inr () \<Longrightarrow> (n, n) \<notin> (rel g)\<^sup>+"
  by (simp add: accepts_iff acyclic_def)

lemma accepted_asym: "check g = Inr () \<Longrightarrow> (a, b) \<in> (rel g)\<^sup>+ \<Longrightarrow> (b, a) \<notin> (rel g)\<^sup>+"
  using accepted_irrefl by (meson trancl_trans)

lemma accepted_wf: "check g = Inr () \<Longrightarrow> wf (rel g)"
  by (simp add: accepts_iff finite_acyclic_wf finite_rel)

lemma accepted_has_minimal:
  assumes "check g = Inr ()" and "n \<in> S"
  shows "\<exists>m\<in>S. \<forall>p. (p, m) \<in> rel g \<longrightarrow> p \<notin> S"
  using accepted_wf [OF assms(1)] assms(2) by (metis wf_eq_minimal)

end

end
