(* ===== verification/Facts.thy ===== *)
theory Facts
  imports Ontology
begin

text \<open>
  Environment facts: the admitted keys and values (\<open>validate_fact_key\<close> and \<open>validate_fact_value\<close> of
  \<open>src/environment.rs\<close>) and \<open>dotted_version\<close> of \<open>src/plan/release_selection.rs\<close>, the comparable form of
  a driver or runtime version.
\<close>

datatype fact_error =
    Unknown_Fact string
  | Fact_Empty string
  | Fact_Control string
  | Fact_Credential string
  | Fact_Not_Integer string
  | Fact_Zero string
  | Fact_Not_Dotted string

definition environment_fact_keys :: "string list" where
  "environment_fact_keys =
     [''architecture'', ''memory_gib'', ''accelerator'', ''free_disk_gib'', ''gpu_vendor'',
      ''gpu_family'', ''gpu_model'', ''gpu_vram_gib'', ''gpu_count'', ''gpu_driver_version'',
      ''gpu_runtime'', ''gpu_runtime_version'', ''host'', ''zone'']"

fun all_some :: "'a option list \<Rightarrow> 'a list option" where
  "all_some [] = Some []"
| "all_some (None # xs) = None"
| "all_some (Some x # xs) = map_option ((#) x) (all_some xs)"

definition drop_trailing_zeros :: "u64 list \<Rightarrow> u64 list" where
  "drop_trailing_zeros parts = rev (dropWhile (\<lambda>p. p = 0) (rev parts))"

definition dotted_version :: "string \<Rightarrow> u64 list option" where
  "dotted_version value =
     map_option drop_trailing_zeros (all_some (map parse_u64 (split_on CHR ''.'' (trim value))))"

definition validate_fact_key :: "string \<Rightarrow> fact_error + unit" where
  "validate_fact_key key = ensure (key \<in> set environment_fact_keys) (Unknown_Fact key)"

definition validate_fact_value :: "string \<Rightarrow> string \<Rightarrow> fact_error + unit" where
  "validate_fact_value key value =
     (let lower = to_ascii_lowercase value in
      if trim value = [] then Inl (Fact_Empty key)
      else if list_ex is_control value then Inl (Fact_Control key)
      else if list_ex (\<lambda>needle. contains_str needle lower)
                [''bearer '', ''password='', ''secret='', ''token='']
      then Inl (Fact_Credential key)
      else if key \<in> set [''memory_gib'', ''free_disk_gib'', ''gpu_vram_gib''] \<and> parse_u64 value = None
      then Inl (Fact_Not_Integer key)
      else if key \<in> set [''memory_gib'', ''free_disk_gib'', ''gpu_vram_gib''] \<and> parse_u64 value = Some 0
      then Inl (Fact_Zero key)
      else if key = ''gpu_count'' \<and> parse_u64 value = None then Inl (Fact_Not_Integer key)
      else if key \<in> set [''gpu_driver_version'', ''gpu_runtime_version''] \<and> dotted_version value = None
      then Inl (Fact_Not_Dotted key)
      else Inr ())"

lemma dotted_version_no_trailing_zero:
  "dotted_version v = Some parts \<Longrightarrow> parts \<noteq> [] \<Longrightarrow> last parts \<noteq> 0"
  unfolding dotted_version_def drop_trailing_zeros_def
  by (auto simp: last_rev dest: hd_dropWhile)

end
