(* ===== verification/Compatibility.thy ===== *)
theory Compatibility
  imports Cycle_Check Semver Facts
begin

text \<open>
  \<open>src/software_compatibility.rs\<close>: signed compatibility profiles, the evidence an environment
  records, the evaluation that decides whether a release may be installed, and the check that a
  plan leaves every remaining dependent satisfied.

  Every \<open>bail!\<close> and every failing parse is a constructor of \<open>compat_error\<close>.  The versions are those of
  the \<open>semver\<close> parameter.  Reports keep the source's order: failures are pushed in the order of the
  loops and sorted at the end by the derived order of \<open>CompatibilityFailure\<close>.
\<close>

section \<open>Data\<close>

datatype ContractRequirement = Minimum string | Detailed string bool

fun req_minimum :: "ContractRequirement \<Rightarrow> string" where
  "req_minimum (Minimum v) = v"
| "req_minimum (Detailed v opt) = v"

fun req_optional :: "ContractRequirement \<Rightarrow> bool" where
  "req_optional (Minimum v) = False"
| "req_optional (Detailed v opt) = opt"

fun req_is_table_form :: "ContractRequirement \<Rightarrow> bool" where
  "req_is_table_form (Minimum v) = False"
| "req_is_table_form (Detailed v opt) = True"

datatype ComponentPin = Revision string | Digest string
datatype MigrationState = Stable | Pending

record ComponentRequirement =
  cq_pin :: ComponentPin
  cq_requires :: "(string, ContractRequirement) btree_map"
  cq_provides :: "(string, string) btree_map"

record SchemaRequirement =
  sc_minimum :: u64
  sc_maximum :: u64
  sc_migration :: MigrationState

record CompatibilityProfile =
  cp_version :: u32
  cp_components :: "(string, ComponentRequirement) btree_map"
  cp_capabilities :: "string list"
  cp_facts :: "(string, string) btree_map"
  cp_schema :: "SchemaRequirement option"
  cp_max_evidence_age_ms :: u64

record ComponentObservation =
  co_pin :: ComponentPin
  co_requires :: "(string, string) btree_map"
  co_provides :: "(string, string) btree_map"

record CompatibilityEvidence =
  ce_version :: u32
  ce_release_digest :: string
  ce_environment :: string
  ce_observed_at_ms :: int
  ce_components :: "(string, ComponentObservation) btree_map"
  ce_contracts :: "(string, string) btree_map"
  ce_capabilities :: "string list"
  ce_schema_version :: "u64 option"
  ce_migration :: MigrationState

datatype CompatibilityFailure =
    MissingEvidence
  | InvalidEvidence
  | AmbiguousEvidence
  | PreflightUnavailable
  | AmbiguousComponent string
  | ReleaseBinding
  | EnvironmentBinding
  | StaleEvidence
  | MissingComponent string
  | ComponentChanged string
  | MissingCapability string
  | UnsatisfiedFact string
  | MissingContract string
  | AmbiguousContract string
  | IncompatibleContract string
  | UnsupportedSchema
  | MigrationStateFailure

fun failure_key :: "CompatibilityFailure \<Rightarrow> nat \<times> string" where
  "failure_key MissingEvidence = (0, [])"
| "failure_key InvalidEvidence = (1, [])"
| "failure_key AmbiguousEvidence = (2, [])"
| "failure_key PreflightUnavailable = (3, [])"
| "failure_key (AmbiguousComponent c) = (4, c)"
| "failure_key ReleaseBinding = (5, [])"
| "failure_key EnvironmentBinding = (6, [])"
| "failure_key StaleEvidence = (7, [])"
| "failure_key (MissingComponent c) = (8, c)"
| "failure_key (ComponentChanged c) = (9, c)"
| "failure_key (MissingCapability c) = (10, c)"
| "failure_key (UnsatisfiedFact f) = (11, f)"
| "failure_key (MissingContract c) = (12, c)"
| "failure_key (AmbiguousContract c) = (13, c)"
| "failure_key (IncompatibleContract c) = (14, c)"
| "failure_key UnsupportedSchema = (15, [])"
| "failure_key MigrationStateFailure = (16, [])"

lemma failure_key_inject: "failure_key a = failure_key b \<Longrightarrow> a = b"
  by (cases a; cases b) simp_all

instantiation CompatibilityFailure :: linorder
begin

definition less_eq_failure_def: "a \<le> b \<longleftrightarrow> failure_key a \<le> failure_key b"
definition less_failure_def: "a < b \<longleftrightarrow> failure_key a < failure_key b"

instance
  by standard (auto simp: less_eq_failure_def less_failure_def intro: failure_key_inject)

end

record CompatibilityReport =
  cr_version :: u32
  cr_release_digest :: string
  cr_failures :: "CompatibilityFailure list"

record CompatibilityOutcome =
  oc_version :: u32
  oc_release_digest :: string
  oc_failures :: "CompatibilityFailure list"
  oc_satisfied_by :: "(string, string) btree_map"

record CompatibilityEval =
  ev_outcome :: CompatibilityOutcome
  ev_candidate_unmet :: "(string, string) btree_map"

type_synonym DeployedOffers = "(string, (string \<times> string) list) btree_map"

datatype ContractOfferSource = Observed | Deployed string

record ContractOffer =
  of_version :: string
  of_source :: ContractOfferSource

datatype compat_error =
    Bad_Profile_Shape
  | Bad_Evidence_Age
  | Bad_Compat_Identifier string
  | Bad_Component_Digest
  | Bad_Component_Revision
  | Too_Many_Contracts
  | Table_Form_Needs_V2 string
  | Bad_Contract_Version string
  | Unstable_Contract_Version string
  | Profile_Cycle cycle_error
  | Too_Many_Requirements
  | Bad_Fact fact_error
  | Bad_Fact_Requirement
  | Bad_Schema_Range
  | Ambiguous_Dependent string string
  | Unsatisfied_Dependent string string string
  | Evidence_Environment_Mismatch
  | Evidence_Version_Or_Time
  | Evidence_Release_Digest
  | Evidence_Too_Large
  | Too_Many_Observations
  | Snapshot_Unavailable string

definition outcome_with_failures :: "string \<Rightarrow> CompatibilityFailure list \<Rightarrow> CompatibilityOutcome" where
  "outcome_with_failures digest failures =
     \<lparr>oc_version = 1, oc_release_digest = digest, oc_failures = failures, oc_satisfied_by = []\<rparr>"

definition report_with_failures :: "string \<Rightarrow> CompatibilityFailure list \<Rightarrow> CompatibilityReport" where
  "report_with_failures digest failures =
     \<lparr>cr_version = 1, cr_release_digest = digest, cr_failures = failures\<rparr>"

definition eval_with_failures :: "string \<Rightarrow> CompatibilityFailure list \<Rightarrow> CompatibilityEval" where
  "eval_with_failures digest failures =
     \<lparr>ev_outcome = outcome_with_failures digest failures, ev_candidate_unmet = []\<rparr>"

definition report_of_outcome :: "CompatibilityOutcome \<Rightarrow> CompatibilityReport" where
  "report_of_outcome oc =
     \<lparr>cr_version = oc_version oc, cr_release_digest = oc_release_digest oc,
      cr_failures = oc_failures oc\<rparr>"

definition required_minimums :: "ComponentRequirement \<Rightarrow> (string, string) btree_map" where
  "required_minimums c = map (\<lambda>(name, req). (name, req_minimum req)) (cq_requires c)"

section \<open>Validation\<close>

definition is_ascii_hexdigit :: "char \<Rightarrow> bool" where
  "is_ascii_hexdigit c = (let n = (of_char c :: nat) in
     (48 \<le> n \<and> n \<le> 57) \<or> (65 \<le> n \<and> n \<le> 70) \<or> (97 \<le> n \<and> n \<le> 102))"

definition is_ascii_uppercase :: "char \<Rightarrow> bool" where
  "is_ascii_uppercase c = (let n = (of_char c :: nat) in 65 \<le> n \<and> n \<le> 90)"

definition lower_hex :: "string \<Rightarrow> bool" where
  "lower_hex s = list_all (\<lambda>c. is_ascii_hexdigit c \<and> \<not> is_ascii_uppercase c) s"

fun validate_pin :: "ComponentPin \<Rightarrow> compat_error + unit" where
  "validate_pin (Digest value) =
     ensure (case strip_prefix ''sha256:'' value of
               None \<Rightarrow> False
             | Some hex \<Rightarrow> length hex = 64 \<and> lower_hex hex) Bad_Component_Digest"
| "validate_pin (Revision value) =
     ensure ((length value = 40 \<or> length value = 64) \<and> list_all is_ascii_hexdigit value)
       Bad_Component_Revision"

definition validate_compat_identifier :: "string \<Rightarrow> compat_error + unit" where
  "validate_compat_identifier value =
     ensure (value \<noteq> [] \<and> length value \<le> 128
             \<and> list_all (\<lambda>b. is_ascii_alphanumeric b \<or> b \<in> set ''._-'') value)
       (Bad_Compat_Identifier value)"

definition validate_contract_version :: "('v, 'z) semver_scheme \<Rightarrow> string \<Rightarrow> compat_error + unit" where
  "validate_contract_version sv version =
     bind_r (ok_or (Bad_Contract_Version version) (sv_parse sv version)) (\<lambda>parsed.
       ensure (\<not> sv_has_pre sv parsed \<and> \<not> sv_has_build sv parsed)
         (Unstable_Contract_Version version))"

definition validate_contracts ::
  "('v, 'z) semver_scheme \<Rightarrow> (string, string) btree_map \<Rightarrow> compat_error + unit" where
  "validate_contracts sv contracts =
     bind_r (ensure (length contracts \<le> 128) Too_Many_Contracts) (\<lambda>_.
       try_all (\<lambda>(name, version).
         bind_r (validate_compat_identifier name) (\<lambda>_. validate_contract_version sv version))
         contracts)"

definition validate_requirements ::
  "('v, 'z) semver_scheme \<Rightarrow> u32 \<Rightarrow> (string, ContractRequirement) btree_map
     \<Rightarrow> compat_error + unit" where
  "validate_requirements sv profile_version requirements =
     bind_r (ensure (length requirements \<le> 128) Too_Many_Contracts) (\<lambda>_.
       try_all (\<lambda>(name, req).
         bind_r (validate_compat_identifier name) (\<lambda>_.
         bind_r (validate_contract_version sv (req_minimum req)) (\<lambda>_.
           ensure (\<not> (profile_version < 2 \<and> req_is_table_form req)) (Table_Form_Needs_V2 name))))
         requirements)"

definition entry_list :: "('k, 'v list) btree_map \<Rightarrow> 'k \<Rightarrow> 'v list" where
  "entry_list m k = (case map_of m k of None \<Rightarrow> [] | Some l \<Rightarrow> l)"

definition register_provides ::
  "string \<times> ComponentRequirement \<Rightarrow> (string, string list) btree_map
     \<Rightarrow> (string, string list) btree_map" where
  "register_provides e m = (case e of (name, component) \<Rightarrow>
     fold (\<lambda>contract m. bt_insert contract (entry_list m contract @ [name]) m)
       (bt_keys (cq_provides component)) m)"

definition component_providers ::
  "(string, ComponentRequirement) btree_map \<Rightarrow> (string, string list) btree_map" where
  "component_providers components = fold register_provides components []"

definition push_requires ::
  "(string, string list) btree_map \<Rightarrow> string \<times> ComponentRequirement \<Rightarrow> out_edges \<Rightarrow> out_edges" where
  "push_requires providers e g = (case e of (name, component) \<Rightarrow>
     fold (\<lambda>contract g. fold (\<lambda>target g. push_edge name (target, contract) g)
             (entry_list providers contract) g)
       (bt_keys (cq_requires component)) g)"

definition requirement_edges :: "(string, ComponentRequirement) btree_map \<Rightarrow> out_edges" where
  "requirement_edges components = fold (push_requires (component_providers components)) components []"

definition visit_requirement_edge ::
  "string \<Rightarrow> out_edges \<Rightarrow> (string \<times> string) list \<Rightarrow> (string, nat) btree_map \<Rightarrow> string btree_set
     \<Rightarrow> cycle_error + string btree_set" where
  "visit_requirement_edge = visit_edge"

definition refuse_requirement_cycle ::
  "(string, ComponentRequirement) btree_map \<Rightarrow> compat_error + unit" where
  "refuse_requirement_cycle components =
     map_err Profile_Cycle
       (bind_r (try_fold (\<lambda>finished name.
                  visit_requirement_edge name (requirement_edges components) [] [] finished)
                  [] (bt_keys components))
         (\<lambda>_. Inr ()))"

definition validate_component ::
  "('v, 'z) semver_scheme \<Rightarrow> u32 \<Rightarrow> string \<times> ComponentRequirement \<Rightarrow> compat_error + unit" where
  "validate_component sv version e = (case e of (name, component) \<Rightarrow>
     bind_r (validate_compat_identifier name) (\<lambda>_.
     bind_r (validate_pin (cq_pin component)) (\<lambda>_.
     bind_r (validate_requirements sv version (cq_requires component)) (\<lambda>_.
       validate_contracts sv (cq_provides component)))))"

definition validate_fact_requirement :: "string \<times> string \<Rightarrow> compat_error + unit" where
  "validate_fact_requirement e = (case e of (key, value) \<Rightarrow>
     bind_r (map_err Bad_Fact (validate_fact_key key)) (\<lambda>_.
     bind_r (map_err Bad_Fact (validate_fact_value key value)) (\<lambda>_.
       ensure (\<not> (value = [] \<or> 128 < length value \<or> list_ex is_control value))
         Bad_Fact_Requirement)))"

definition validate_profile ::
  "('v, 'z) semver_scheme \<Rightarrow> CompatibilityProfile \<Rightarrow> compat_error + unit" where
  "validate_profile sv p =
     bind_r (ensure ((cp_version p = 1 \<or> cp_version p = 2) \<and> cp_components p \<noteq> []
                     \<and> length (cp_components p) \<le> 128) Bad_Profile_Shape) (\<lambda>_.
     bind_r (ensure (cp_max_evidence_age_ms p \<noteq> 0 \<and> cp_max_evidence_age_ms p \<le> 86400000)
               Bad_Evidence_Age) (\<lambda>_.
     bind_r (try_all (validate_component sv (cp_version p)) (cp_components p)) (\<lambda>_.
     bind_r (if 2 \<le> cp_version p then refuse_requirement_cycle (cp_components p) else Inr ()) (\<lambda>_.
     bind_r (ensure (length (cp_capabilities p) \<le> 128 \<and> length (cp_facts p) \<le> 128)
               Too_Many_Requirements) (\<lambda>_.
     bind_r (try_all validate_compat_identifier (cp_capabilities p)) (\<lambda>_.
     bind_r (try_all validate_fact_requirement (cp_facts p)) (\<lambda>_.
       ensure (case cp_schema p of None \<Rightarrow> True | Some s \<Rightarrow> sc_minimum s \<le> sc_maximum s)
         Bad_Schema_Range)))))))"

section \<open>The requirement relation of a release\<close>

definition component_rel :: "(string, ComponentRequirement) btree_map \<Rightarrow> (string \<times> string) set" where
  "component_rel components = {(a, b). \<exists>ca cb contract.
     (a, ca) \<in> set components \<and> (b, cb) \<in> set components
     \<and> contract \<in> fst ` set (cq_requires ca) \<and> contract \<in> fst ` set (cq_provides cb)}"

lemma entry_list_insert [simp]:
  "entry_list (bt_insert k l m) j = (if j = k then l else entry_list m j)"
  by (simp add: entry_list_def)

lemma entry_list_Nil [simp]: "entry_list [] j = []"
  by (simp add: entry_list_def)

lemma set_push_all:
  "set (entry_list (fold (\<lambda>k m. bt_insert k (entry_list m k @ [x]) m) ks m) j)
     = set (entry_list m j) \<union> (if j \<in> set ks then {x} else {})"
  by (induction ks arbitrary: m) auto

lemma set_register_provides:
  "set (entry_list (register_provides e m) contract)
     = set (entry_list m contract)
       \<union> (if contract \<in> fst ` set (cq_provides (snd e)) then {fst e} else {})"
  by (simp add: register_provides_def split_def set_push_all bt_keys_def)

lemma set_component_providers:
  "set (entry_list (component_providers components) contract)
     = {name. \<exists>c. (name, c) \<in> set components \<and> contract \<in> fst ` set (cq_provides c)}"
proof -
  have "set (entry_list (fold register_provides cs m) contract) = set (entry_list m contract)
      \<union> {name. \<exists>c. (name, c) \<in> set cs \<and> contract \<in> fst ` set (cq_provides c)}" for cs m
  proof (induction cs arbitrary: m)
    case (Cons e cs)
    show ?case unfolding fold_simps o_apply Cons.IH set_register_provides by (cases e) auto
  qed simp
  from this [of components "[]"] show ?thesis by (simp add: component_providers_def)
qed

lemma set_succ_push_targets:
  "set (succ_edges (fold (\<lambda>target g. push_edge n (target, c) g) ts g) a)
     = set (succ_edges g a) \<union> (if a = n then (\<lambda>t. (t, c)) ` set ts else {})"
  by (induction ts arbitrary: g) auto

lemma set_succ_push_contracts:
  "set (succ_edges (fold (\<lambda>contract g. fold (\<lambda>target g. push_edge n (target, contract) g)
            (entry_list m contract) g) cs g) a)
     = set (succ_edges g a) \<union> (if a = n then {(t, c). c \<in> set cs \<and> t \<in> set (entry_list m c)} else {})"
  by (induction cs arbitrary: g) (auto simp: set_succ_push_targets)

lemma set_succ_push_requires:
  "set (succ_edges (push_requires m e g) a) = set (succ_edges g a)
     \<union> (if a = fst e then {(t, c). c \<in> fst ` set (cq_requires (snd e)) \<and> t \<in> set (entry_list m c)}
        else {})"
  by (simp add: push_requires_def split_def set_succ_push_contracts bt_keys_def)

lemma set_succ_requirement_edges:
  "set (succ_edges (requirement_edges components) a)
     = {(t, c). \<exists>comp. (a, comp) \<in> set components \<and> c \<in> fst ` set (cq_requires comp)
          \<and> t \<in> set (entry_list (component_providers components) c)}"
proof -
  have "set (succ_edges (fold (push_requires m) cs g) a)
     = set (succ_edges g a) \<union> {(t, c). \<exists>comp. (a, comp) \<in> set cs
          \<and> c \<in> fst ` set (cq_requires comp) \<and> t \<in> set (entry_list m c)}" for m cs g
  proof (induction cs arbitrary: g)
    case (Cons e cs)
    show ?case unfolding fold_simps o_apply Cons.IH set_succ_push_requires by (cases e) auto
  qed simp
  from this [of _ components "[]"] show ?thesis
    by (simp add: requirement_edges_def succ_edges_def)
qed

lemma edge_rel_requirement_edges: "edge_rel (requirement_edges components) = component_rel components"
  unfolding edge_rel_def component_rel_def set_succ_requirement_edges set_component_providers by blast

lemma refuse_requirement_cycle_iff:
  "refuse_requirement_cycle components = Inr () \<longleftrightarrow> acyclic (component_rel components)"
proof -
  have "Domain (edge_rel (requirement_edges components)) \<subseteq> set (bt_keys components)"
    unfolding edge_rel_requirement_edges component_rel_def bt_keys_def by force
  from check_nodes_iff_acyclic [OF this] show ?thesis
    unfolding edge_rel_requirement_edges check_nodes_def refuse_requirement_cycle_def
      visit_requirement_edge_def is_ok_iff
    by (auto simp: result_simps)
qed

lemma finite_component_rel: "finite (component_rel components)"
  by (rule finite_subset [of _ "fst ` set components \<times> fst ` set components"])
     (force simp: component_rel_def)+

interpretation req_cycle: cycle_refusal refuse_requirement_cycle component_rel
  by unfold_locales (auto simp: refuse_requirement_cycle_iff finite_component_rel)

lemma validate_profile_acyclic:
  "validate_profile sv p = Inr () \<Longrightarrow> 2 \<le> cp_version p \<Longrightarrow> refuse_requirement_cycle (cp_components p) = Inr ()"
  by (auto simp: validate_profile_def result_simps)

text \<open>Publication refuses exactly the cyclic releases: the depth-first search over a release's
  own components accepts if and only if no component transitively requires a contract it provides,
  and a refusal names a closed walk of requirement edges with their contracts.\<close>

theorem requirement_cycle_refused_iff:
  "case refuse_requirement_cycle components of
     Inr _ \<Rightarrow> acyclic (component_rel components)
   | Inl err \<Rightarrow> \<not> acyclic (component_rel components)
       \<and> (\<exists>e. err = Profile_Cycle e \<and> real_cycle (requirement_edges components) e)"
proof (cases "check_nodes (requirement_edges components) (bt_keys components)")
  case (Inl e)
  then have "refuse_requirement_cycle components = Inl (Profile_Cycle e)"
    by (simp add: refuse_requirement_cycle_def check_nodes_def visit_requirement_edge_def)
  with check_nodes_error [OF Inl] refuse_requirement_cycle_iff [of components] show ?thesis by simp
next
  case (Inr fin)
  then have "refuse_requirement_cycle components = Inr ()"
    by (simp add: refuse_requirement_cycle_def check_nodes_def visit_requirement_edge_def)
  with refuse_requirement_cycle_iff [of components] show ?thesis by simp
qed

end
