(* ===== verification/Signed_Format.thy ===== *)
theory Signed_Format
  imports Compatibility
begin

text \<open>
  \<open>src/signature_verification.rs\<close>: the framing and digest grammar that every signed format shares,
  and the checks on a trusted signer's key.

  Bytes are HOL characters.  Base64, SHA-256 and Ed25519 come from third-party crates and are the
  fields of the record \<open>crypto\<close>; the set of revoked keys is an argument.  A prefix is the big-endian
  \<open>u64\<close> length, so framing is unambiguous for every value shorter than \<open>2 ^ 64\<close> bytes.
\<close>

type_synonym bytes = string

fun be_bytes :: "nat \<Rightarrow> nat \<Rightarrow> bytes" where
  "be_bytes 0 n = []"
| "be_bytes (Suc k) n = be_bytes k (n div 256) @ [char_of (n mod 256)]"

definition i64_be_bytes :: "int \<Rightarrow> bytes" where
  "i64_be_bytes x = be_bytes 8 (nat (x mod 2 ^ 64))"

definition push_len_prefixed :: "bytes \<Rightarrow> bytes \<Rightarrow> bytes" where
  "push_len_prefixed output value = output @ be_bytes 8 (length value) @ value"

datatype format_error =
    Digest_Length string
  | Digest_Uppercase string
  | Digest_Prefix string
  | Digest_Hex string
  | Not_Base64 string
  | Wrong_Decoded_Length string nat nat
  | Invalid_Public_Key string
  | Weak_Public_Key string
  | Window_Not_Positive
  | Window_Empty
  | Not_Yet_Valid string
  | No_Longer_Valid string
  | Signed_In_Future string
  | Key_Revoked string
  | Key_Id_Mismatch string string
  | Signature_Invalid string

definition validate_hex_digest :: "string \<Rightarrow> string \<Rightarrow> format_error + unit" where
  "validate_hex_digest label value =
     bind_r (ensure (length value = 64 \<and> list_all is_ascii_hexdigit value) (Digest_Length label))
       (\<lambda>_. ensure (\<not> list_ex is_ascii_uppercase value) (Digest_Uppercase label))"

definition validate_prefixed_digest :: "string \<Rightarrow> string \<Rightarrow> format_error + unit" where
  "validate_prefixed_digest label value =
     bind_r (ok_or (Digest_Prefix label) (strip_prefix ''sha256:'' value))
       (\<lambda>hex. ensure (length hex = 64
            \<and> list_all (\<lambda>b. is_ascii_hexdigit b \<and> \<not> is_ascii_uppercase b) hex) (Digest_Hex label))"

definition validate_key_id :: "string \<Rightarrow> string \<Rightarrow> format_error + unit" where
  "validate_key_id label value =
     bind_r (ok_or (Digest_Prefix label) (strip_prefix ''sha256:'' value)) (validate_hex_digest label)"

section \<open>Keys\<close>

record 'k crypto =
  base64_decode :: "string \<Rightarrow> bytes option"
  sha256_digest :: "bytes \<Rightarrow> string"
  ed_from_bytes :: "bytes \<Rightarrow> 'k option"
  ed_is_weak :: "'k \<Rightarrow> bool"
  ed_verify_strict :: "'k \<Rightarrow> bytes \<Rightarrow> bytes \<Rightarrow> bool"

definition key_id :: "('k, 'z) crypto_scheme \<Rightarrow> bytes \<Rightarrow> string" where
  "key_id c public_key = ''sha256:'' @ sha256_digest c public_key"

definition decode_exact :: "('k, 'z) crypto_scheme \<Rightarrow> nat \<Rightarrow> string \<Rightarrow> string \<Rightarrow> format_error + bytes" where
  "decode_exact c n label value =
     bind_r (ok_or (Not_Base64 label) (base64_decode c value))
       (\<lambda>bs. bind_r (ensure (length bs = n) (Wrong_Decoded_Length label n (length bs)))
         (\<lambda>_. Inr bs))"

definition verifying_key :: "('k, 'z) crypto_scheme \<Rightarrow> string \<Rightarrow> string \<Rightarrow> format_error + 'k" where
  "verifying_key c label value =
     bind_r (decode_exact c 32 label value)
       (\<lambda>bs. bind_r (ok_or (Invalid_Public_Key label) (ed_from_bytes c bs))
         (\<lambda>key. bind_r (ensure (\<not> ed_is_weak c key) (Weak_Public_Key label)) (\<lambda>_. Inr key)))"

definition signed_at_clock_skew_ms :: int where
  "signed_at_clock_skew_ms = 5 * 60 * 1000"

record SignerValidityWindow =
  vw_not_before :: "int option"
  vw_not_after :: "int option"

definition window_validate :: "SignerValidityWindow \<Rightarrow> format_error + unit" where
  "window_validate w =
     bind_r (try_all (\<lambda>v. ensure (case v of None \<Rightarrow> True | Some x \<Rightarrow> 0 < x) Window_Not_Positive)
         [vw_not_before w, vw_not_after w])
       (\<lambda>_. ensure (case (vw_not_before w, vw_not_after w) of
            (Some nb, Some na) \<Rightarrow> nb < na | _ \<Rightarrow> True) Window_Empty)"

definition window_check :: "SignerValidityWindow \<Rightarrow> string \<Rightarrow> int \<Rightarrow> format_error + unit" where
  "window_check w identity at_ms =
     bind_r (ensure (case vw_not_before w of None \<Rightarrow> True | Some nb \<Rightarrow> nb \<le> at_ms)
         (Not_Yet_Valid identity))
       (\<lambda>_. ensure (case vw_not_after w of None \<Rightarrow> True | Some na \<Rightarrow> at_ms \<le> na)
         (No_Longer_Valid identity))"

definition window_check_signed_at ::
  "SignerValidityWindow \<Rightarrow> string \<Rightarrow> int \<Rightarrow> int \<Rightarrow> format_error + unit" where
  "window_check_signed_at w identity signed_at_ms now_ms =
     bind_r (ensure (signed_at_ms \<le> i64_saturating_add now_ms signed_at_clock_skew_ms)
         (Signed_In_Future identity))
       (\<lambda>_. window_check w identity signed_at_ms)"

definition well_formed_key ::
  "('k, 'z) crypto_scheme \<Rightarrow> string \<Rightarrow> string \<Rightarrow> string \<Rightarrow> format_error + 'k" where
  "well_formed_key c label public_key expected_key_id =
     bind_r (decode_exact c 32 label public_key)
       (\<lambda>bs. bind_r (ensure (expected_key_id = key_id c bs) (Key_Id_Mismatch label expected_key_id))
         (\<lambda>_. verifying_key c label public_key))"

definition trusted_key ::
  "('k, 'z) crypto_scheme \<Rightarrow> (string \<Rightarrow> bool) \<Rightarrow> string \<Rightarrow> string \<Rightarrow> string \<Rightarrow> format_error + 'k" where
  "trusted_key c revoked label public_key expected_key_id =
     bind_r (ensure (\<not> revoked expected_key_id) (Key_Revoked expected_key_id))
       (\<lambda>_. well_formed_key c label public_key expected_key_id)"

definition verify_strict ::
  "('k, 'z) crypto_scheme \<Rightarrow> 'k \<Rightarrow> string \<Rightarrow> string \<Rightarrow> bytes \<Rightarrow> format_error + unit" where
  "verify_strict c key signature_label signature message =
     bind_r (decode_exact c 64 signature_label signature)
       (\<lambda>sig. ensure (ed_verify_strict c key message sig) (Signature_Invalid signature_label))"

section \<open>Big-endian bytes\<close>

lemma length_be_bytes [simp]: "length (be_bytes k n) = k"
  by (induction k arbitrary: n) auto

lemma digit_split:
  assumes "256 * a + b = 256 * c + (d :: nat)" and "b < 256" and "d < 256"
  shows "a = c \<and> b = d"
proof -
  have "(256 * a + b) div 256 = a" "(256 * c + d) div 256 = c" using assms(2,3) by simp_all
  then have "a = c" using assms(1) by simp
  with assms(1) show ?thesis by simp
qed

lemma be_bytes_inject: "be_bytes k m = be_bytes k n \<longleftrightarrow> m mod 256 ^ k = n mod 256 ^ k"
proof (induction k arbitrary: m n)
  case (Suc k)
  have split: "x mod 256 ^ Suc k = 256 * (x div 256 mod 256 ^ k) + x mod 256" for x :: nat
    by (simp add: mod_mult2_eq)
  have "be_bytes (Suc k) m = be_bytes (Suc k) n \<longleftrightarrow>
      m div 256 mod 256 ^ k = n div 256 mod 256 ^ k \<and> m mod 256 = n mod 256"
    using Suc.IH [of "m div 256" "n div 256"] by simp
  also have "\<dots> \<longleftrightarrow> m mod 256 ^ Suc k = n mod 256 ^ Suc k"
  proof
    assume "m mod 256 ^ Suc k = n mod 256 ^ Suc k"
    then have eq: "256 * (m div 256 mod 256 ^ k) + m mod 256 = 256 * (n div 256 mod 256 ^ k) + n mod 256"
      by (simp only: split)
    show "m div 256 mod 256 ^ k = n div 256 mod 256 ^ k \<and> m mod 256 = n mod 256"
      by (rule digit_split [OF eq]) simp_all
  qed (simp only: split)
  finally show ?case .
qed simp

lemma i64_be_bytes_inject:
  assumes "is_i64 x" and "is_i64 y" and "i64_be_bytes x = i64_be_bytes y"
  shows "x = y"
proof -
  have "(256 :: nat) ^ 8 = 2 ^ 64" by simp
  then have "nat (x mod 2 ^ 64) mod 2 ^ 64 = nat (y mod 2 ^ 64) mod 2 ^ 64"
    using assms(3) unfolding i64_be_bytes_def be_bytes_inject by simp
  moreover have "nat (z mod 2 ^ 64) < 2 ^ 64" for z :: int by (simp add: nat_less_iff)
  ultimately have "x mod 2 ^ 64 = y mod 2 ^ 64" by (simp add: nat_eq_iff)
  then obtain k where "x - y = 2 ^ 64 * k" by (metis mod_eq_dvd_iff dvdE)
  moreover have "x - y < 2 ^ 64" and "- (2 ^ 64) < x - y"
    using assms(1,2) by (simp_all add: is_i64_def i64_min_def i64_max_def)
  ultimately show ?thesis by simp
qed

section \<open>Unambiguous framing\<close>

text \<open>What a signed format relies on: a frame can be cut off the front of a message in one way.\<close>

locale prefix_framing =
  fixes frame :: "'v \<Rightarrow> bytes" and fits :: "'v \<Rightarrow> bool"
  assumes frame_cancel:
    "fits v \<Longrightarrow> fits w \<Longrightarrow> frame v @ r = frame w @ s \<Longrightarrow> v = w \<and> r = s"
begin

lemma frames_cancel:
  assumes "length vs = length ws" and "list_all fits vs" and "list_all fits ws"
    and "concat (map frame vs) @ r = concat (map frame ws) @ s"
  shows "vs = ws \<and> r = s"
  using assms
proof (induction vs ws arbitrary: r s rule: list_induct2)
  case (Cons v vs w ws)
  have fit: "fits v" "fits w" "list_all fits vs" "list_all fits ws"
    using Cons.prems(1,2) by simp_all
  have eq: "frame v @ concat (map frame vs) @ r = frame w @ concat (map frame ws) @ s"
    using Cons.prems(3) by simp
  note cut = frame_cancel [OF fit(1,2) eq]
  from Cons.IH [OF fit(3,4) conjunct2 [OF cut]] cut show ?case by simp
qed simp

end

definition frame_bytes :: "bytes \<Rightarrow> bytes" where
  "frame_bytes v = push_len_prefixed [] v"

definition frame_fits :: "bytes \<Rightarrow> bool" where
  "frame_fits v = (length v < 2 ^ 64)"

lemma frame_bytes_cancel:
  assumes "frame_fits v" and "frame_fits w" and "frame_bytes v @ r = frame_bytes w @ s"
  shows "v = w \<and> r = s"
proof -
  have eq: "be_bytes 8 (length v) @ v @ r = be_bytes 8 (length w) @ w @ s"
    using assms(3) by (simp add: frame_bytes_def push_len_prefixed_def)
  then have "be_bytes 8 (length v) = be_bytes 8 (length w)" and vr: "v @ r = w @ s"
    using append_eq_append_conv [of "be_bytes 8 (length v)" "be_bytes 8 (length w)" "v @ r" "w @ s"]
    by simp_all
  moreover have "(256 :: nat) ^ 8 = 2 ^ 64" by simp
  ultimately have "length v = length w"
    using assms(1,2) by (simp add: be_bytes_inject frame_fits_def)
  then show ?thesis using vr by simp
qed

interpretation framing: prefix_framing frame_bytes frame_fits
  by unfold_locales (rule frame_bytes_cancel)

lemma fold_push_len_prefixed:
  "fold (\<lambda>v out. push_len_prefixed out v) vs out = out @ concat (map frame_bytes vs)"
  by (induction vs arbitrary: out) (simp_all add: push_len_prefixed_def frame_bytes_def)

end
