(* ===== verification/Plan_Approval.thy ===== *)
theory Plan_Approval
  imports Approval_Policy Signed_Format
begin

text \<open>
  \<open>src/plan_approval.rs\<close> and the host side's \<open>src/host_apply/policy.rs\<close>: the bytes an approval signs,
  the trust roots, the verification of one envelope and of the envelopes behind an execution, and
  the approvals the root-side applier counts.

  The cryptography is the record \<open>crypto\<close>, the revoked keys a predicate, the plan digest the
  \<open>codec\<close> of \<^theory_text>\<open>Plan_Data\<close>.  Reading files is I/O: loaded trust roots and envelopes are arguments.
\<close>

record ApprovalStatement =
  as_plan_digest :: string
  as_environment :: string
  as_purpose :: string
  as_skip_gates :: bool
  as_issued_at :: int
  as_expires_at :: int
  as_policy_provider :: string
  as_policy_evidence_id :: string
  as_policy_digest :: string

record ApprovalEnvelope =
  ae_schema :: string
  ae_key_id :: string
  ae_statement :: ApprovalStatement
  ae_signature :: string

record TrustedSigner =
  ts_key_id :: string
  ts_identity :: string
  ts_public_key :: string
  ts_environments :: "string list"
  ts_providers :: "string list"
  ts_groups :: "string list"
  ts_not_before :: "int option"
  ts_not_after :: "int option"

record TrustRoots =
  tr_version :: u32
  tr_signers :: "TrustedSigner list"

record VerificationEvidence =
  ve_schema :: string
  ve_plan_id :: string
  ve_plan_digest :: string
  ve_environment :: string
  ve_signer_identity :: string
  ve_key_id :: string
  ve_policy_provider :: string
  ve_policy_evidence_id :: string
  ve_policy_digest :: string
  ve_issued_at :: int
  ve_expires_at :: int
  ve_verified_at :: int
  ve_skip_gates :: bool
  ve_bypass_reason :: "string option"

datatype approval_error =
    Approval_Format format_error
  | Bad_Text string
  | Bad_Purpose
  | Bad_Expiry
  | Roots_Version
  | Unscoped_Automatic_Signer
  | Unscoped_Preflight_Signer
  | Duplicate_Signer
  | Signer_Not_Trusted string
  | Unsupported_Schema string
  | Digest_Unavailable
  | Bound_Elsewhere
  | Not_Valid_Yet
  | Approval_Expired int
  | Outside_Environment_Scope
  | Outside_Provider_Scope
  | Preflight_Cannot_Approve
  | Automatic_Needs_Scope
  | Approval_Missing
  | Requester_Unknown
  | Quorum_Not_Met nat
  | No_Live_Policy
  | Automatic_Not_Authorized
  | Policy_Digest_Changed
  | Human_Required
  | Host_Automatic_Key string
  | Policy_Unavailable string
  | Preflight_Not_Passing
  | Not_Local_Environment

definition approval_schema :: string where
  "approval_schema = ''tenkai.plan-approval.v1''"

definition approval_domain :: bytes where
  "approval_domain = ''TENKAI-PLAN-APPROVAL-V1'' @ [char_of (0 :: nat)]"

definition approval_purpose :: string where
  "approval_purpose = ''execute_plan''"

definition validate_text :: "string \<Rightarrow> string \<Rightarrow> approval_error + unit" where
  "validate_text name value =
     ensure (\<not> (trim value = [] \<or> value \<noteq> trim value \<or> 512 < length value
               \<or> char_of (0 :: nat) \<in> set value)) (Bad_Text name)"

definition validate_statement :: "ApprovalStatement \<Rightarrow> approval_error + unit" where
  "validate_statement s =
     bind_r (map_err Approval_Format (validate_prefixed_digest ''plan digest'' (as_plan_digest s))) (\<lambda>_.
     bind_r (validate_text ''environment'' (as_environment s)) (\<lambda>_.
     bind_r (ensure (as_purpose s = approval_purpose) Bad_Purpose) (\<lambda>_.
     bind_r (ensure (as_issued_at s < as_expires_at s) Bad_Expiry) (\<lambda>_.
     bind_r (validate_text ''policy provider'' (as_policy_provider s)) (\<lambda>_.
     bind_r (validate_text ''policy evidence id'' (as_policy_evidence_id s)) (\<lambda>_.
       map_err Approval_Format (validate_prefixed_digest ''policy digest'' (as_policy_digest s))))))))"

definition canonical_bytes :: "ApprovalStatement \<Rightarrow> approval_error + bytes" where
  "canonical_bytes s = bind_r (validate_statement s) (\<lambda>_.
     let bytes = fold (\<lambda>v out. push_len_prefixed out v)
           [as_plan_digest s, as_environment s, as_purpose s] approval_domain;
         bytes = bytes @ i64_be_bytes (as_issued_at s);
         bytes = bytes @ i64_be_bytes (as_expires_at s);
         bytes = bytes @ [char_of (if as_skip_gates s then 1 else 0 :: nat)]
     in Inr (fold (\<lambda>v out. push_len_prefixed out v)
           [as_policy_provider s, as_policy_evidence_id s, as_policy_digest s] bytes))"

definition ts_validity :: "TrustedSigner \<Rightarrow> SignerValidityWindow" where
  "ts_validity s = \<lparr>vw_not_before = ts_not_before s, vw_not_after = ts_not_after s\<rparr>"

section \<open>Trust roots\<close>

definition restricted_provider_ok :: "string \<Rightarrow> TrustedSigner \<Rightarrow> bool" where
  "restricted_provider_ok provider signer \<longleftrightarrow>
     \<not> (list_ex (\<lambda>p. p = provider) (ts_providers signer)
        \<and> (ts_environments signer = [] \<or> length (ts_providers signer) \<noteq> 1))"

definition validate_signer ::
  "('k, 'z) crypto_scheme \<Rightarrow> string btree_set \<times> string btree_set \<Rightarrow> TrustedSigner
     \<Rightarrow> approval_error + string btree_set \<times> string btree_set" where
  "validate_signer c seen signer = (case seen of (keys, identities) \<Rightarrow>
     bind_r (try_all (validate_text ''trusted signer scope'')
         (ts_environments signer @ ts_providers signer @ ts_groups signer)) (\<lambda>_.
     bind_r (ensure (restricted_provider_ok policy_provider signer) Unscoped_Automatic_Signer) (\<lambda>_.
     bind_r (ensure (restricted_provider_ok preflight_provider signer) Unscoped_Preflight_Signer) (\<lambda>_.
     bind_r (validate_text ''trusted signer identity'' (ts_identity signer)) (\<lambda>_.
     bind_r (map_err Approval_Format (well_formed_key c ''plan approval public key''
         (ts_public_key signer) (ts_key_id signer))) (\<lambda>_.
     bind_r (map_err Approval_Format (window_validate (ts_validity signer))) (\<lambda>_.
     bind_r (ensure (ts_key_id signer \<notin> set keys \<and> ts_identity signer \<notin> set identities)
         Duplicate_Signer) (\<lambda>_.
       Inr (bs_insert (ts_key_id signer) keys, bs_insert (ts_identity signer) identities)))))))))"

definition validate_roots :: "('k, 'z) crypto_scheme \<Rightarrow> TrustRoots \<Rightarrow> approval_error + unit" where
  "validate_roots c roots =
     bind_r (ensure (tr_version roots = 1 \<and> tr_signers roots \<noteq> []) Roots_Version) (\<lambda>_.
     bind_r (try_fold (validate_signer c) ([], []) (tr_signers roots)) (\<lambda>_. Inr ()))"

definition roots_signer :: "TrustRoots \<Rightarrow> string \<Rightarrow> approval_error + TrustedSigner" where
  "roots_signer roots kid =
     ok_or (Signer_Not_Trusted kid) (find (\<lambda>s. ts_key_id s = kid) (tr_signers roots))"

section \<open>One envelope\<close>

definition verify_envelope ::
  "('k, 'z) crypto_scheme \<Rightarrow> (string \<Rightarrow> bool) \<Rightarrow> ('b, 'y) codec_scheme \<Rightarrow> Plan \<Rightarrow> ApprovalEnvelope
     \<Rightarrow> TrustRoots \<Rightarrow> int \<Rightarrow> bool \<Rightarrow> approval_error + VerificationEvidence" where
  "verify_envelope c revoked codec plan envelope roots now skip_gates =
     (let statement = ae_statement envelope in
     bind_r (ensure (ae_schema envelope = approval_schema) (Unsupported_Schema (ae_schema envelope))) (\<lambda>_.
     bind_r (ok_or Digest_Unavailable (executable_digest codec plan)) (\<lambda>hex.
     let expected_digest = ''sha256:'' @ hex in
     bind_r (ensure (as_plan_digest statement = expected_digest
         \<and> as_environment statement = pl_environment plan
         \<and> as_skip_gates statement = skip_gates) Bound_Elsewhere) (\<lambda>_.
     bind_r (ensure (as_issued_at statement \<le> now) Not_Valid_Yet) (\<lambda>_.
     bind_r (ensure (now < as_expires_at statement) (Approval_Expired (as_expires_at statement))) (\<lambda>_.
     bind_r (roots_signer roots (ae_key_id envelope)) (\<lambda>signer.
     bind_r (map_err Approval_Format (window_check (ts_validity signer) (ts_identity signer) now)) (\<lambda>_.
     bind_r (ensure (ts_environments signer = [] \<or> pl_environment plan \<in> set (ts_environments signer))
         Outside_Environment_Scope) (\<lambda>_.
     bind_r (ensure (ts_providers signer = [] \<or> as_policy_provider statement \<in> set (ts_providers signer))
         Outside_Provider_Scope) (\<lambda>_.
     bind_r (ensure (as_policy_provider statement \<noteq> preflight_provider) Preflight_Cannot_Approve) (\<lambda>_.
     bind_r (ensure (\<not> (as_policy_provider statement = policy_provider
         \<and> (ts_environments signer = [] \<or> ts_providers signer \<noteq> [policy_provider])))
         Automatic_Needs_Scope) (\<lambda>_.
     bind_r (map_err Approval_Format (trusted_key c revoked ''trusted signer public key''
         (ts_public_key signer) (ts_key_id signer))) (\<lambda>key.
     bind_r (canonical_bytes statement) (\<lambda>message.
     bind_r (map_err Approval_Format (verify_strict c key ''plan approval signature''
         (ae_signature envelope) message)) (\<lambda>_.
     Inr \<lparr>ve_schema = approval_schema, ve_plan_id = pl_id plan, ve_plan_digest = expected_digest,
       ve_environment = pl_environment plan, ve_signer_identity = ts_identity signer,
       ve_key_id = ae_key_id envelope, ve_policy_provider = as_policy_provider statement,
       ve_policy_evidence_id = as_policy_evidence_id statement,
       ve_policy_digest = as_policy_digest statement, ve_issued_at = as_issued_at statement,
       ve_expires_at = as_expires_at statement, ve_verified_at = now,
       ve_skip_gates = as_skip_gates statement, ve_bypass_reason = None\<rparr>)))))))))))))))"

definition local_bypass ::
  "('b, 'y) codec_scheme \<Rightarrow> (string \<Rightarrow> string) \<Rightarrow> Plan \<Rightarrow> string \<Rightarrow> int
     \<Rightarrow> approval_error + VerificationEvidence" where
  "local_bypass codec sha_text plan reason now =
     bind_r (ensure (pl_environment plan = ''local'') Not_Local_Environment) (\<lambda>_.
     bind_r (validate_text ''development bypass reason'' reason) (\<lambda>_.
     bind_r (ok_or Digest_Unavailable (executable_digest codec plan)) (\<lambda>hex.
     Inr \<lparr>ve_schema = approval_schema, ve_plan_id = pl_id plan, ve_plan_digest = ''sha256:'' @ hex,
       ve_environment = pl_environment plan, ve_signer_identity = ''unsigned-development'',
       ve_key_id = [], ve_policy_provider = ''builtin-local-development'',
       ve_policy_evidence_id = ''local-bypass:'' @ pl_id plan,
       ve_policy_digest = ''sha256:'' @ sha_text reason, ve_issued_at = now, ve_expires_at = now,
       ve_verified_at = now, ve_skip_gates = False, ve_bypass_reason = Some reason\<rparr>)))"

section \<open>The approvals behind an execution\<close>

text \<open>What an execution reads, in the order it reads it: trust roots and policy are read again at the
  end, so the second readings are fields of their own.\<close>

record execution_view =
  xv_roots :: "approval_error + TrustRoots"
  xv_envelopes :: "approval_error + ApprovalEnvelope list"
  xv_policy :: "approval_error + ApprovalPolicy option"
  xv_criticality :: "approval_error + CriticalityLevel option"
  xv_auto_policy :: "approval_error + ApprovalPolicy option"
  xv_signer_key_id :: "ApprovalPolicy \<Rightarrow> approval_error + string option"
  xv_policy_digest :: "ApprovalPolicy \<Rightarrow> approval_error + string"
  xv_signals :: "approval_error + DeliverySignals"
  xv_auto_criticality :: "approval_error + CriticalityLevel option"
  xv_final_roots :: "approval_error + TrustRoots"
  xv_auto_keys :: "(string list \<times> string option) list"
  xv_final_policy :: "approval_error + ApprovalPolicy option"
  xv_policy_path :: "approval_error + string option"
  xv_preflight :: "int \<Rightarrow> approval_error + unit"

definition verify_each ::
  "('k, 'z) crypto_scheme \<Rightarrow> (string \<Rightarrow> bool) \<Rightarrow> ('b, 'y) codec_scheme \<Rightarrow> Plan \<Rightarrow> TrustRoots \<Rightarrow> int
     \<Rightarrow> bool \<Rightarrow> ApprovalEnvelope list \<Rightarrow> (ApprovalEnvelope \<times> VerificationEvidence) list" where
  "verify_each c revoked codec plan roots now skip_gates envelopes =
     concat (map (\<lambda>e. case verify_envelope c revoked codec plan e roots now skip_gates of
        Inr ev \<Rightarrow> [(e, ev)] | Inl _ \<Rightarrow> []) envelopes)"

definition last_error ::
  "('k, 'z) crypto_scheme \<Rightarrow> (string \<Rightarrow> bool) \<Rightarrow> ('b, 'y) codec_scheme \<Rightarrow> Plan \<Rightarrow> TrustRoots \<Rightarrow> int
     \<Rightarrow> bool \<Rightarrow> ApprovalEnvelope list \<Rightarrow> approval_error" where
  "last_error c revoked codec plan roots now skip_gates envelopes =
     fold (\<lambda>e err. case verify_envelope c revoked codec plan e roots now skip_gates of
        Inr _ \<Rightarrow> err | Inl x \<Rightarrow> x) envelopes Approval_Missing"

fun unique_by_key ::
  "string btree_set \<Rightarrow> (ApprovalEnvelope \<times> 'v) list \<Rightarrow> (ApprovalEnvelope \<times> 'v) list" where
  "unique_by_key seen [] = []"
| "unique_by_key seen (item # items) =
     (if ae_key_id (fst item) \<in> set seen then unique_by_key seen items
      else item # unique_by_key (bs_insert (ae_key_id (fst item)) seen) items)"

definition counted_candidate ::
  "TrustRoots \<Rightarrow> ApprovalEnvelope \<times> 'v \<Rightarrow> CountedApproval list" where
  "counted_candidate roots item = (case roots_signer roots (ae_key_id (fst item)) of
     Inl _ \<Rightarrow> []
   | Inr signer \<Rightarrow> [\<lparr>ca_key_id = ae_key_id (fst item), ca_identity = ts_identity signer,
       ca_groups = ts_groups signer,
       ca_auto = (as_policy_provider (ae_statement (fst item)) = policy_provider)\<rparr>])"

definition refuse_unscoped_host_automatic_key ::
  "(string list \<times> string option) list \<Rightarrow> string \<Rightarrow> TrustedSigner \<Rightarrow> approval_error + unit" where
  "refuse_unscoped_host_automatic_key environments kid signer =
     (if ts_environments signer \<noteq> [] \<and> ts_providers signer = [policy_provider] then Inr ()
      else try_all (\<lambda>(known_keys, live_key).
             ensure (\<not> (kid \<in> set known_keys \<or> live_key = Some kid)) (Host_Automatic_Key kid))
           environments)"

definition check_automatic ::
  "execution_view \<Rightarrow> Plan \<Rightarrow> bool \<Rightarrow> VerificationEvidence \<Rightarrow> approval_error + unit" where
  "check_automatic view plan skip_gates evidence =
     (if ve_policy_provider evidence \<noteq> policy_provider then Inr ()
      else bind_r (xv_auto_policy view) (\<lambda>found.
           bind_r (ok_or No_Live_Policy found) (\<lambda>policy.
           bind_r (if ap_mode policy \<noteq> Auto then Inl Automatic_Not_Authorized
                   else bind_r (xv_signer_key_id view policy)
                     (\<lambda>kid. ensure (kid = Some (ve_key_id evidence)) Automatic_Not_Authorized)) (\<lambda>_.
           bind_r (xv_policy_digest view policy) (\<lambda>digest.
           bind_r (ensure (ve_policy_digest evidence = digest) Policy_Digest_Changed) (\<lambda>_.
           bind_r (xv_signals view) (\<lambda>signals.
           bind_r (xv_auto_criticality view) (\<lambda>criticality.
             (case policy_evaluate policy plan skip_gates signals criticality of
                Decision_Auto _ \<Rightarrow> Inr ()
              | RequireHuman _ \<Rightarrow> Inl Human_Required)))))))))"

definition check_final ::
  "execution_view \<Rightarrow> QuorumTally \<Rightarrow> approval_error + unit" where
  "check_final view tally =
     bind_r (xv_final_roots view) (\<lambda>roots.
     bind_r (try_all (\<lambda>counted. bind_r (roots_signer roots (ca_key_id counted))
         (refuse_unscoped_host_automatic_key (xv_auto_keys view) (ca_key_id counted)))
         (qt_counted tally)) (\<lambda>_.
     bind_r (xv_final_policy view) (\<lambda>policy.
     bind_r (if policy = None
             then bind_r (xv_policy_path view)
               (\<lambda>path. case path of None \<Rightarrow> Inr () | Some p \<Rightarrow> Inl (Policy_Unavailable p))
             else Inr ()) (\<lambda>_.
       (case policy of
          None \<Rightarrow> Inr ()
        | Some p \<Rightarrow> (case ap_require_preflight p of
            None \<Rightarrow> Inr ()
          | Some max_age \<Rightarrow> xv_preflight view max_age))))))"

definition execution_rule :: "Plan \<Rightarrow> bool \<Rightarrow> ApprovalPolicy option \<Rightarrow> CriticalityLevel option \<Rightarrow> QuorumRule" where
  "execution_rule plan skip_gates policy criticality =
     (case policy of
        Some p \<Rightarrow> quorum_rule p (quorum_purpose plan skip_gates) criticality
      | None \<Rightarrow> default_quorum (quorum_purpose plan skip_gates))"

definition verify_for_execution_named ::
  "('k, 'z) crypto_scheme \<Rightarrow> (string \<Rightarrow> bool) \<Rightarrow> ('b, 'y) codec_scheme \<Rightarrow> execution_view \<Rightarrow> Plan
     \<Rightarrow> int \<Rightarrow> bool \<Rightarrow> string option \<Rightarrow> approval_error + VerificationEvidence" where
  "verify_for_execution_named c revoked codec view plan now skip_gates requester =
     bind_r (xv_roots view) (\<lambda>roots.
     bind_r (xv_envelopes view) (\<lambda>envelopes.
     bind_r (ensure (envelopes \<noteq> []) Approval_Missing) (\<lambda>_.
     let verified = verify_each c revoked codec plan roots now skip_gates envelopes in
     bind_r (ensure (verified \<noteq> []) (last_error c revoked codec plan roots now skip_gates envelopes)) (\<lambda>_.
     let unique = unique_by_key [] verified in
     bind_r (xv_policy view) (\<lambda>policy.
     bind_r (xv_criticality view) (\<lambda>criticality.
     let rule = execution_rule plan skip_gates policy criticality in
     bind_r (ensure (\<not> (qr_exclude_requester rule \<and> requester = None)) Requester_Unknown) (\<lambda>_.
     let tally = count_quorum rule (concat (map (counted_candidate roots) unique)) requester in
     bind_r (ensure (qt_missing tally = 0) (Quorum_Not_Met (qt_missing tally))) (\<lambda>_.
     bind_r (ok_or Approval_Missing
         (find (\<lambda>item. ae_key_id (fst item) \<in> ca_key_id ` set (qt_counted tally)) unique)) (\<lambda>item.
     bind_r (check_automatic view plan skip_gates (snd item)) (\<lambda>_.
     bind_r (check_final view tally) (\<lambda>_. Inr (snd item))))))))))))"

section \<open>The host side's policy\<close>

record HostApprovalPolicy =
  hp_version :: u32
  hp_max_approval_ttl_ms :: "int option"
  hp_signers :: "TrustedSigner list"
  hp_quorum :: "QuorumRule list"

datatype host_policy_error =
    Host_Policy_Version
  | Host_Policy_Ttl
  | Host_Quorum_Zero
  | Host_Quorum_Requester QuorumPurpose
  | Host_Quorum_Criticality string
  | Host_Quorum_Duplicated QuorumPurpose
  | Host_Quorum_Group ontology_error
  | Host_Signer_Automatic string
  | Host_Signer_Roots approval_error

definition host_trust_roots :: "HostApprovalPolicy \<Rightarrow> TrustRoots" where
  "host_trust_roots p = \<lparr>tr_version = 1, tr_signers = hp_signers p\<rparr>"

definition validate_host_rule ::
  "(QuorumPurpose \<times> string option) list \<Rightarrow> QuorumRule
     \<Rightarrow> host_policy_error + (QuorumPurpose \<times> string option) list" where
  "validate_host_rule seen rule =
     bind_r (ensure (qr_n rule \<noteq> 0) Host_Quorum_Zero) (\<lambda>_.
     bind_r (ensure (\<not> qr_exclude_requester rule) (Host_Quorum_Requester (qr_purpose rule))) (\<lambda>_.
     bind_r (case qr_min_criticality rule of
         None \<Rightarrow> Inr ()
       | Some text \<Rightarrow> ensure (criticality_parse text \<noteq> None) (Host_Quorum_Criticality text)) (\<lambda>_.
     bind_r (ensure (rule_key rule \<notin> set seen) (Host_Quorum_Duplicated (qr_purpose rule))) (\<lambda>_.
     bind_r (map_err Host_Quorum_Group (try_all (validate_identifier ''quorum group'') (qr_groups rule)))
       (\<lambda>_. Inr (rule_key rule # seen))))))"

definition validate_host_policy ::
  "('k, 'z) crypto_scheme \<Rightarrow> HostApprovalPolicy \<Rightarrow> host_policy_error + unit" where
  "validate_host_policy c policy =
     bind_r (ensure (hp_version policy = 1) Host_Policy_Version) (\<lambda>_.
     bind_r (ensure (case hp_max_approval_ttl_ms policy of None \<Rightarrow> True | Some ttl \<Rightarrow> 0 < ttl)
         Host_Policy_Ttl) (\<lambda>_.
     bind_r (try_fold validate_host_rule [] (hp_quorum policy)) (\<lambda>_.
     bind_r (try_all (\<lambda>signer. ensure (\<not> list_ex (\<lambda>p. p = policy_provider \<or> p = preflight_provider)
         (ts_providers signer)) (Host_Signer_Automatic (ts_identity signer))) (hp_signers policy)) (\<lambda>_.
       map_err Host_Signer_Roots (validate_roots c (host_trust_roots policy))))))"

definition host_candidate :: "TrustRoots \<Rightarrow> ApprovalEnvelope \<Rightarrow> VerificationEvidence \<Rightarrow> Candidate" where
  "host_candidate roots envelope evidence =
     (let signer = (case roots_signer roots (ae_key_id envelope) of Inl _ \<Rightarrow> None | Inr s \<Rightarrow> Some s) in
      \<lparr>cd_approval = \<lparr>ca_key_id = ve_key_id evidence, ca_identity = ve_signer_identity evidence,
         ca_groups = (case signer of None \<Rightarrow> [] | Some s \<Rightarrow> ts_groups s), ca_auto = False\<rparr>,
       cd_valid_until = min (as_expires_at (ae_statement envelope))
         (case (case signer of None \<Rightarrow> None | Some s \<Rightarrow> ts_not_after s) of
            None \<Rightarrow> i64_max
          | Some not_after \<Rightarrow> i64_saturating_add not_after 1)\<rparr>)"

definition host_evaluate_one ::
  "('k, 'z) crypto_scheme \<Rightarrow> (string \<Rightarrow> bool) \<Rightarrow> ('b, 'y) codec_scheme \<Rightarrow> (approval_error \<Rightarrow> string)
     \<Rightarrow> HostApprovalPolicy \<Rightarrow> Plan \<Rightarrow> int \<Rightarrow> ApprovalEnvelope
     \<Rightarrow> Candidate list \<times> string list \<Rightarrow> Candidate list \<times> string list" where
  "host_evaluate_one c revoked codec describe policy plan now envelope acc =
     (case acc of (candidates, rejected) \<Rightarrow>
      let statement = ae_statement envelope in
      if as_policy_provider statement = policy_provider
      then (candidates, rejected
             @ [ae_key_id envelope @ '': automatic approvals never authorize host steps''])
      else if (case hp_max_approval_ttl_ms policy of
                 None \<Rightarrow> False
               | Some ttl \<Rightarrow> ttl < i64_saturating_sub (as_expires_at statement) (as_issued_at statement))
      then (candidates, rejected @ [ae_key_id envelope
             @ '': approval lifetime exceeds the host policy'' @ [CHR 0x27] @ ''s max_approval_ttl_ms''])
      else (case verify_envelope c revoked codec plan envelope (host_trust_roots policy) now
                  (as_skip_gates statement) of
              Inr evidence \<Rightarrow>
                (candidates @ [host_candidate (host_trust_roots policy) envelope evidence], rejected)
            | Inl e \<Rightarrow> (candidates, rejected @ [ae_key_id envelope @ '': '' @ describe e])))"

definition host_evaluate ::
  "('k, 'z) crypto_scheme \<Rightarrow> (string \<Rightarrow> bool) \<Rightarrow> ('b, 'y) codec_scheme \<Rightarrow> (approval_error \<Rightarrow> string)
     \<Rightarrow> HostApprovalPolicy \<Rightarrow> Plan \<Rightarrow> ApprovalEnvelope list \<Rightarrow> int \<Rightarrow> HostApprovals" where
  "host_evaluate c revoked codec describe policy plan envelopes now =
     (case fold (host_evaluate_one c revoked codec describe policy plan now) envelopes ([], []) of
        (candidates, rejected) \<Rightarrow>
          \<lparr>ha_rules = policy_rules (hp_quorum policy), ha_candidates = candidates,
           ha_rejected = rejected\<rparr>)"

section \<open>Sample approvals\<close>

definition demo_crypto :: "string crypto" where
  "demo_crypto = \<lparr>base64_decode = Some, sha256_digest = (\<lambda>b. replicate 64 (hd (b @ ''a''))),
     ed_from_bytes = Some, ed_is_weak = (\<lambda>_. False),
     ed_verify_strict = (\<lambda>key message sig. hd sig = hd key)\<rparr>"

definition demo_content_codec :: "Plan \<Rightarrow> bool codec" where
  "demo_content_codec plan = \<lparr>encode_content = (\<lambda>_. None),
     encode_executable = (\<lambda>x. if x = executable_content plan then Some True else None),
     sha256_hex = (\<lambda>b. replicate 64 (if b then CHR ''a'' else CHR ''b''))\<rparr>"

definition demo_signer :: "char \<Rightarrow> string \<Rightarrow> TrustedSigner" where
  "demo_signer k identity = \<lparr>ts_key_id = ''sha256:'' @ replicate 64 k, ts_identity = identity,
     ts_public_key = replicate 32 k, ts_environments = [], ts_providers = [], ts_groups = [],
     ts_not_before = None, ts_not_after = None\<rparr>"

definition demo_roots :: TrustRoots where
  "demo_roots = \<lparr>tr_version = 1, tr_signers = [demo_signer CHR ''c'' ''ana'', demo_signer CHR ''d'' ''bo'']\<rparr>"

definition demo_statement :: ApprovalStatement where
  "demo_statement = \<lparr>as_plan_digest = ''sha256:'' @ replicate 64 CHR ''a'', as_environment = ''prod'',
     as_purpose = ''execute_plan'', as_skip_gates = False, as_issued_at = 10, as_expires_at = 20,
     as_policy_provider = ''ticket'', as_policy_evidence_id = ''T-1'',
     as_policy_digest = ''sha256:'' @ replicate 64 CHR ''b''\<rparr>"

definition demo_envelope :: "char \<Rightarrow> ApprovalEnvelope" where
  "demo_envelope k = \<lparr>ae_schema = approval_schema, ae_key_id = ''sha256:'' @ replicate 64 k,
     ae_statement = demo_statement, ae_signature = replicate 64 k\<rparr>"

definition demo_view :: execution_view where
  "demo_view = \<lparr>xv_roots = Inr demo_roots,
     xv_envelopes = Inr [demo_envelope CHR ''c'', demo_envelope CHR ''d''],
     xv_policy = Inr (Some (auto_policy\<lparr>ap_quorum := [(default_quorum ExecutePlan)\<lparr>qr_n := 2\<rparr>]\<rparr>)),
     xv_criticality = Inr None, xv_auto_policy = Inr None, xv_signer_key_id = (\<lambda>_. Inr None),
     xv_policy_digest = (\<lambda>_. Inr []), xv_signals = Inr no_signals, xv_auto_criticality = Inr None,
     xv_final_roots = Inr demo_roots, xv_auto_keys = [], xv_final_policy = Inr (Some auto_policy),
     xv_policy_path = Inr None, xv_preflight = (\<lambda>_. Inr ())\<rparr>"

section \<open>What a signature covers\<close>

lemma prefixed_digest_length: "validate_prefixed_digest label v = Inr () \<Longrightarrow> length v = 71"
  by (auto simp: validate_prefixed_digest_def result_simps strip_prefix_Some)

lemma text_length: "validate_text label v = Inr () \<Longrightarrow> length v \<le> 512"
  by (auto simp: validate_text_def result_simps)

lemma validate_statement_fits:
  assumes "validate_statement s = Inr ()"
  shows "as_purpose s = approval_purpose
    \<and> list_all frame_fits [as_plan_digest s, as_environment s, as_purpose s]
    \<and> list_all frame_fits [as_policy_provider s, as_policy_evidence_id s, as_policy_digest s]"
proof -
  from assms have v: "validate_prefixed_digest ''plan digest'' (as_plan_digest s) = Inr ()"
    "validate_text ''environment'' (as_environment s) = Inr ()" "as_purpose s = approval_purpose"
    "validate_text ''policy provider'' (as_policy_provider s) = Inr ()"
    "validate_text ''policy evidence id'' (as_policy_evidence_id s) = Inr ()"
    "validate_prefixed_digest ''policy digest'' (as_policy_digest s) = Inr ()"
    by (auto simp: validate_statement_def result_simps)
  have "length (as_purpose s) = 12" using v(3) by (simp add: approval_purpose_def)
  then show ?thesis
    using v(3) prefixed_digest_length [OF v(1)] text_length [OF v(2)] text_length [OF v(4)]
      text_length [OF v(5)] prefixed_digest_length [OF v(6)]
    by (simp add: frame_fits_def)
qed

lemma canonical_bytes_shape:
  assumes "canonical_bytes s = Inr b"
  shows "validate_statement s = Inr ()
    \<and> b = approval_domain @ concat (map frame_bytes [as_plan_digest s, as_environment s, as_purpose s])
        @ i64_be_bytes (as_issued_at s) @ i64_be_bytes (as_expires_at s)
        @ [char_of (if as_skip_gates s then 1 else 0 :: nat)]
        @ concat (map frame_bytes [as_policy_provider s, as_policy_evidence_id s, as_policy_digest s])"
  using assms unfolding canonical_bytes_def fold_push_len_prefixed Let_def bind_r_eq_Inr
  by (auto simp del: list.map)

lemma length_i64_be_bytes [simp]: "length (i64_be_bytes x) = 8"
  by (simp add: i64_be_bytes_def)

text \<open>A signature covers the whole statement: two approval statements that pass validation and
  encode to the same canonical bytes are equal, field by field, so no other plan, environment,
  lifetime, gate flag or policy can be read out of the signed bytes.\<close>

theorem approval_bytes_bind_statement:
  assumes s: "canonical_bytes s = Inr b" and t: "canonical_bytes t = Inr b"
    and times: "is_i64 (as_issued_at s)" "is_i64 (as_issued_at t)"
      "is_i64 (as_expires_at s)" "is_i64 (as_expires_at t)"
  shows "(s :: ApprovalStatement) = t"
proof -
  note vs = validate_statement_fits [OF conjunct1 [OF canonical_bytes_shape [OF s]]]
  note vt = validate_statement_fits [OF conjunct1 [OF canonical_bytes_shape [OF t]]]
  let ?head = "\<lambda>x. [as_plan_digest x, as_environment x, as_purpose x]"
  let ?tail = "\<lambda>x. [as_policy_provider x, as_policy_evidence_id x, as_policy_digest x]"
  let ?rest = "\<lambda>x. i64_be_bytes (as_issued_at x) @ i64_be_bytes (as_expires_at x)
      @ [char_of (if as_skip_gates x then 1 else 0 :: nat)] @ concat (map frame_bytes (?tail x))"
  have eq: "concat (map frame_bytes (?head s)) @ ?rest s = concat (map frame_bytes (?head t)) @ ?rest t"
    using canonical_bytes_shape [OF s] canonical_bytes_shape [OF t] by (metis same_append_eq)
  have fit: "list_all frame_fits (?head s)" "list_all frame_fits (?head t)"
    "list_all frame_fits (?tail s)" "list_all frame_fits (?tail t)"
    using vs vt by blast+
  have "?head s = ?head t \<and> ?rest s = ?rest t"
    by (rule framing.frames_cancel [OF _ fit(1,2) eq]) simp
  then have h: "?head s = ?head t" and r: "?rest s = ?rest t" by blast+
  from r have i: "i64_be_bytes (as_issued_at s) = i64_be_bytes (as_issued_at t)"
    and e: "i64_be_bytes (as_expires_at s) = i64_be_bytes (as_expires_at t)"
    and g: "as_skip_gates s = as_skip_gates t"
    and c: "concat (map frame_bytes (?tail s)) = concat (map frame_bytes (?tail t))"
    by (simp_all split: if_splits)
  have "?tail s = ?tail t \<and> ([] :: string) = []"
    by (rule framing.frames_cancel [OF _ fit(3,4)]) (simp, simp only: c append_Nil2)
  then show ?thesis
    using h g i64_be_bytes_inject [OF times(1,2) i] i64_be_bytes_inject [OF times(3,4) e]
    by (intro ApprovalStatement.equality) simp_all
qed

lemma demo_statement_bytes: "\<exists>b. canonical_bytes demo_statement = Inr b"
proof -
  have "validate_statement demo_statement = Inr ()" by code_simp
  then show ?thesis by (simp add: canonical_bytes_def Let_def)
qed

theorem approval_bytes_bind_statement_witness:
  "is_ok (canonical_bytes demo_statement)
   \<and> canonical_bytes demo_statement \<noteq> canonical_bytes (demo_statement\<lparr>as_skip_gates := True\<rparr>)"
proof
  obtain b where b: "canonical_bytes demo_statement = Inr b" using demo_statement_bytes by blast
  then show "is_ok (canonical_bytes demo_statement)" by simp
  show "canonical_bytes demo_statement \<noteq> canonical_bytes (demo_statement\<lparr>as_skip_gates := True\<rparr>)"
  proof
    assume "canonical_bytes demo_statement = canonical_bytes (demo_statement\<lparr>as_skip_gates := True\<rparr>)"
    with b have t: "canonical_bytes (demo_statement\<lparr>as_skip_gates := True\<rparr>) = Inr b" by simp
    have "demo_statement = demo_statement\<lparr>as_skip_gates := True\<rparr>"
      by (rule approval_bytes_bind_statement [OF b t])
        (simp_all add: demo_statement_def is_i64_def i64_min_def i64_max_def)
    then show False by (simp add: demo_statement_def)
  qed
qed

section \<open>What a verified execution rests on\<close>

lemma verify_envelope_digest:
  assumes "verify_envelope c revoked codec plan envelope roots now skip_gates = Inr ev"
  shows "map_option (\<lambda>hex. ''sha256:'' @ hex) (executable_digest codec plan)
      = Some (as_plan_digest (ae_statement envelope))
    \<and> as_environment (ae_statement envelope) = pl_environment plan
    \<and> as_skip_gates (ae_statement envelope) = skip_gates
    \<and> as_issued_at (ae_statement envelope) \<le> now \<and> now < as_expires_at (ae_statement envelope)"
  using assms unfolding verify_envelope_def Let_def bind_r_eq_Inr ensure_eq_Inr ok_or_eq_Inr by auto

lemma same_plan_digest:
  assumes "map_option (\<lambda>hex. ''sha256:'' @ hex) x = Some d" and "map_option (\<lambda>hex. ''sha256:'' @ hex) y = Some d"
  shows "\<exists>h. x = Some h \<and> y = Some (h :: string)"
proof -
  from assms obtain h k where "x = Some h" "y = Some k" "''sha256:'' @ h = ''sha256:'' @ k"
    by (simp only: map_option_eq_Some) metis
  then show ?thesis by simp
qed

lemma verify_envelope_signer:
  assumes "verify_envelope c revoked codec plan envelope roots now skip_gates = Inr ev"
  shows "\<exists>signer. roots_signer roots (ae_key_id envelope) = Inr signer \<and> \<not> revoked (ts_key_id signer)
    \<and> ve_signer_identity ev = ts_identity signer \<and> ve_key_id ev = ae_key_id envelope
    \<and> ve_policy_provider ev = as_policy_provider (ae_statement envelope)"
  using assms
  unfolding verify_envelope_def Let_def bind_r_eq_Inr ensure_eq_Inr ok_or_eq_Inr map_err_eq_Inr
    trusted_key_def
  by auto

definition envelope_supports ::
  "('k, 'z) crypto_scheme \<Rightarrow> (string \<Rightarrow> bool) \<Rightarrow> ('b, 'y) codec_scheme \<Rightarrow> Plan \<Rightarrow> TrustRoots \<Rightarrow> int
     \<Rightarrow> bool \<Rightarrow> ApprovalEnvelope list \<Rightarrow> CountedApproval \<Rightarrow> bool" where
  "envelope_supports c revoked codec plan roots now skip_gates envelopes a \<longleftrightarrow>
     (\<exists>e\<in>set envelopes. \<exists>ev. verify_envelope c revoked codec plan e roots now skip_gates = Inr ev
        \<and> ca_key_id a = ae_key_id e \<and> ca_identity a = ve_signer_identity ev
        \<and> ca_auto a = (as_policy_provider (ae_statement e) = policy_provider))"

lemma set_verify_each:
  "(e, ev) \<in> set (verify_each c revoked codec plan roots now skip_gates envelopes) \<longleftrightarrow>
     e \<in> set envelopes \<and> verify_envelope c revoked codec plan e roots now skip_gates = Inr ev"
  unfolding verify_each_def
  by (induction envelopes) (auto split: sum.splits)

lemma set_unique_by_key: "set (unique_by_key seen items) \<subseteq> set items"
  by (induction items arbitrary: seen) auto

lemma counted_candidate_supported:
  assumes "a \<in> set (concat (map (counted_candidate roots) (unique_by_key []
      (verify_each c revoked codec plan roots now skip_gates envelopes))))"
  shows "envelope_supports c revoked codec plan roots now skip_gates envelopes a"
proof -
  from assms obtain e ev where item: "(e, ev) \<in> set (unique_by_key []
      (verify_each c revoked codec plan roots now skip_gates envelopes))"
    and a: "a \<in> set (counted_candidate roots (e, ev))" by auto
  have ok: "e \<in> set envelopes" "verify_envelope c revoked codec plan e roots now skip_gates = Inr ev"
    using item set_unique_by_key [of "[]"] set_verify_each by blast+
  obtain signer where "roots_signer roots (ae_key_id e) = Inr signer"
    "ve_signer_identity ev = ts_identity signer" using verify_envelope_signer [OF ok(2)] by blast
  with a ok(2) show ?thesis
    unfolding envelope_supports_def
    by (intro bexI [OF _ ok(1)] exI [of _ ev]) (simp add: counted_candidate_def)
qed

lemma count_quorum_sound:
  assumes "qt_missing (count_quorum rule cs requester) = 0"
  shows "qr_n rule \<le> length (qt_counted (count_quorum rule cs requester))
    \<and> distinct_approvals (qt_counted (count_quorum rule cs requester))
    \<and> (\<forall>a\<in>set (qt_counted (count_quorum rule cs requester)). a \<in> set cs \<and> eligible rule requester a)"
proof -
  have m: "seen_matches [] [] []" by (simp add: seen_matches_def)
  have "count_ok rule requester (set cs) (count_loop rule requester cs [] [] [])"
    using count_loop_sound [OF m, of rule requester "set cs" cs]
    by (simp add: count_ok_def distinct_approvals_def)
  then show ?thesis using assms by (auto simp: count_quorum_def Let_def count_ok_def)
qed

lemma verify_for_execution_parts:
  assumes "verify_for_execution_named c revoked codec view plan now skip_gates requester = Inr ev"
  obtains roots envelopes policy criticality rule cs where
    "xv_roots view = Inr roots" "xv_envelopes view = Inr envelopes"
    "xv_policy view = Inr policy" "xv_criticality view = Inr criticality"
    "rule = execution_rule plan skip_gates policy criticality"
    "cs = concat (map (counted_candidate roots) (unique_by_key []
      (verify_each c revoked codec plan roots now skip_gates envelopes)))"
    "qt_missing (count_quorum rule cs requester) = 0"
    "check_automatic view plan skip_gates ev = Inr ()"
  using assms
  unfolding verify_for_execution_named_def Let_def bind_r_eq_Inr ensure_eq_Inr ok_or_eq_Inr
  by (elim exE conjE) (rule that [OF _ _ _ _ refl refl], simp_all)

lemma check_automatic_live:
  assumes "check_automatic view plan skip_gates ev = Inr ()" and "ve_policy_provider ev = policy_provider"
  shows "\<exists>policy signals criticality. xv_auto_policy view = Inr (Some policy)
    \<and> xv_signals view = Inr signals
    \<and> policy_evaluate policy plan skip_gates signals criticality = Decision_Auto ''auto''"
proof -
  have auto: "policy_evaluate p plan skip_gates s k = Decision_Auto x \<Longrightarrow> x = ''auto''" for p s k x
    by (auto simp: policy_evaluate_def split: if_splits option.splits)
  have "\<exists>policy signals criticality. xv_auto_policy view = Inr (Some policy)
      \<and> xv_signals view = Inr signals
      \<and> (case policy_evaluate policy plan skip_gates signals criticality of
            Decision_Auto _ \<Rightarrow> Inr () | RequireHuman _ \<Rightarrow> Inl Human_Required) = (Inr () :: approval_error + unit)"
    using assms(1)
    by (simp only: check_automatic_def assms(2) simp_thms if_False bind_r_eq_Inr ok_or_eq_Inr) blast
  then obtain policy signals criticality where p: "xv_auto_policy view = Inr (Some policy)"
      "xv_signals view = Inr signals"
    and d: "(case policy_evaluate policy plan skip_gates signals criticality of
            Decision_Auto _ \<Rightarrow> Inr () | RequireHuman _ \<Rightarrow> Inl Human_Required) = (Inr () :: approval_error + unit)"
    by blast
  obtain x where "policy_evaluate policy plan skip_gates signals criticality = Decision_Auto x"
    using d by (cases "policy_evaluate policy plan skip_gates signals criticality") simp_all
  with p auto show ?thesis by blast
qed


text \<open>C20. One approval authorizes one executable content: under an injective JSON encoding, two plans
  against which the same envelope verifies have the same executable content (plan id, environment,
  inputs, steps with their host generations) and the same gate flag, or SHA-256 collides.\<close>

theorem approval_authorizes_one_content:
  assumes json: "inj_on (encode_executable codec) {x. encode_executable codec x \<noteq> None}"
    and a: "verify_envelope c revoked codec plan envelope roots now skip_gates = Inr ev"
    and b: "verify_envelope c' revoked' codec plan' envelope roots' now' skip_gates' = Inr ev'"
  shows "skip_gates = skip_gates'
    \<and> (executable_content plan = executable_content plan' \<or> hash_collision codec)"
proof -
  obtain d where d: "executable_digest codec plan = Some d" "executable_digest codec plan' = Some d"
    using same_plan_digest [OF verify_envelope_digest [OF a, THEN conjunct1]
        verify_envelope_digest [OF b, THEN conjunct1]] by blast
  have "executable_content plan = executable_content plan' \<or> hash_collision codec"
    by (rule executable_digest_binds [OF json d])
  then show ?thesis using verify_envelope_digest [OF a] verify_envelope_digest [OF b] by blast
qed

lemma demo_envelope_verifies:
  assumes k: "k = CHR ''c'' \<or> k = CHR ''d''"
    and p: "executable_content p = executable_content (demo_plan [])"
  shows "is_ok (verify_envelope demo_crypto (\<lambda>_. False) (demo_content_codec (demo_plan [])) p
    (demo_envelope k) demo_roots 15 False)"
proof -
  let ?id = "if k = CHR ''c'' then ''ana'' else ''bo''"
  obtain b where b: "canonical_bytes demo_statement = Inr b" using demo_statement_bytes by blast
  have env: "pl_environment p = ''prod''"
    using arg_cong [OF p, of ec_environment] by (simp add: executable_content_def demo_plan_def)
  have dig: "executable_digest (demo_content_codec (demo_plan [])) p = Some (replicate 64 CHR ''a'')"
    by (simp add: executable_digest_def demo_content_codec_def p)
  have signer: "roots_signer demo_roots (''sha256:'' @ replicate 64 k) = Inr (demo_signer k ?id)"
    using k by (elim disjE) (simp, code_simp)+
  have key: "trusted_key demo_crypto (\<lambda>_. False) ''trusted signer public key''
      (ts_public_key (demo_signer k ?id)) (ts_key_id (demo_signer k ?id)) = Inr (replicate 32 k)"
    by (simp add: trusted_key_def well_formed_key_def decode_exact_def key_id_def verifying_key_def
        demo_crypto_def demo_signer_def ensure_def numeral_eq_Suc)
  have sig: "verify_strict demo_crypto (replicate 32 k) ''plan approval signature'' (replicate 64 k) b = Inr ()"
    by (simp add: verify_strict_def decode_exact_def demo_crypto_def ensure_def)
  have "ae_statement (demo_envelope k) = demo_statement" "ae_schema (demo_envelope k) = approval_schema"
    "ae_key_id (demo_envelope k) = ''sha256:'' @ replicate 64 k" "ae_signature (demo_envelope k) = replicate 64 k"
    by (simp_all add: demo_envelope_def)
  then show ?thesis
    unfolding verify_envelope_def Let_def
    by (simp only: signer key sig b dig env bind_r.simps ok_or.simps map_err.simps)
      (simp add: ensure_def demo_statement_def window_check_def ts_validity_def demo_signer_def
        preflight_provider_def policy_provider_def)
qed

theorem approval_authorizes_one_content_witness:
  "is_ok (verify_envelope demo_crypto (\<lambda>_. False) (demo_content_codec (demo_plan [])) (demo_plan [])
      (demo_envelope CHR ''c'') demo_roots 15 False)
   \<and> (executable_content (demo_plan []) = executable_content ((demo_plan [])\<lparr>pl_state := Blocked\<rparr>)
      \<or> hash_collision (demo_content_codec (demo_plan [])))"
proof -
  let ?c = "demo_content_codec (demo_plan [])"
  let ?v = "\<lambda>p. verify_envelope demo_crypto (\<lambda>_. False) ?c p (demo_envelope CHR ''c'') demo_roots 15 False"
  have ok: "is_ok (?v (demo_plan []))" "is_ok (?v ((demo_plan [])\<lparr>pl_state := Blocked\<rparr>))"
    by (rule demo_envelope_verifies; simp add: executable_content_def)+
  then obtain a b where ab: "?v (demo_plan []) = Inr a" "?v ((demo_plan [])\<lparr>pl_state := Blocked\<rparr>) = Inr b"
    by (auto simp: is_ok_iff)
  have inj: "inj_on (encode_executable ?c) {x. encode_executable ?c x \<noteq> None}"
    by (auto simp: inj_on_def demo_content_codec_def split: if_splits)
  show ?thesis using approval_authorizes_one_content [OF inj ab] ok(1) by blast
qed

text \<open>C3. Execution rests on a real quorum: when verification for execution succeeds, at least as many
  approvals as the selected rule asks for were counted, with distinct keys and distinct identities;
  each is eligible under the rule and backed by an envelope that verifies against the trust roots
  for exactly this plan now; and evidence of an automatic approval implies that the live policy
  still decides to approve the plan automatically.\<close>

theorem execution_requires_quorum:
  assumes run: "verify_for_execution_named c revoked codec view plan now skip_gates requester = Inr ev"
  shows "(\<exists>roots envelopes policy criticality counted.
      xv_roots view = Inr roots \<and> xv_envelopes view = Inr envelopes
      \<and> xv_policy view = Inr policy \<and> xv_criticality view = Inr criticality
      \<and> qr_n (execution_rule plan skip_gates policy criticality) \<le> length counted
      \<and> distinct_approvals counted
      \<and> list_all (eligible (execution_rule plan skip_gates policy criticality) requester) counted
      \<and> list_all (envelope_supports c revoked codec plan roots now skip_gates envelopes) counted)
    \<and> (ve_policy_provider ev = policy_provider \<longrightarrow>
        (\<exists>policy signals criticality. xv_auto_policy view = Inr (Some policy)
          \<and> xv_signals view = Inr signals
          \<and> policy_evaluate policy plan skip_gates signals criticality = Decision_Auto ''auto''))"
proof -
  from run obtain roots envelopes policy criticality rule cs where v:
    "xv_roots view = Inr roots" "xv_envelopes view = Inr envelopes"
    "xv_policy view = Inr policy" "xv_criticality view = Inr criticality"
    "rule = execution_rule plan skip_gates policy criticality"
    "cs = concat (map (counted_candidate roots) (unique_by_key []
      (verify_each c revoked codec plan roots now skip_gates envelopes)))"
    "qt_missing (count_quorum rule cs requester) = 0"
    and auto: "check_automatic view plan skip_gates ev = Inr ()"
    by (rule verify_for_execution_parts)
  let ?counted = "qt_counted (count_quorum rule cs requester)"
  note count = count_quorum_sound [OF v(7)]
  have "list_all (envelope_supports c revoked codec plan roots now skip_gates envelopes) ?counted"
    using count counted_candidate_supported [of _ roots c revoked codec plan now skip_gates envelopes]
    unfolding list_all_iff v(6) by blast
  moreover have "list_all (eligible rule requester) ?counted" using count by (simp add: list_all_iff)
  moreover note count check_automatic_live [OF auto]
  ultimately show ?thesis using v(1-5) by blast
qed

lemma demo_execution_verifies:
  "is_ok (verify_for_execution_named demo_crypto (\<lambda>_. False) (demo_content_codec (demo_plan []))
    demo_view (demo_plan []) 15 False None)"
proof -
  let ?v = "\<lambda>k. verify_envelope demo_crypto (\<lambda>_. False) (demo_content_codec (demo_plan []))
      (demo_plan []) (demo_envelope k) demo_roots 15 False"
  obtain a b where ab: "?v CHR ''c'' = Inr a" "?v CHR ''d'' = Inr b"
    using demo_envelope_verifies [of "CHR ''c''" "demo_plan []"]
      demo_envelope_verifies [of "CHR ''d''" "demo_plan []"] by (auto simp: is_ok_iff)
  have env: "ae_key_id (demo_envelope k) = ''sha256:'' @ replicate 64 k"
    "as_policy_provider (ae_statement (demo_envelope k)) = ''ticket''" for k
    by (simp_all add: demo_envelope_def demo_statement_def)
  have tick: "ve_policy_provider a = ''ticket''"
    using verify_envelope_signer [OF ab(1)] env(2) by metis
  let ?items = "[(demo_envelope CHR ''c'', a), (demo_envelope CHR ''d'', b)]"
  have each: "verify_each demo_crypto (\<lambda>_. False) (demo_content_codec (demo_plan [])) (demo_plan [])
      demo_roots 15 False [demo_envelope CHR ''c'', demo_envelope CHR ''d''] = ?items"
    by (simp add: verify_each_def ab)
  have keys: "ae_key_id (demo_envelope CHR ''c'') \<noteq> ae_key_id (demo_envelope CHR ''d'')"
    by (simp add: env numeral_eq_Suc)
  have uniq: "unique_by_key [] ?items = ?items" using keys by simp
  let ?rule = "execution_rule (demo_plan []) False
      (Some (auto_policy\<lparr>ap_quorum := [(default_quorum ExecutePlan)\<lparr>qr_n := 2\<rparr>]\<rparr>)) None"
  let ?c = "\<lambda>k i. \<lparr>ca_key_id = ''sha256:'' @ replicate 64 k, ca_identity = i, ca_groups = [], ca_auto = False\<rparr>"
  have cand: "counted_candidate demo_roots (demo_envelope CHR ''c'', a) = [?c CHR ''c'' ''ana'']"
    "counted_candidate demo_roots (demo_envelope CHR ''d'', b) = [?c CHR ''d'' ''bo'']"
    by code_simp+
  have cands: "concat (map (counted_candidate demo_roots) ?items) = [?c CHR ''c'' ''ana'', ?c CHR ''d'' ''bo'']"
    by (simp add: cand)
  have tally: "count_quorum ?rule [?c CHR ''c'' ''ana'', ?c CHR ''d'' ''bo''] None
      = \<lparr>qt_counted = [?c CHR ''c'' ''ana'', ?c CHR ''d'' ''bo''], qt_missing = 0\<rparr>"
    by code_simp
  have excl: "\<not> qr_exclude_requester ?rule" by code_simp
  have find: "find (\<lambda>item. ae_key_id (fst item) \<in> ca_key_id ` set [?c CHR ''c'' ''ana'', ?c CHR ''d'' ''bo''])
      ?items = Some (demo_envelope CHR ''c'', a)"
    by (simp add: env)
  have final: "check_final demo_view \<lparr>qt_counted = [?c CHR ''c'' ''ana'', ?c CHR ''d'' ''bo''], qt_missing = 0\<rparr>
      = Inr ()"
    by code_simp
  have auto: "check_automatic demo_view (demo_plan []) False a = Inr ()"
    by (simp add: check_automatic_def tick policy_provider_def)
  have view: "xv_roots demo_view = Inr demo_roots"
    "xv_envelopes demo_view = Inr [demo_envelope CHR ''c'', demo_envelope CHR ''d'']"
    "xv_policy demo_view = Inr (Some (auto_policy\<lparr>ap_quorum := [(default_quorum ExecutePlan)\<lparr>qr_n := 2\<rparr>]\<rparr>))"
    "xv_criticality demo_view = Inr None"
    by (simp_all add: demo_view_def)
  show ?thesis
    unfolding verify_for_execution_named_def Let_def view bind_r.simps each uniq cands tally QuorumTally.select_convs find ok_or.simps snd_conv auto final
    using excl by (simp add: ensure_def)
qed

theorem execution_requires_quorum_witness:
  "\<exists>counted. 2 \<le> length (counted :: CountedApproval list) \<and> distinct_approvals counted
    \<and> list_all (envelope_supports demo_crypto (\<lambda>_. False) (demo_content_codec (demo_plan []))
        (demo_plan []) demo_roots 15 False [demo_envelope CHR ''c'', demo_envelope CHR ''d'']) counted"
proof -
  obtain ev where run: "verify_for_execution_named demo_crypto (\<lambda>_. False)
      (demo_content_codec (demo_plan [])) demo_view (demo_plan []) 15 False None = Inr ev"
    using demo_execution_verifies by (auto simp: is_ok_iff)
  have "qr_n (execution_rule (demo_plan []) False
      (Some (auto_policy\<lparr>ap_quorum := [(default_quorum ExecutePlan)\<lparr>qr_n := 2\<rparr>]\<rparr>)) None) = 2"
    by code_simp
  with execution_requires_quorum [OF run] show ?thesis by (auto simp: demo_view_def)
qed

end
