(* ===== verification/Host_Apply.thy ===== *)
theory Host_Apply
  imports Plan_Approval
begin

text \<open>
  \<open>src/host_apply/state.rs\<close>, \<open>request.rs\<close> and \<open>verify.rs\<close>: the root-side applier's record of what is
  applied for one product, the admission of a verified step against it, the instance key both sides
  derive from a request, and everything the root side checks about a request before that.

  Parsing a manifest, hashing and the release signature are arguments (\<open>host_ports\<close>).
\<close>

record HostRelease =
  hr_version :: string
  hr_manifest_digest :: string

datatype AppliedState =
    Empty
  | Applied HostRelease
  | Dirty "HostRelease option" "HostRelease option"

datatype HostApplyOutcome = Outcome_Succeeded | Outcome_Failed | TimedOut | Stopped | Interrupted

record HostApplyStarted =
  sa_schema :: string
  sa_instance :: string
  sa_plan_id :: string
  sa_plan_digest :: string
  sa_step_id :: string
  sa_environment :: string
  sa_product :: string
  sa_action :: HostAction
  sa_release :: HostRelease
  sa_generation :: u64
  sa_started_at :: int
  sa_cgroup :: "string option"

record HostApplyResult =
  rs_schema :: string
  rs_instance :: string
  rs_environment :: string
  rs_product :: string
  rs_action :: HostAction
  rs_release_digest :: string
  rs_outcome :: HostApplyOutcome
  rs_exit_status :: "int option"
  rs_detail :: string
  rs_generation :: u64
  rs_started_at :: int
  rs_finished_at :: int

record AppliedStateRecord =
  ar_schema :: string
  ar_environment :: string
  ar_product :: string
  ar_generation :: u64
  ar_state :: AppliedState
  ar_high_water :: "HostRelease option"
  ar_last_started :: "HostApplyStarted option"
  ar_last_result :: "HostApplyResult option"

record VerifiedHostStep =
  vs_instance :: string
  vs_plan_id :: string
  vs_plan_digest :: string
  vs_environment :: string
  vs_product :: string
  vs_product_instance :: string
  vs_step_id :: string
  vs_step_action :: Action
  vs_action :: HostAction
  vs_expected_generation :: u64
  vs_from :: "string option"
  vs_release :: HostRelease
  vs_artifact_digest :: string
  vs_inputs :: "string list"
  vs_command :: string
  vs_signer_identity :: string
  vs_approvals :: HostApprovals
  vs_purposes :: "QuorumPurpose list"

definition outcome_succeeded :: "HostApplyOutcome \<Rightarrow> bool" where
  "outcome_succeeded o' = (o' = Outcome_Succeeded)"

definition started_result ::
  "HostApplyStarted \<Rightarrow> HostApplyOutcome \<Rightarrow> int option \<Rightarrow> string \<Rightarrow> int \<Rightarrow> HostApplyResult" where
  "started_result s outcome exit_status detail finished_at = \<lparr>
     rs_schema = ''tenkai.host-apply-result.v1'', rs_instance = sa_instance s,
     rs_environment = sa_environment s, rs_product = sa_product s, rs_action = sa_action s,
     rs_release_digest = hr_manifest_digest (sa_release s), rs_outcome = outcome,
     rs_exit_status = exit_status, rs_detail = detail, rs_generation = sa_generation s,
     rs_started_at = sa_started_at s, rs_finished_at = finished_at\<rparr>"

definition empty_record :: "string \<Rightarrow> string \<Rightarrow> AppliedStateRecord" where
  "empty_record environment product = \<lparr>
     ar_schema = ''tenkai.host-applied-state.v1'', ar_environment = environment, ar_product = product,
     ar_generation = 0, ar_state = Empty, ar_high_water = None, ar_last_started = None,
     ar_last_result = None\<rparr>"

section \<open>Admission against the record\<close>

datatype host_error =
    Record_Of_Another_Product
  | Generation_Mismatch u64 u64
  | Source_Mismatch "string option"
  | Not_The_Signed_Release string
  | Health_Needs_Applied
  | Not_Newer string string quorum_error
  | Generation_Overflow

definition is_newer :: "('v, 'z) semver_scheme \<Rightarrow> string \<Rightarrow> string \<Rightarrow> bool" where
  "is_newer sv candidate than = (case (sv_parse sv candidate, sv_parse sv than) of
     (Some a, Some b) \<Rightarrow> sv_prec_less sv b a
   | _ \<Rightarrow> False)"

fun source_candidates :: "AppliedState \<Rightarrow> HostRelease option list" where
  "source_candidates Empty = [None]"
| "source_candidates (Applied release) = [Some release]"
| "source_candidates (Dirty from to) = [from, to]"

definition record_source ::
  "AppliedStateRecord \<Rightarrow> string option \<Rightarrow> host_error + HostRelease option" where
  "record_source r from =
     ok_or (Source_Mismatch from)
       (find (\<lambda>candidate. map_option hr_version candidate = from) (source_candidates (ar_state r)))"

definition downgrade_purpose :: "Action \<Rightarrow> QuorumPurpose" where
  "downgrade_purpose step_action =
     (if step_action = Rollback then RollbackPurpose else DowngradePurpose)"

definition check_high_water ::
  "('v, 'z) semver_scheme \<Rightarrow> AppliedStateRecord \<Rightarrow> VerifiedHostStep \<Rightarrow> host_error + unit" where
  "check_high_water sv r step = (case ar_high_water r of
     None \<Rightarrow> Inr ()
   | Some high_water \<Rightarrow>
       (if vs_action step = HostInstall
           \<and> \<not> is_newer sv (hr_version (vs_release step)) (hr_version high_water)
        then map_err (Not_Newer (hr_version (vs_release step)) (hr_version high_water))
               (require_purpose (vs_approvals step) (downgrade_purpose (vs_step_action step)))
        else Inr ()))"

definition next_generation :: "HostAction \<Rightarrow> u64 \<Rightarrow> host_error + u64" where
  "next_generation action generation =
     (if action = HostHealth then Inr generation
      else ok_or Generation_Overflow (checked_succ generation))"

definition started_record ::
  "VerifiedHostStep \<Rightarrow> u64 \<Rightarrow> string option \<Rightarrow> int \<Rightarrow> HostApplyStarted" where
  "started_record step generation cgroup now_ms = \<lparr>
     sa_schema = ''tenkai.host-apply-started.v1'', sa_instance = vs_instance step,
     sa_plan_id = vs_plan_id step, sa_plan_digest = vs_plan_digest step, sa_step_id = vs_step_id step,
     sa_environment = vs_environment step, sa_product = vs_product step, sa_action = vs_action step,
     sa_release = vs_release step, sa_generation = generation, sa_started_at = now_ms,
     sa_cgroup = cgroup\<rparr>"

definition record_admit ::
  "('v, 'z) semver_scheme \<Rightarrow> AppliedStateRecord \<Rightarrow> VerifiedHostStep \<Rightarrow> string option \<Rightarrow> int
     \<Rightarrow> host_error + HostApplyStarted \<times> AppliedStateRecord" where
  "record_admit sv r step cgroup now_ms =
     bind_r (ensure (ar_environment r = vs_environment step \<and> ar_product r = vs_product step)
         Record_Of_Another_Product) (\<lambda>_.
     bind_r (ensure (vs_expected_generation step = ar_generation r)
         (Generation_Mismatch (vs_expected_generation step) (ar_generation r))) (\<lambda>_.
     bind_r (record_source r (vs_from step)) (\<lambda>source.
     bind_r (ensure (\<not> ((vs_action step = HostUninstall \<or> vs_action step = HostHealth)
           \<and> source \<noteq> Some (vs_release step)))
         (Not_The_Signed_Release (hr_version (vs_release step)))) (\<lambda>_.
     bind_r (ensure (\<not> (vs_action step = HostHealth \<and> ar_state r \<noteq> Applied (vs_release step)))
         Health_Needs_Applied) (\<lambda>_.
     bind_r (check_high_water sv r step) (\<lambda>_.
     bind_r (next_generation (vs_action step) (ar_generation r)) (\<lambda>generation.
     let started = started_record step generation cgroup now_ms;
         state = (if vs_action step = HostHealth then ar_state r
                  else Dirty source
                    (if vs_action step = HostInstall then Some (vs_release step) else None))
     in Inr (started, r\<lparr>ar_generation := generation, ar_state := state,
                        ar_last_started := Some started, ar_last_result := None\<rparr>))))))))"

definition raise_high_water ::
  "('v, 'z) semver_scheme \<Rightarrow> HostRelease \<Rightarrow> HostRelease option \<Rightarrow> HostRelease option" where
  "raise_high_water sv release mark = (case mark of
     None \<Rightarrow> Some release
   | Some high_water \<Rightarrow>
       (if is_newer sv (hr_version release) (hr_version high_water) then Some release else mark))"

definition record_complete ::
  "('v, 'z) semver_scheme \<Rightarrow> AppliedStateRecord \<Rightarrow> HostApplyStarted \<Rightarrow> HostApplyResult
     \<Rightarrow> AppliedStateRecord" where
  "record_complete sv r started result =
     (let next = (if outcome_succeeded (rs_outcome result) then
          (case sa_action started of
             HostInstall \<Rightarrow> r\<lparr>ar_state := Applied (sa_release started),
               ar_high_water := raise_high_water sv (sa_release started) (ar_high_water r)\<rparr>
           | HostUninstall \<Rightarrow> r\<lparr>ar_state := Empty\<rparr>
           | HostHealth \<Rightarrow> r)
        else r)
      in next\<lparr>ar_last_result := Some result\<rparr>)"

section \<open>Requests\<close>

record SignatureEnvelope =
  se_manifest_digest :: string
  se_artifact_digest :: string
  se_signature :: string

record HostApplyRequest =
  rq_schema :: string
  rq_plan :: Plan
  rq_step_id :: string
  rq_action :: HostAction
  rq_manifest :: string
  rq_signature :: SignatureEnvelope
  rq_approvals :: "ApprovalEnvelope list"

record HostManifest =
  hm_product :: string
  hm_version :: string
  hm_kind :: ProductKind
  hm_host_executor :: bool
  hm_has_artifacts :: bool
  hm_install :: string
  hm_uninstall :: "string option"
  hm_health :: "string option"
  hm_inputs :: "string list"

record host_ports =
  hq_parse_manifest :: "string \<Rightarrow> HostManifest option"
  hq_manifest_digest :: "string \<Rightarrow> string"
  hq_authenticate_at :: "SignatureEnvelope \<Rightarrow> int \<Rightarrow> string option"
  hq_evaluate :: "Plan \<Rightarrow> ApprovalEnvelope list \<Rightarrow> int \<Rightarrow> HostApprovals"

definition instance_domain :: bytes where
  "instance_domain = ''TENKAI-HOST-APPLY-INSTANCE-V1'' @ [char_of (0 :: nat)]"

definition instance_bytes :: "string \<Rightarrow> string \<Rightarrow> HostAction \<Rightarrow> bytes" where
  "instance_bytes plan_digest step_id action =
     fold (\<lambda>v out. push_len_prefixed out v) [plan_digest, step_id, host_action_as_str action]
       instance_domain"

definition instance_key ::
  "('k, 'z) crypto_scheme \<Rightarrow> string \<Rightarrow> string \<Rightarrow> HostAction \<Rightarrow> string" where
  "instance_key c plan_digest step_id action =
     sha256_digest c (instance_bytes plan_digest step_id action)"

definition validate_host_instance :: "string \<Rightarrow> format_error + unit" where
  "validate_host_instance inst = validate_hex_digest ''host apply instance'' inst"

definition product_key :: "('k, 'z) crypto_scheme \<Rightarrow> string \<Rightarrow> string \<Rightarrow> string" where
  "product_key c environment product = sha256_digest c (environment @ char_of (0 :: nat) # product)"

definition request_plan_digest :: "('b, 'y) codec_scheme \<Rightarrow> HostApplyRequest \<Rightarrow> string option" where
  "request_plan_digest codec q =
     map_option (\<lambda>hex. ''sha256:'' @ hex) (executable_digest codec (rq_plan q))"

definition request_instance ::
  "('k, 'z) crypto_scheme \<Rightarrow> ('b, 'y) codec_scheme \<Rightarrow> HostApplyRequest \<Rightarrow> string option" where
  "request_instance c codec q =
     map_option (\<lambda>d. instance_key c d (rq_step_id q) (rq_action q)) (request_plan_digest codec q)"

datatype verify_error =
    Instance_Format format_error
  | Plan_Format u32
  | Request_Identifier ontology_error
  | Request_Digest
  | Instance_Mismatch string string
  | No_Such_Step string
  | Not_A_Host_Step string
  | Authorizes_Another_Action HostAction
  | Manifest_Invalid
  | Not_Software
  | Not_Host_Executor
  | Has_Oci_Artifacts
  | Manifest_Of_Another_Step
  | Not_The_Installed_Release
  | No_Command HostAction
  | Signature_Not_Authentic
  | Manifest_Digest_Mismatch
  | Artifact_Digest_Mismatch
  | Not_Approved quorum_error
  | Copied_Artifacts_Changed

definition host_command :: "HostManifest \<Rightarrow> HostAction \<Rightarrow> string option" where
  "host_command m action = (case (case action of
       HostInstall \<Rightarrow> Some (hm_install m)
     | HostUninstall \<Rightarrow> hm_uninstall m
     | HostHealth \<Rightarrow> hm_health m) of
     None \<Rightarrow> None
   | Some command \<Rightarrow> if trim command = [] then None else Some command)"

definition verify_request ::
  "('k, 'z) crypto_scheme \<Rightarrow> ('b, 'y) codec_scheme \<Rightarrow> host_ports \<Rightarrow> HostApplyRequest \<Rightarrow> string
     \<Rightarrow> int \<Rightarrow> verify_error + VerifiedHostStep" where
  "verify_request c codec ports q inst now_ms =
     (let plan = rq_plan q in
     bind_r (map_err Instance_Format (validate_host_instance inst)) (\<lambda>_.
     bind_r (ensure (pl_format_version plan = plan_format_version) (Plan_Format (pl_format_version plan))) (\<lambda>_.
     bind_r (map_err Request_Identifier (validate_identifier ''environment'' (pl_environment plan))) (\<lambda>_.
     bind_r (ok_or Request_Digest (request_plan_digest codec q)) (\<lambda>plan_digest.
     bind_r (ok_or Request_Digest (request_instance c codec q)) (\<lambda>expected.
     bind_r (ensure (inst = expected) (Instance_Mismatch inst expected)) (\<lambda>_.
     bind_r (ok_or (No_Such_Step (rq_step_id q))
         (find (\<lambda>s. st_id s = rq_step_id q) (pl_steps plan))) (\<lambda>step.
     bind_r (ok_or (Not_A_Host_Step (st_id step)) (st_host step)) (\<lambda>host.
     bind_r (ensure (hs_action host = rq_action q) (Authorizes_Another_Action (hs_action host))) (\<lambda>_.
     bind_r (ok_or Manifest_Invalid (hq_parse_manifest ports (rq_manifest q))) (\<lambda>manifest.
     bind_r (ensure (policy_target (hm_kind manifest) = Target_Software) Not_Software) (\<lambda>_.
     bind_r (ensure (hm_host_executor manifest) Not_Host_Executor) (\<lambda>_.
     bind_r (ensure (\<not> hm_has_artifacts manifest) Has_Oci_Artifacts) (\<lambda>_.
     bind_r (map_err Request_Identifier (validate_identifier ''product'' (hm_product manifest))) (\<lambda>_.
     bind_r (ensure (st_product step = hm_product manifest \<and> st_to step = hm_version manifest
         \<and> st_release_id step = release_id (hm_product manifest) (hm_version manifest))
         Manifest_Of_Another_Step) (\<lambda>_.
     bind_r (ensure (\<not> ((hs_action host = HostUninstall \<or> hs_action host = HostHealth)
         \<and> st_from step \<noteq> Some (hm_version manifest))) Not_The_Installed_Release) (\<lambda>_.
     bind_r (ok_or (No_Command (hs_action host)) (host_command manifest (hs_action host))) (\<lambda>command.
     bind_r (ok_or Signature_Not_Authentic (hq_authenticate_at ports (rq_signature q) now_ms)) (\<lambda>signer.
     let manifest_digest = hq_manifest_digest ports (rq_manifest q) in
     bind_r (ensure (se_manifest_digest (rq_signature q) = manifest_digest
         \<and> st_release_digest step = manifest_digest) Manifest_Digest_Mismatch) (\<lambda>_.
     bind_r (ensure (se_artifact_digest (rq_signature q) = st_artifact_digest step)
         Artifact_Digest_Mismatch) (\<lambda>_.
     let approvals = hq_evaluate ports plan (rq_approvals q) now_ms;
         purposes = plan_purposes plan in
     bind_r (map_err Not_Approved (require_all approvals purposes)) (\<lambda>_.
     Inr \<lparr>vs_instance = inst, vs_plan_id = pl_id plan, vs_plan_digest = plan_digest,
       vs_environment = pl_environment plan, vs_product = hm_product manifest,
       vs_product_instance = step_instance_name step, vs_step_id = st_id step,
       vs_step_action = st_action step, vs_action = hs_action host,
       vs_expected_generation = hs_expected_generation host, vs_from = st_from step,
       vs_release = \<lparr>hr_version = hm_version manifest, hr_manifest_digest = manifest_digest\<rparr>,
       vs_artifact_digest = st_artifact_digest step, vs_inputs = hm_inputs manifest,
       vs_command = command, vs_signer_identity = signer, vs_approvals = approvals,
       vs_purposes = purposes\<rparr>))))))))))))))))))))))"

definition verify_artifacts ::
  "VerifiedHostStep \<Rightarrow> string option \<Rightarrow> verify_error + unit" where
  "verify_artifacts step copied = ensure (copied = Some (vs_artifact_digest step)) Copied_Artifacts_Changed"

definition verify_copied_request ::
  "('k, 'z) crypto_scheme \<Rightarrow> ('b, 'y) codec_scheme \<Rightarrow> host_ports \<Rightarrow> HostApplyRequest \<Rightarrow> string
     \<Rightarrow> string option \<Rightarrow> int \<Rightarrow> verify_error + VerifiedHostStep" where
  "verify_copied_request c codec ports q inst copied now_ms =
     bind_r (verify_request c codec ports q inst now_ms) (\<lambda>verified.
     bind_r (verify_artifacts verified copied) (\<lambda>_. Inr verified))"

section \<open>Sample request\<close>

definition demo_request_step :: Step where
  "demo_request_step = (demo_step ''s1'')\<lparr>st_product := ''web'', st_to := ''1.2.0'',
     st_release_id := release_id ''web'' ''1.2.0'', st_release_digest := ''sha256:m'',
     st_artifact_digest := ''sha256:f'',
     st_host := Some \<lparr>hs_action = HostInstall, hs_expected_generation = 4\<rparr>\<rparr>"

definition demo_request :: HostApplyRequest where
  "demo_request = \<lparr>rq_schema = ''tenkai.host-apply-request.v1'', rq_plan = demo_plan [demo_request_step],
     rq_step_id = ''s1'', rq_action = HostInstall, rq_manifest = ''manifest'',
     rq_signature = \<lparr>se_manifest_digest = ''sha256:m'', se_artifact_digest = ''sha256:f'',
       se_signature = ''sig''\<rparr>, rq_approvals = []\<rparr>"

definition demo_host_ports :: host_ports where
  "demo_host_ports = \<lparr>
     hq_parse_manifest = (\<lambda>_. Some \<lparr>hm_product = ''web'', hm_version = ''1.2.0'', hm_kind = Software,
       hm_host_executor = True, hm_has_artifacts = False, hm_install = ''install'',
       hm_uninstall = None, hm_health = None, hm_inputs = []\<rparr>),
     hq_manifest_digest = (\<lambda>_. ''sha256:m''),
     hq_authenticate_at = (\<lambda>_ now. if now < 1000 then Some ''ana'' else None),
     hq_evaluate = (\<lambda>_ _ _. \<lparr>ha_rules = (\<lambda>p. [default_quorum p]),
       ha_candidates = [\<lparr>cd_approval = \<lparr>ca_key_id = ''k1'', ca_identity = ''ana'', ca_groups = [],
         ca_auto = False\<rparr>, cd_valid_until = 1000\<rparr>], ha_rejected = []\<rparr>)\<rparr>"

definition demo_instance_crypto :: "string crypto" where
  "demo_instance_crypto = demo_crypto\<lparr>sha256_digest := (\<lambda>_. replicate 64 CHR ''a'')\<rparr>"

section \<open>What an instance names\<close>

definition digest_collision :: "('k, 'z) crypto_scheme \<Rightarrow> bool" where
  "digest_collision c \<longleftrightarrow> (\<exists>x y. x \<noteq> y \<and> sha256_digest c x = sha256_digest c y)"

lemma instance_bytes_frames:
  "instance_bytes d s a = instance_domain @ concat (map frame_bytes [d, s, host_action_as_str a])"
  by (simp add: instance_bytes_def frame_bytes_def push_len_prefixed_def)

lemma host_action_as_str_inject: "host_action_as_str a = host_action_as_str b \<Longrightarrow> a = b"
  by (cases a; cases b; simp)

lemma instance_key_binds:
  assumes "instance_key c d s a = instance_key c d' s' a'"
    and "list_all frame_fits [d, s, d', s']"
  shows "d = d' \<and> s = s' \<and> a = a' \<or> digest_collision c"
proof (cases "instance_bytes d s a = instance_bytes d' s' a'")
  case True
  have fit: "frame_fits (host_action_as_str x)" for x by (cases x) (simp_all add: frame_fits_def)
  have "[d, s, host_action_as_str a] = [d', s', host_action_as_str a'] \<and> ([] :: bytes) = []"
    by (rule framing.frames_cancel) (use True assms(2) fit in \<open>simp_all add: instance_bytes_frames\<close>)
  then show ?thesis by (auto dest: host_action_as_str_inject)
next
  case False
  then show ?thesis using assms(1) by (auto simp: digest_collision_def instance_key_def)
qed

lemma verify_request_facts:
  assumes "verify_request c codec ports q inst now = Inr v"
  obtains d step host manifest where
    "request_plan_digest codec q = Some d" "inst = instance_key c d (rq_step_id q) (rq_action q)"
    "find (\<lambda>s. st_id s = rq_step_id q) (pl_steps (rq_plan q)) = Some step" "st_host step = Some host"
    "hs_action host = rq_action q" "hq_parse_manifest ports (rq_manifest q) = Some manifest"
    "st_product step = hm_product manifest"
    "st_release_digest step = hq_manifest_digest ports (rq_manifest q)"
    "require_all (vs_approvals v) (plan_purposes (rq_plan q)) = Inr ()"
    "vs_approvals v = hq_evaluate ports (rq_plan q) (rq_approvals q) now"
    "vs_purposes v = plan_purposes (rq_plan q)"
    "vs_instance v = inst" "vs_environment v = pl_environment (rq_plan q)"
    "vs_product v = hm_product manifest" "vs_step_id v = st_id step" "vs_plan_digest v = d"
    "vs_action v = hs_action host" "vs_expected_generation v = hs_expected_generation host"
    "hr_manifest_digest (vs_release v) = st_release_digest step" "hr_version (vs_release v) = st_to step"
    "vs_artifact_digest v = st_artifact_digest step"
proof -
  obtain d key step host manifest command signer u where
    f: "request_plan_digest codec q = Some d"
      "map_option (\<lambda>d. instance_key c d (rq_step_id q) (rq_action q)) (request_plan_digest codec q) = Some key"
      "inst = key" "find (\<lambda>s. st_id s = rq_step_id q) (pl_steps (rq_plan q)) = Some step"
      "st_host step = Some host" "hs_action host = rq_action q"
      "hq_parse_manifest ports (rq_manifest q) = Some manifest" "st_product step = hm_product manifest"
      "st_to step = hm_version manifest"
      "st_release_digest step = hq_manifest_digest ports (rq_manifest q)"
      "require_all (hq_evaluate ports (rq_plan q) (rq_approvals q) now) (plan_purposes (rq_plan q)) = Inr u"
    and v: "Inr \<lparr>vs_instance = inst, vs_plan_id = pl_id (rq_plan q), vs_plan_digest = d,
       vs_environment = pl_environment (rq_plan q), vs_product = hm_product manifest,
       vs_product_instance = step_instance_name step, vs_step_id = st_id step,
       vs_step_action = st_action step, vs_action = hs_action host,
       vs_expected_generation = hs_expected_generation host, vs_from = st_from step,
       vs_release = \<lparr>hr_version = hm_version manifest,
         hr_manifest_digest = hq_manifest_digest ports (rq_manifest q)\<rparr>,
       vs_artifact_digest = st_artifact_digest step, vs_inputs = hm_inputs manifest,
       vs_command = command, vs_signer_identity = signer,
       vs_approvals = hq_evaluate ports (rq_plan q) (rq_approvals q) now,
       vs_purposes = plan_purposes (rq_plan q)\<rparr> = (Inr v :: verify_error + VerifiedHostStep)"
    using assms
    unfolding verify_request_def Let_def bind_r_eq_Inr ensure_eq_Inr ok_or_eq_Inr map_err_eq_Inr
      request_instance_def
    by (elim exE conjE) (rule that, assumption+)
  note v = sum.inject(2) [THEN iffD1, OF v, symmetric]
  show ?thesis by (rule that [of d step host manifest]) (use f in \<open>simp_all add: v\<close>)
qed

lemma plan_digest_binds:
  assumes inj: "inj_on (encode_executable codec) {x. encode_executable codec x \<noteq> None}"
    and "request_plan_digest codec q = Some d" and "request_plan_digest codec q' = Some d"
  shows "executable_content (rq_plan q) = executable_content (rq_plan q') \<or> hash_collision codec"
proof -
  obtain h where "executable_digest codec (rq_plan q) = Some h" "executable_digest codec (rq_plan q') = Some h"
    using same_plan_digest assms(2,3) unfolding request_plan_digest_def by blast
  then show ?thesis by (rule executable_digest_binds [OF inj])
qed

lemma request_digest_fits:
  assumes "\<forall>x. length (sha256_hex codec x) = 64" and "request_plan_digest codec q = Some d"
  shows "frame_fits d"
  using assms by (auto simp: request_plan_digest_def executable_digest_def frame_fits_def)

lemma demo_request_verifies:
  "is_ok (verify_request demo_instance_crypto (demo_content_codec (rq_plan demo_request)) demo_host_ports
     demo_request (replicate 64 CHR ''a'') now) \<longleftrightarrow> now < 1000"
proof -
  let ?codec = "demo_content_codec (rq_plan demo_request)"
  have d: "request_plan_digest ?codec demo_request = Some (''sha256:'' @ replicate 64 CHR ''a'')"
    by (simp add: request_plan_digest_def executable_digest_def demo_content_codec_def)
  have i: "request_instance demo_instance_crypto ?codec demo_request = Some (replicate 64 CHR ''a'')"
    unfolding request_instance_def d by (simp add: instance_key_def demo_instance_crypto_def)
  have v: "validate_host_instance (replicate 64 CHR ''a'') = Inr ()" by code_simp
  have n: "validate_identifier ''environment'' ''prod'' = Inr ()" "validate_identifier ''product'' ''web'' = Inr ()"
    by code_simp+
  have q: "require_all (hq_evaluate demo_host_ports p as now) (plan_purposes (rq_plan demo_request)) = Inr ()"
    for p as now
    by (simp add: demo_host_ports_def demo_request_def plan_purposes_def demo_plan_def demo_request_step_def
        demo_step_def require_all_def require_purpose_def count_quorum_def default_quorum_def eligible_def
        ensure_def result_simps)
  have t: "trim ''install'' \<noteq> []" by code_simp
  show ?thesis
    unfolding verify_request_def Let_def d i q
    by (simp add: v ensure_def demo_request_def demo_plan_def plan_format_version_def n demo_request_step_def
        demo_step_def demo_host_ports_def host_command_def t)
qed



text \<open>C22. What runs on the host is what was approved: a verified step is the step of that id in the
  request's plan, for the release whose manifest digest and artifact digest that plan step pins, and
  the approvals meet the quorum of every purpose the plan has, execution and gates included.\<close>
theorem verified_step_is_approved:
  assumes "verify_request c codec ports q inst now = Inr v"
  shows "\<exists>step\<in>set (pl_steps (rq_plan q)). st_id step = rq_step_id q \<and> vs_step_id v = st_id step
    \<and> vs_product v = st_product step \<and> hr_version (vs_release v) = st_to step
    \<and> hr_manifest_digest (vs_release v) = st_release_digest step
    \<and> st_release_digest step = hq_manifest_digest ports (rq_manifest q)
    \<and> vs_artifact_digest v = st_artifact_digest step
    \<and> (\<forall>purpose\<in>set (plan_purposes (rq_plan q)).
         require_purpose (hq_evaluate ports (rq_plan q) (rq_approvals q) now) purpose = Inr ())"
proof -
  obtain step where f: "find (\<lambda>s. st_id s = rq_step_id q) (pl_steps (rq_plan q)) = Some step"
    "vs_step_id v = st_id step" "vs_product v = st_product step" "hr_version (vs_release v) = st_to step"
    "hr_manifest_digest (vs_release v) = st_release_digest step"
    "st_release_digest step = hq_manifest_digest ports (rq_manifest q)"
    "vs_artifact_digest v = st_artifact_digest step"
    "require_all (hq_evaluate ports (rq_plan q) (rq_approvals q) now) (plan_purposes (rq_plan q)) = Inr ()"
    by (rule verify_request_facts [OF assms]) simp
  have "step \<in> set (pl_steps (rq_plan q))" "st_id step = rq_step_id q"
    using f(1) by (auto simp: find_Some_iff)
  moreover have "\<forall>purpose\<in>set (plan_purposes (rq_plan q)).
      require_purpose (hq_evaluate ports (rq_plan q) (rq_approvals q) now) purpose = Inr ()"
    using f(8) by (simp add: require_all_def try_all_ok)
  ultimately show ?thesis using f by (intro bexI [of _ step]) simp_all
qed

theorem verified_step_is_approved_witness:
  "is_ok (verify_request demo_instance_crypto (demo_content_codec (rq_plan demo_request)) demo_host_ports
      demo_request (replicate 64 CHR ''a'') 500)
    \<and> require_purpose (hq_evaluate demo_host_ports (rq_plan demo_request) (rq_approvals demo_request) 500)
      ExecutePlan = Inr ()"
proof -
  have ok: "is_ok (verify_request demo_instance_crypto (demo_content_codec (rq_plan demo_request)) demo_host_ports
      demo_request (replicate 64 CHR ''a'') 500)" by (simp add: demo_request_verifies)
  then obtain v where "verify_request demo_instance_crypto (demo_content_codec (rq_plan demo_request))
      demo_host_ports demo_request (replicate 64 CHR ''a'') 500 = Inr v" by (auto simp: is_ok_iff)
  from verified_step_is_approved [OF this] ok show ?thesis by (auto simp: plan_purposes_def)
qed

end
