(* ===== verification/Applier_Store.thy ===== *)
theory Applier_Store
  imports Host_Apply
begin

text \<open>
  \<open>crates/tenkai-host-applier/src/store.rs\<close>, \<open>fence.rs\<close> and the loop of \<open>apply.rs\<close>: the durable files
  of the root-side applier and what it does under the per-product lock.

  Every file is replaced atomically (\<open>write_json\<close>), so an operation is a list of writes and a crash
  is a prefix of it.  Processes of one product exclude each other by an \<open>flock\<close> that dies with them;
  the command a dead applier started may live on, which is what \<open>execution_gone\<close> checks.  The
  transition system below interleaves admissions, recoveries, completions, crashes at any write and
  the late exit of commands.
\<close>

record host_store =
  fs_records :: "string \<Rightarrow> AppliedStateRecord option"
  fs_started :: "string \<Rightarrow> HostApplyStarted option"
  fs_results :: "string \<Rightarrow> HostApplyResult option"
  fs_refused :: "string \<Rightarrow> string option"

datatype disk_write =
    Write_Record AppliedStateRecord
  | Write_Started HostApplyStarted
  | Write_Result HostApplyResult
  | Write_Refused string string

datatype store_error =
    Store_Instance format_error
  | Belongs_To_Another_Product
  | Not_A_Unit_Group string
  | Still_Running string
  | Store_Quorum quorum_error
  | Store_Host host_error

fun apply_write :: "('k, 'z) crypto_scheme \<Rightarrow> disk_write \<Rightarrow> host_store \<Rightarrow> host_store" where
  "apply_write c (Write_Record r) fs =
     fs\<lparr>fs_records := (fs_records fs)(product_key c (ar_environment r) (ar_product r) := Some r)\<rparr>"
| "apply_write c (Write_Started s) fs = fs\<lparr>fs_started := (fs_started fs)(sa_instance s := Some s)\<rparr>"
| "apply_write c (Write_Result r) fs = fs\<lparr>fs_results := (fs_results fs)(rs_instance r := Some r)\<rparr>"
| "apply_write c (Write_Refused inst reason) fs =
     fs\<lparr>fs_refused := (fs_refused fs)(inst := Some reason)\<rparr>"

definition apply_writes :: "('k, 'z) crypto_scheme \<Rightarrow> disk_write list \<Rightarrow> host_store \<Rightarrow> host_store" where
  "apply_writes c ws fs = fold (apply_write c) ws fs"

definition recorded_result :: "host_store \<Rightarrow> string \<Rightarrow> store_error + HostApplyResult option" where
  "recorded_result fs inst =
     bind_r (map_err Store_Instance (validate_host_instance inst)) (\<lambda>_. Inr (fs_results fs inst))"

definition record_refusal :: "string \<Rightarrow> string \<Rightarrow> store_error + disk_write list" where
  "record_refusal inst reason =
     bind_r (map_err Store_Instance (validate_host_instance inst)) (\<lambda>_. Inr [Write_Refused inst reason])"

definition read_record ::
  "('k, 'z) crypto_scheme \<Rightarrow> host_store \<Rightarrow> string \<Rightarrow> string \<Rightarrow> store_error + AppliedStateRecord" where
  "read_record c fs environment product =
     (let r = (case fs_records fs (product_key c environment product) of
                 Some r \<Rightarrow> r | None \<Rightarrow> empty_record environment product) in
      bind_r (ensure (ar_environment r = environment \<and> ar_product r = product)
          Belongs_To_Another_Product) (\<lambda>_. Inr r))"

definition interrupted :: "HostApplyStarted \<Rightarrow> int \<Rightarrow> HostApplyResult" where
  "interrupted started now_ms = started_result started Interrupted None
     ''started but never finished: the applier stopped or the host rebooted'' now_ms"

section \<open>The fence\<close>

definition strip_suffix :: "string \<Rightarrow> string \<Rightarrow> string option" where
  "strip_suffix suffix s = map_option rev (strip_prefix (rev suffix) (rev s))"

definition is_unit_group :: "string \<Rightarrow> bool" where
  "is_unit_group path \<longleftrightarrow>
     starts_with path ''/'' \<and> \<not> contains_str ''..'' path
     \<and> (case strip_prefix ''tenkai-host-apply@'' (last (split_on CHR ''/'' path)) of
          None \<Rightarrow> False
        | Some unit_name \<Rightarrow> (case strip_suffix ''.service'' unit_name of
            None \<Rightarrow> False
          | Some inst \<Rightarrow> is_ok (validate_host_instance inst)))"

definition str_lines :: "string \<Rightarrow> string list" where
  "str_lines text = (let parts = split_on (CHR 0x0A) text in
     map (\<lambda>l. case strip_suffix [CHR 0x0D] l of Some x \<Rightarrow> x | None \<Rightarrow> l) (butlast parts)
     @ (if last parts = [] then [] else [last parts]))"

definition own_cgroup :: "string option \<Rightarrow> string option" where
  "own_cgroup raw = (case raw of
     None \<Rightarrow> None
   | Some text \<Rightarrow>
       (case List.map_filter (strip_prefix ''0::'') (str_lines text) of
          [] \<Rightarrow> None
        | path # _ \<Rightarrow> if is_unit_group path then Some path else None))"

definition execution_gone ::
  "(HostApplyStarted \<Rightarrow> bool) \<Rightarrow> HostApplyStarted \<Rightarrow> store_error + unit" where
  "execution_gone alive started = (case sa_cgroup started of
     None \<Rightarrow> Inr ()
   | Some path \<Rightarrow>
       bind_r (ensure (is_unit_group path) (Not_A_Unit_Group path)) (\<lambda>_.
         ensure (\<not> alive started) (Still_Running (sa_instance started))))"

section \<open>The critical section\<close>

definition settle_interrupted ::
  "(HostApplyStarted \<Rightarrow> bool) \<Rightarrow> AppliedStateRecord \<Rightarrow> HostApplyStarted \<Rightarrow> int
     \<Rightarrow> disk_write list \<times> (store_error + AppliedStateRecord)" where
  "settle_interrupted alive record latest now_ms = (case execution_gone alive latest of
     Inl e \<Rightarrow> ([], Inl e)
   | Inr _ \<Rightarrow>
       (let result = interrupted latest now_ms;
            record = record\<lparr>ar_last_result := Some result\<rparr> in
        ([Write_Record record, Write_Result result], Inr record)))"

definition settle_last ::
  "(HostApplyStarted \<Rightarrow> bool) \<Rightarrow> host_store \<Rightarrow> AppliedStateRecord \<Rightarrow> int
     \<Rightarrow> disk_write list \<times> (store_error + AppliedStateRecord)" where
  "settle_last alive fs record now_ms = (case ar_last_started record of
     None \<Rightarrow> ([], Inr record)
   | Some latest \<Rightarrow>
       (case recorded_result fs (sa_instance latest) of
          Inl e \<Rightarrow> ([], Inl e)
        | Inr (Some _) \<Rightarrow> ([], Inr record)
        | Inr None \<Rightarrow>
            (case ar_last_result record of
               Some result \<Rightarrow>
                 (if rs_instance result = sa_instance latest then ([Write_Result result], Inr record)
                  else settle_interrupted alive record latest now_ms)
             | None \<Rightarrow> settle_interrupted alive record latest now_ms)))"

datatype Admission =
    Recorded HostApplyResult
  | Run HostApplyStarted AppliedStateRecord

definition store_start ::
  "('v, 'y) semver_scheme \<Rightarrow> AppliedStateRecord \<Rightarrow> VerifiedHostStep \<Rightarrow> string option \<Rightarrow> int
     \<Rightarrow> store_error + HostApplyStarted \<times> AppliedStateRecord" where
  "store_start sv record step cgroup now_ms =
     (let step = step\<lparr>vs_approvals := approvals_at (vs_approvals step) now_ms\<rparr> in
      bind_r (map_err Store_Quorum (require_all (vs_approvals step) (vs_purposes step))) (\<lambda>_.
        map_err Store_Host (record_admit sv record step cgroup now_ms)))"

definition store_admit ::
  "('k, 'z) crypto_scheme \<Rightarrow> ('v, 'y) semver_scheme \<Rightarrow> (HostApplyStarted \<Rightarrow> bool) \<Rightarrow> host_store
     \<Rightarrow> VerifiedHostStep \<Rightarrow> string option \<Rightarrow> int \<Rightarrow> disk_write list \<times> (store_error + Admission)" where
  "store_admit c sv alive fs step cgroup now_ms =
     (case read_record c fs (vs_environment step) (vs_product step) of
        Inl e \<Rightarrow> ([], Inl e)
      | Inr record \<Rightarrow>
          (case settle_last alive fs record now_ms of
             (ws, Inl e) \<Rightarrow> (ws, Inl e)
           | (ws, Inr record) \<Rightarrow>
               (let fs = apply_writes c ws fs in
                case recorded_result fs (vs_instance step) of
                  Inl e \<Rightarrow> (ws, Inl e)
                | Inr (Some result) \<Rightarrow> (ws, Inr (Recorded result))
                | Inr None \<Rightarrow>
                    (case fs_started fs (vs_instance step) of
                       Some started \<Rightarrow>
                         (let result = interrupted started now_ms in
                          (ws @ [Write_Result result], Inr (Recorded result)))
                     | None \<Rightarrow>
                         (case store_start sv record step cgroup now_ms of
                            Inl e \<Rightarrow> (ws, Inl e)
                          | Inr (started, advanced) \<Rightarrow>
                              (ws @ [Write_Record advanced, Write_Started started],
                               Inr (Run started advanced)))))))"

definition store_recover ::
  "('k, 'z) crypto_scheme \<Rightarrow> (HostApplyStarted \<Rightarrow> bool) \<Rightarrow> host_store \<Rightarrow> string \<Rightarrow> int
     \<Rightarrow> disk_write list \<times> (store_error + HostApplyResult option)" where
  "store_recover c alive fs inst now_ms =
     (case recorded_result fs inst of
        Inl e \<Rightarrow> ([], Inl e)
      | Inr (Some result) \<Rightarrow> ([], Inr (Some result))
      | Inr None \<Rightarrow>
          (case fs_started fs inst of
             None \<Rightarrow> ([], Inr None)
           | Some started \<Rightarrow>
               (case read_record c fs (sa_environment started) (sa_product started) of
                  Inl e \<Rightarrow> ([], Inl e)
                | Inr record \<Rightarrow>
                    (case settle_last alive fs record now_ms of
                       (ws, Inl e) \<Rightarrow> (ws, Inl e)
                     | (ws, Inr record) \<Rightarrow>
                         (case recorded_result (apply_writes c ws fs) inst of
                            Inl e \<Rightarrow> (ws, Inl e)
                          | Inr (Some result) \<Rightarrow> (ws, Inr (Some result))
                          | Inr None \<Rightarrow>
                              (let result = interrupted started now_ms in
                               (ws @ [Write_Result result], Inr (Some result))))))))"

definition running_finish ::
  "('v, 'y) semver_scheme \<Rightarrow> HostApplyStarted \<Rightarrow> AppliedStateRecord \<Rightarrow> HostApplyOutcome \<Rightarrow> int option
     \<Rightarrow> string \<Rightarrow> int \<Rightarrow> disk_write list \<times> HostApplyResult" where
  "running_finish sv started record outcome exit_status detail now_ms =
     (let result = started_result started outcome exit_status detail now_ms in
      ([Write_Record (record_complete sv record started result), Write_Result result], result))"

datatype apply_outcome =
    Apply_Result HostApplyResult
  | Apply_Refused string
  | Apply_Run HostApplyStarted AppliedStateRecord

definition apply_admit ::
  "('k, 'z) crypto_scheme \<Rightarrow> ('v, 'y) semver_scheme \<Rightarrow> (HostApplyStarted \<Rightarrow> bool) \<Rightarrow> host_store
     \<Rightarrow> (string + VerifiedHostStep) \<Rightarrow> (store_error \<Rightarrow> string) \<Rightarrow> string option \<Rightarrow> int
     \<Rightarrow> disk_write list \<times> (string + Admission)" where
  "apply_admit c sv alive fs intake describe cgroup now_ms = (case intake of
     Inl reason \<Rightarrow> ([], Inl reason)
   | Inr step \<Rightarrow>
       (case store_admit c sv alive fs step cgroup now_ms of
          (ws, Inl e) \<Rightarrow> (ws, Inl (describe e))
        | (ws, Inr admission) \<Rightarrow> (ws, Inr admission)))"

definition apply_instance ::
  "('k, 'z) crypto_scheme \<Rightarrow> ('v, 'y) semver_scheme \<Rightarrow> (HostApplyStarted \<Rightarrow> bool) \<Rightarrow> host_store \<Rightarrow> string
     \<Rightarrow> (string + VerifiedHostStep) \<Rightarrow> (store_error \<Rightarrow> string) \<Rightarrow> string option \<Rightarrow> int
     \<Rightarrow> disk_write list \<times> (store_error + apply_outcome)" where
  "apply_instance c sv alive fs inst intake describe cgroup now_ms =
     (case validate_host_instance inst of
        Inl e \<Rightarrow> ([], Inl (Store_Instance e))
      | Inr _ \<Rightarrow>
          (case store_recover c alive fs inst now_ms of
             (ws, Inl e) \<Rightarrow> (ws, Inl e)
           | (ws, Inr (Some result)) \<Rightarrow> (ws, Inr (Apply_Result result))
           | (ws, Inr None) \<Rightarrow>
               (case apply_admit c sv alive (apply_writes c ws fs) intake describe cgroup now_ms of
                  (ws', Inl reason) \<Rightarrow>
                    (case record_refusal inst reason of
                       Inl e \<Rightarrow> (ws @ ws', Inl e)
                     | Inr ws'' \<Rightarrow> (ws @ ws' @ ws'', Inr (Apply_Refused reason)))
                | (ws', Inr (Recorded result)) \<Rightarrow> (ws @ ws', Inr (Apply_Result result))
                | (ws', Inr (Run started advanced)) \<Rightarrow> (ws @ ws', Inr (Apply_Run started advanced)))))"

section \<open>Processes, crashes and commands\<close>

record applier_sys =
  sy_store :: host_store
  sy_running :: "string \<Rightarrow> (HostApplyStarted \<times> AppliedStateRecord) option"
  sy_alive :: "HostApplyStarted set"
  sy_ran :: "HostApplyStarted list"
  sy_applied :: "(string \<times> HostRelease) list"

definition started_key :: "('k, 'z) crypto_scheme \<Rightarrow> HostApplyStarted \<Rightarrow> string" where
  "started_key c s = product_key c (sa_environment s) (sa_product s)"

definition initial_sys :: applier_sys where
  "initial_sys = \<lparr>sy_store = \<lparr>fs_records = Map.empty, fs_started = Map.empty, fs_results = Map.empty,
       fs_refused = Map.empty\<rparr>,
     sy_running = Map.empty, sy_alive = {}, sy_ran = [], sy_applied = []\<rparr>"

definition newly_applied ::
  "('k, 'z) crypto_scheme \<Rightarrow> nat \<Rightarrow> HostApplyStarted \<Rightarrow> HostApplyOutcome \<Rightarrow> (string \<times> HostRelease) list" where
  "newly_applied c n s outcome =
     (if 0 < n \<and> sa_action s = HostInstall \<and> outcome_succeeded outcome
      then [(started_key c s, sa_release s)] else [])"

inductive applier_step ::
  "('k, 'z) crypto_scheme \<Rightarrow> ('v, 'y) semver_scheme \<Rightarrow> (string \<Rightarrow> string \<times> string)
     \<Rightarrow> applier_sys \<Rightarrow> applier_sys \<Rightarrow> bool"
  for c sv owner where
  admit_part: "sy_running y (product_key c (vs_environment step) (vs_product step)) = None
     \<Longrightarrow> owner (vs_instance step) = (vs_environment step, vs_product step)
     \<Longrightarrow> store_admit c sv (\<lambda>s. s \<in> sy_alive y) (sy_store y) step (own_cgroup raw) now_ms = (ws, out)
     \<Longrightarrow> applier_step c sv owner y
          (y\<lparr>sy_store := apply_writes c (take n ws) (sy_store y)\<rparr>)"
| admit_run: "sy_running y (product_key c (vs_environment step) (vs_product step)) = None
     \<Longrightarrow> owner (vs_instance step) = (vs_environment step, vs_product step)
     \<Longrightarrow> store_admit c sv (\<lambda>s. s \<in> sy_alive y) (sy_store y) step (own_cgroup raw) now_ms
          = (ws, Inr (Run started advanced))
     \<Longrightarrow> applier_step c sv owner y
          (y\<lparr>sy_store := apply_writes c ws (sy_store y),
             sy_running := (sy_running y)(started_key c started := Some (started, advanced)),
             sy_alive := insert started (sy_alive y),
             sy_ran := sy_ran y @ [started]\<rparr>)"
| recover: "(\<forall>s. fs_started (sy_store y) inst = Some s \<longrightarrow> sy_running y (started_key c s) = None)
     \<Longrightarrow> store_recover c (\<lambda>s. s \<in> sy_alive y) (sy_store y) inst now_ms = (ws, out')
     \<Longrightarrow> applier_step c sv owner y
          (y\<lparr>sy_store := apply_writes c (take n ws) (sy_store y)\<rparr>)"
| refuse: "record_refusal inst reason = Inr ws
     \<Longrightarrow> applier_step c sv owner y (y\<lparr>sy_store := apply_writes c ws (sy_store y)\<rparr>)"
| finish: "sy_running y k = Some (started, record)
     \<Longrightarrow> running_finish sv started record outcome exit_status detail now_ms = (ws, result)
     \<Longrightarrow> applier_step c sv owner y
          (y\<lparr>sy_store := apply_writes c (take n ws) (sy_store y),
             sy_running := (sy_running y)(k := None),
             sy_alive := sy_alive y - {started},
             sy_applied := sy_applied y @ newly_applied c n started outcome\<rparr>)"
| crash: "applier_step c sv owner y (y\<lparr>sy_running := (sy_running y)(k := None)\<rparr>)"
| command_exit: "applier_step c sv owner y (y\<lparr>sy_alive := sy_alive y - {s}\<rparr>)"

inductive reachable ::
  "('k, 'z) crypto_scheme \<Rightarrow> ('v, 'y) semver_scheme \<Rightarrow> (string \<Rightarrow> string \<times> string)
     \<Rightarrow> applier_sys \<Rightarrow> bool"
  for c sv owner where
  start: "reachable c sv owner initial_sys"
| step: "reachable c sv owner y \<Longrightarrow> applier_step c sv owner y y'
     \<Longrightarrow> reachable c sv owner y'"

section \<open>Sample executions\<close>

definition demo_host_step :: "char \<Rightarrow> u64 \<Rightarrow> string option \<Rightarrow> VerifiedHostStep" where
  "demo_host_step i expected source = \<lparr>
     vs_instance = replicate 64 i, vs_plan_id = ''plan-1'', vs_plan_digest = ''sha256:d'',
     vs_environment = ''prod'', vs_product = ''web'', vs_product_instance = ''web'',
     vs_step_id = ''s1'', vs_step_action = Downgrade, vs_action = HostInstall,
     vs_expected_generation = expected, vs_from = source,
     vs_release = \<lparr>hr_version = ''1.2.0'', hr_manifest_digest = ''sha256:m''\<rparr>,
     vs_artifact_digest = ''sha256:f'', vs_inputs = [], vs_command = ''install'',
     vs_signer_identity = ''ana'',
     vs_approvals = \<lparr>ha_rules = (\<lambda>p. [default_quorum p]),
       ha_candidates = [\<lparr>cd_approval = \<lparr>ca_key_id = ''k1'', ca_identity = ''ana'', ca_groups = [],
         ca_auto = False\<rparr>, cd_valid_until = 1000\<rparr>], ha_rejected = []\<rparr>,
     vs_purposes = [ExecutePlan]\<rparr>"

definition demo_cgroup :: string where
  "demo_cgroup = ''/a/tenkai-host-apply@'' @ replicate 64 CHR ''a'' @ ''.service''"

definition demo_started :: HostApplyStarted where
  "demo_started = started_record (demo_host_step CHR ''a'' 0 None) 1 (Some demo_cgroup) 100"

definition demo_advanced :: AppliedStateRecord where
  "demo_advanced = (empty_record ''prod'' ''web'')
     \<lparr>ar_generation := 1, ar_state := Dirty None (Some (sa_release demo_started)),
      ar_last_started := Some demo_started\<rparr>"

definition demo_running :: applier_sys where
  "demo_running = initial_sys
     \<lparr>sy_store := apply_writes demo_crypto [Write_Record demo_advanced, Write_Started demo_started]
        (sy_store initial_sys),
      sy_running := (sy_running initial_sys)
        (started_key demo_crypto demo_started := Some (demo_started, demo_advanced)),
      sy_alive := insert demo_started (sy_alive initial_sys),
      sy_ran := sy_ran initial_sys @ [demo_started]\<rparr>"

definition demo_finish :: "disk_write list \<times> HostApplyResult" where
  "demo_finish = running_finish triple_semver demo_started demo_advanced Outcome_Succeeded (Some 0) ''ok'' 200"

definition demo_finished :: applier_sys where
  "demo_finished = demo_running
     \<lparr>sy_store := apply_writes demo_crypto (take 2 (fst demo_finish)) (sy_store demo_running),
      sy_running := (sy_running demo_running)(started_key demo_crypto demo_started := None),
      sy_alive := sy_alive demo_running - {demo_started},
      sy_applied := sy_applied demo_running @ newly_applied demo_crypto 2 demo_started Outcome_Succeeded\<rparr>"

definition demo_crashed :: applier_sys where
  "demo_crashed = (let y = demo_running\<lparr>sy_running := (sy_running demo_running)(replicate 64 CHR ''p'' := None)\<rparr>
     in y\<lparr>sy_alive := sy_alive y - {demo_started}\<rparr>)"

end
