(* ===== verification/Applier_Safety.thy ===== *)
theory Applier_Safety
  imports Applier_Store
begin

text \<open>
  An invariant on the files and processes of the root-side applier, over every interleaving of
  admissions, recoveries, completions, crashes and late command exits: each single write keeps it, so
  a crash between two writes does, and every step does.
\<close>

section \<open>The invariant\<close>

abbreviation rec_at :: "applier_sys \<Rightarrow> string \<Rightarrow> AppliedStateRecord option" where
  "rec_at y \<equiv> fs_records (sy_store y)"

abbreviation started_at :: "applier_sys \<Rightarrow> string \<Rightarrow> HostApplyStarted option" where
  "started_at y \<equiv> fs_started (sy_store y)"

abbreviation result_at :: "applier_sys \<Rightarrow> string \<Rightarrow> HostApplyResult option" where
  "result_at y \<equiv> fs_results (sy_store y)"

definition rec_key :: "('k, 'z) crypto_scheme \<Rightarrow> AppliedStateRecord \<Rightarrow> string" where
  "rec_key c r = product_key c (ar_environment r) (ar_product r)"

definition same_product :: "HostApplyStarted \<Rightarrow> AppliedStateRecord \<Rightarrow> bool" where
  "same_product s r \<longleftrightarrow> sa_environment s = ar_environment r \<and> sa_product s = ar_product r"

definition owned :: "(string \<Rightarrow> string \<times> string) \<Rightarrow> HostApplyStarted \<Rightarrow> bool" where
  "owned owner s \<longleftrightarrow> owner (sa_instance s) = (sa_environment s, sa_product s)"

definition record_ok :: "(string \<Rightarrow> string \<times> string) \<Rightarrow> AppliedStateRecord \<Rightarrow> bool" where
  "record_ok owner r \<longleftrightarrow>
     (\<forall>s. ar_last_started r = Some s \<longrightarrow> owned owner s \<and> same_product s r
        \<and> sa_generation s = ar_generation r)
     \<and> (\<forall>res. ar_last_result r = Some res \<longrightarrow>
        (\<exists>s. ar_last_started r = Some s \<and> rs_instance res = sa_instance s))"

definition records_ok :: "('k, 'z) crypto_scheme \<Rightarrow> (string \<Rightarrow> string \<times> string) \<Rightarrow> applier_sys \<Rightarrow> bool" where
  "records_ok c owner y \<longleftrightarrow> (\<forall>k r. rec_at y k = Some r \<longrightarrow> rec_key c r = k \<and> record_ok owner r)"

definition backed :: "('k, 'z) crypto_scheme \<Rightarrow> applier_sys \<Rightarrow> HostApplyStarted \<Rightarrow> bool" where
  "backed c y s \<longleftrightarrow> (\<exists>r. rec_at y (started_key c s) = Some r \<and> same_product s r
     \<and> sa_generation s \<le> ar_generation r)"

definition starts_ok :: "('k, 'z) crypto_scheme \<Rightarrow> (string \<Rightarrow> string \<times> string) \<Rightarrow> applier_sys \<Rightarrow> bool" where
  "starts_ok c owner y \<longleftrightarrow> (\<forall>i s. started_at y i = Some s \<longrightarrow>
     sa_instance s = i \<and> owned owner s \<and> backed c y s)"

definition open_start :: "('k, 'z) crypto_scheme \<Rightarrow> applier_sys \<Rightarrow> HostApplyStarted \<Rightarrow> bool" where
  "open_start c y s \<longleftrightarrow> started_at y (sa_instance s) = Some s \<and> result_at y (sa_instance s) = None
     \<and> (\<exists>r. rec_at y (started_key c s) = Some r \<and> ar_last_started r = Some s \<and> ar_last_result r = None)"

definition running_ok :: "('k, 'z) crypto_scheme \<Rightarrow> applier_sys \<Rightarrow> bool" where
  "running_ok c y \<longleftrightarrow> (\<forall>k s r. sy_running y k = Some (s, r) \<longrightarrow>
     started_key c s = k \<and> rec_at y k = Some r \<and> open_start c y s)"

definition alive_ok :: "('k, 'z) crypto_scheme \<Rightarrow> applier_sys \<Rightarrow> bool" where
  "alive_ok c y \<longleftrightarrow>
     (\<forall>s\<in>sy_alive y. sa_cgroup s \<noteq> None \<longrightarrow> open_start c y s)"

definition ran_ok :: "('k, 'z) crypto_scheme \<Rightarrow> applier_sys \<Rightarrow> bool" where
  "ran_ok c y \<longleftrightarrow> (\<forall>s\<in>set (sy_ran y). started_at y (sa_instance s) = Some s)
     \<and> distinct (map sa_instance (sy_ran y))
     \<and> sorted_wrt (\<lambda>s t. started_key c s = started_key c t \<longrightarrow> sa_action t \<noteq> HostHealth \<longrightarrow>
          sa_generation s < sa_generation t) (sy_ran y)"

definition marked :: "('v, 'y) semver_scheme \<Rightarrow> applier_sys \<Rightarrow> string \<times> HostRelease \<Rightarrow> bool" where
  "marked sv y a \<longleftrightarrow> (\<exists>r h. rec_at y (fst a) = Some r \<and> ar_high_water r = Some h
     \<and> \<not> is_newer sv (hr_version (snd a)) (hr_version h))"

definition applied_ok :: "('v, 'y) semver_scheme \<Rightarrow> applier_sys \<Rightarrow> bool" where
  "applied_ok sv y \<longleftrightarrow> (\<forall>a\<in>set (sy_applied y). marked sv y a)"

definition sys_inv ::
  "('k, 'z) crypto_scheme \<Rightarrow> ('v, 'y) semver_scheme \<Rightarrow> (string \<Rightarrow> string \<times> string)
     \<Rightarrow> applier_sys \<Rightarrow> bool" where
  "sys_inv c sv owner y \<longleftrightarrow> records_ok c owner y \<and> starts_ok c owner y \<and> running_ok c y
     \<and> alive_ok c y \<and> ran_ok c y \<and> applied_ok sv y"

definition put :: "('k, 'z) crypto_scheme \<Rightarrow> disk_write \<Rightarrow> applier_sys \<Rightarrow> applier_sys" where
  "put c w y = y\<lparr>sy_store := apply_write c w (sy_store y)\<rparr>"

definition put_all :: "('k, 'z) crypto_scheme \<Rightarrow> disk_write list \<Rightarrow> applier_sys \<Rightarrow> applier_sys" where
  "put_all c ws y = y\<lparr>sy_store := apply_writes c ws (sy_store y)\<rparr>"

lemma put_all_simps [simp]:
  "put_all c [] y = y"
  "put_all c (w # ws) y = put_all c ws (put c w y)"
  by (simp_all add: put_all_def put_def apply_writes_def)

lemma put_all_append: "put_all c (vs @ ws) y = put_all c ws (put_all c vs y)"
  by (simp add: put_all_def apply_writes_def)

lemma put_frame [simp]:
  "sy_running (put c w y) = sy_running y" "sy_alive (put c w y) = sy_alive y"
  "sy_ran (put c w y) = sy_ran y" "sy_applied (put c w y) = sy_applied y"
  by (simp_all add: put_def)

lemma put_all_frame [simp]:
  "sy_running (put_all c ws y) = sy_running y" "sy_alive (put_all c ws y) = sy_alive y"
  "sy_ran (put_all c ws y) = sy_ran y" "sy_applied (put_all c ws y) = sy_applied y"
  by (simp_all add: put_all_def)

lemma put_record_at [simp]:
  "rec_at (put c (Write_Record r) y) k = (if k = rec_key c r then Some r else rec_at y k)"
  "started_at (put c (Write_Record r) y) = started_at y"
  "result_at (put c (Write_Record r) y) = result_at y"
  by (simp_all add: put_def rec_key_def)

lemma put_started_at [simp]:
  "rec_at (put c (Write_Started s) y) = rec_at y"
  "started_at (put c (Write_Started s) y) i = (if i = sa_instance s then Some s else started_at y i)"
  "result_at (put c (Write_Started s) y) = result_at y"
  by (simp_all add: put_def)

lemma put_result_at [simp]:
  "rec_at (put c (Write_Result r) y) = rec_at y"
  "started_at (put c (Write_Result r) y) = started_at y"
  "result_at (put c (Write_Result r) y) i = (if i = rs_instance r then Some r else result_at y i)"
  by (simp_all add: put_def)

lemma put_refused_at [simp]:
  "rec_at (put c (Write_Refused i x) y) = rec_at y"
  "started_at (put c (Write_Refused i x) y) = started_at y"
  "result_at (put c (Write_Refused i x) y) = result_at y"
  by (simp_all add: put_def)

section \<open>Each write keeps the invariant\<close>

definition busy :: "applier_sys \<Rightarrow> HostApplyStarted \<Rightarrow> bool" where
  "busy y s \<longleftrightarrow> (\<exists>k r. sy_running y k = Some (s, r)) \<or> (sa_cgroup s \<noteq> None \<and> s \<in> sy_alive y)"

lemma busy_put [simp]: "busy (put c w y) = busy y"
  by (intro ext) (simp add: busy_def)

lemma busy_open: "sys_inv c sv owner y \<Longrightarrow> busy y s \<Longrightarrow> open_start c y s"
  by (auto simp: sys_inv_def running_ok_def alive_ok_def busy_def)

lemma put_refused_inv:
  assumes "sys_inv c sv owner y"
  shows "sys_inv c sv owner (put c (Write_Refused i x) y)"
proof -
  let ?y = "put c (Write_Refused i x) y"
  have "records_ok c owner ?y = records_ok c owner y" "ran_ok c ?y = ran_ok c y"
    by (simp_all add: records_ok_def ran_ok_def)
  moreover have "backed c ?y = backed c y" "open_start c ?y = open_start c y" "marked sv ?y = marked sv y"
    by (intro ext; simp add: backed_def open_start_def marked_def)+
  ultimately show ?thesis
    using assms by (simp add: sys_inv_def starts_ok_def running_ok_def alive_ok_def applied_ok_def)
qed

lemma put_result_inv:
  assumes inv: "sys_inv c sv owner y"
    and free: "\<And>s. busy y s \<Longrightarrow> sa_instance s \<noteq> rs_instance res"
  shows "sys_inv c sv owner (put c (Write_Result res) y)"
proof -
  have keep: "open_start c (put c (Write_Result res) y) s" if "busy y s" for s
    using busy_open [OF inv that] free [OF that] by (simp add: open_start_def)
  have "running_ok c (put c (Write_Result res) y)"
    using inv keep by (auto simp: sys_inv_def running_ok_def busy_def)
  moreover have "alive_ok c (put c (Write_Result res) y)"
    using inv keep by (auto simp: sys_inv_def alive_ok_def busy_def)
  ultimately show ?thesis
    using inv by (simp add: sys_inv_def records_ok_def starts_ok_def backed_def ran_ok_def
        applied_ok_def marked_def)
qed

definition keeps_mark :: "('v, 'y) semver_scheme \<Rightarrow> AppliedStateRecord \<Rightarrow> AppliedStateRecord \<Rightarrow> bool" where
  "keeps_mark sv r0 r \<longleftrightarrow> (\<forall>h0. ar_high_water r0 = Some h0 \<longrightarrow>
     (\<exists>h. ar_high_water r = Some h
        \<and> (\<forall>v. \<not> is_newer sv v (hr_version h0) \<longrightarrow> \<not> is_newer sv v (hr_version h))))"

definition advances :: "('v, 'y) semver_scheme \<Rightarrow> AppliedStateRecord \<Rightarrow> AppliedStateRecord \<Rightarrow> bool" where
  "advances sv r0 r \<longleftrightarrow> ar_environment r = ar_environment r0 \<and> ar_product r = ar_product r0
     \<and> ar_generation r0 \<le> ar_generation r \<and> keeps_mark sv r0 r"

lemma put_record_inv:
  assumes inv: "sys_inv c sv owner y" and ok: "record_ok owner r"
    and free: "\<And>s. busy y s \<Longrightarrow> started_key c s \<noteq> rec_key c r"
    and old: "\<And>r0. rec_at y (rec_key c r) = Some r0 \<Longrightarrow> advances sv r0 r"
  shows "sys_inv c sv owner (put c (Write_Record r) y)"
proof -
  let ?y = "put c (Write_Record r) y"
  have keep: "open_start c ?y s" if "busy y s" for s
    using busy_open [OF inv that] free [OF that] by (simp add: open_start_def)
  have backs: "backed c ?y s" if "backed c y s" for s
  proof -
    obtain r0 where r0: "rec_at y (started_key c s) = Some r0" "same_product s r0"
      "sa_generation s \<le> ar_generation r0" using \<open>backed c y s\<close> by (auto simp: backed_def)
    show ?thesis
    proof (cases "started_key c s = rec_key c r")
      case True
      then have "advances sv r0 r" using old r0(1) by simp
      then show ?thesis using r0 True by (auto simp: backed_def advances_def same_product_def)
    qed (use r0 in \<open>simp add: backed_def\<close>)
  qed
  have mark: "marked sv ?y a" if "marked sv y a" for a
  proof -
    obtain r0 h0 where r0: "rec_at y (fst a) = Some r0" "ar_high_water r0 = Some h0"
      "\<not> is_newer sv (hr_version (snd a)) (hr_version h0)" using \<open>marked sv y a\<close> by (auto simp: marked_def)
    show ?thesis
    proof (cases "fst a = rec_key c r")
      case True
      then have "keeps_mark sv r0 r" using old r0(1) by (simp add: advances_def)
      then show ?thesis using r0 True by (auto simp: marked_def keeps_mark_def)
    qed (use r0 in \<open>simp add: marked_def\<close>)
  qed
  have "records_ok c owner ?y" using inv ok by (simp add: sys_inv_def records_ok_def)
  moreover have "starts_ok c owner ?y" using inv backs by (simp add: sys_inv_def starts_ok_def)
  moreover have "running_ok c ?y"
    unfolding running_ok_def
  proof (intro allI impI)
    fix k s r' assume run: "sy_running ?y k = Some (s, r')"
    then have b: "busy y s" by (auto simp: busy_def)
    have "started_key c s = k \<and> rec_at y k = Some r'"
      using inv run by (auto simp: sys_inv_def running_ok_def)
    with free [OF b] keep [OF b] show "started_key c s = k \<and> rec_at ?y k = Some r' \<and> open_start c ?y s"
      by auto
  qed
  moreover have "alive_ok c ?y" using inv keep by (auto simp: sys_inv_def alive_ok_def busy_def)
  moreover have "ran_ok c ?y" using inv by (simp add: sys_inv_def ran_ok_def)
  moreover have "applied_ok sv ?y" using inv mark by (simp add: sys_inv_def applied_ok_def)
  ultimately show ?thesis by (simp add: sys_inv_def)
qed

lemma put_started_inv:
  assumes inv: "sys_inv c sv owner y" and new: "started_at y (sa_instance s) = None"
    and own: "owned owner s" and backs: "backed c y s"
  shows "sys_inv c sv owner (put c (Write_Started s) y)"
proof -
  let ?y = "put c (Write_Started s) y"
  have keep: "open_start c ?y t" if "busy y t" for t
    using busy_open [OF inv that] new by (auto simp: open_start_def)
  have "starts_ok c owner ?y" using inv own backs by (auto simp: sys_inv_def starts_ok_def backed_def)
  moreover have "running_ok c ?y" using inv keep by (auto simp: sys_inv_def running_ok_def busy_def)
  moreover have "alive_ok c ?y" using inv keep by (auto simp: sys_inv_def alive_ok_def busy_def)
  moreover have "ran_ok c ?y" using inv new by (auto simp: sys_inv_def ran_ok_def)
  ultimately show ?thesis
    using inv by (simp add: sys_inv_def records_ok_def applied_ok_def marked_def)
qed

section \<open>Settling\<close>

definition reads :: "('k, 'z) crypto_scheme \<Rightarrow> applier_sys \<Rightarrow> AppliedStateRecord \<Rightarrow> bool" where
  "reads c y r \<longleftrightarrow> rec_at y (rec_key c r) = Some r
     \<or> (rec_at y (rec_key c r) = None \<and> r = empty_record (ar_environment r) (ar_product r))"

definition idle :: "('k, 'z) crypto_scheme \<Rightarrow> applier_sys \<Rightarrow> string \<Rightarrow> bool" where
  "idle c y k \<longleftrightarrow> (\<forall>s. busy y s \<longrightarrow> started_key c s \<noteq> k)"

definition safe_writes ::
  "('k, 'z) crypto_scheme \<Rightarrow> ('v, 'y) semver_scheme \<Rightarrow> (string \<Rightarrow> string \<times> string)
     \<Rightarrow> disk_write list \<Rightarrow> applier_sys \<Rightarrow> bool" where
  "safe_writes c sv owner ws y \<longleftrightarrow> (\<forall>n. sys_inv c sv owner (put_all c (take n ws) y))"

lemma idle_put [simp]: "idle c (put c w y) = idle c y"
  by (intro ext) (simp add: idle_def)

lemma safe_writes_Nil [simp]: "safe_writes c sv owner [] y \<longleftrightarrow> sys_inv c sv owner y"
  by (simp add: safe_writes_def)

lemma safe_writes_Cons:
  assumes "sys_inv c sv owner y" and "safe_writes c sv owner ws (put c w y)"
  shows "safe_writes c sv owner (w # ws) y"
  unfolding safe_writes_def
proof
  fix n
  show "sys_inv c sv owner (put_all c (take n (w # ws)) y)"
    using assms by (cases n) (simp_all add: safe_writes_def)
qed

lemma safe_writes_append:
  assumes "safe_writes c sv owner vs y" and "safe_writes c sv owner ws (put_all c vs y)"
  shows "safe_writes c sv owner (vs @ ws) y"
  unfolding safe_writes_def
proof
  fix n
  show "sys_inv c sv owner (put_all c (take n (vs @ ws)) y)"
  proof (cases "n \<le> length vs")
    case False
    then show ?thesis using assms(2) by (simp add: safe_writes_def put_all_append)
  qed (use assms(1) in \<open>simp add: safe_writes_def\<close>)
qed

lemma safe_writes_inv: "safe_writes c sv owner ws y \<Longrightarrow> sys_inv c sv owner (put_all c ws y)"
  unfolding safe_writes_def by (metis take_all_iff order_refl)

lemma read_record_reads:
  assumes "sys_inv c sv owner y" and "read_record c (sy_store y) e p = Inr r"
  shows "reads c y r \<and> ar_environment r = e \<and> ar_product r = p"
  using assms(2)
  by (auto simp: read_record_def reads_def rec_key_def Let_def result_simps empty_record_def
      split: option.splits)

lemma reads_record_ok:
  assumes "sys_inv c sv owner y" and "reads c y r"
  shows "record_ok owner r"
  using assms(2)
proof (unfold reads_def, elim disjE conjE)
  assume "rec_at y (rec_key c r) = Some r"
  then show ?thesis using assms(1) by (auto simp: sys_inv_def records_ok_def)
next
  assume "r = empty_record (ar_environment r) (ar_product r)"
  then have "ar_last_started r = None" "ar_last_result r = None"
    by (metis empty_record_def AppliedStateRecord.select_convs(7,8))+
  then show ?thesis by (simp add: record_ok_def)
qed

lemma reads_last: "reads c y r \<Longrightarrow> ar_last_started r = Some s \<Longrightarrow> rec_at y (rec_key c r) = Some r"
proof -
  assume "reads c y r" and s: "ar_last_started r = Some s"
  moreover have "r \<noteq> empty_record (ar_environment r) (ar_product r)"
    using s by (metis empty_record_def AppliedStateRecord.select_convs(7) option.distinct(1))
  ultimately show ?thesis by (simp add: reads_def)
qed

lemma settle_last_Inl: "settle_last alive fs r now = (ws, Inl e) \<Longrightarrow> ws = []"
  by (auto simp: settle_last_def settle_interrupted_def Let_def split: option.splits sum.splits if_splits)

lemma settle_last_Inr:
  assumes "settle_last alive fs r now = (ws, Inr r')"
  obtains (none) "ar_last_started r = None" "ws = []" "r' = r"
  | (settled) s x where "ar_last_started r = Some s" "fs_results fs (sa_instance s) = Some x" "ws = []" "r' = r"
  | (kept) s x where "ar_last_started r = Some s" "ar_last_result r = Some x" "rs_instance x = sa_instance s"
      "ws = [Write_Result x]" "r' = r"
  | (lost) s where "ar_last_started r = Some s" "execution_gone alive s = Inr ()"
      "r' = r\<lparr>ar_last_result := Some (interrupted s now)\<rparr>"
      "ws = [Write_Record r', Write_Result (interrupted s now)]"
proof (cases "ar_last_started r")
  case None
  then have "ws = []" "r' = r" using assms by (auto simp: settle_last_def)
  then show ?thesis by (rule none [OF None])
next
  case (Some s)
  note last = Some
  obtain found where found: "recorded_result fs (sa_instance s) = Inr found"
    using assms last by (cases "recorded_result fs (sa_instance s)") (auto simp: settle_last_def)
  then have fs: "fs_results fs (sa_instance s) = found" by (auto simp: recorded_result_def result_simps)
  show ?thesis
  proof (cases found)
    case (Some x)
    then have "ws = []" "r' = r" using assms last found by (auto simp: settle_last_def)
    then show ?thesis by (rule settled [OF last fs [unfolded Some]])
  next
    case None
    show ?thesis
    proof (cases "\<exists>x. ar_last_result r = Some x \<and> rs_instance x = sa_instance s")
      case True
      then obtain x where x: "ar_last_result r = Some x" "rs_instance x = sa_instance s" by blast
      then have "ws = [Write_Result x]" "r' = r" using assms last found None by (auto simp: settle_last_def)
      then show ?thesis by (rule kept [OF last x])
    next
      case False
      then have "settle_last alive fs r now = settle_interrupted alive r s now"
        using last found None by (auto simp: settle_last_def split: option.splits)
      then have *: "settle_interrupted alive r s now = (ws, Inr r')" using assms by simp
      then have gone: "execution_gone alive s = Inr ()"
        by (cases "execution_gone alive s") (simp_all add: settle_interrupted_def)
      then have "r' = r\<lparr>ar_last_result := Some (interrupted s now)\<rparr>"
        "ws = [Write_Record r', Write_Result (interrupted s now)]"
        using * by (auto simp: settle_interrupted_def Let_def)
      then show ?thesis by (rule lost [OF last gone])
    qed
  qed
qed

lemma interrupted_instance [simp]: "rs_instance (interrupted s now) = sa_instance s"
  by (simp add: interrupted_def started_result_def)

lemma busy_owned:
  assumes "sys_inv c sv owner y" and "busy y s"
  shows "owned owner s"
  using busy_open [OF assms] assms(1) by (auto simp: open_start_def sys_inv_def starts_ok_def)

lemma instance_free:
  assumes inv: "sys_inv c sv owner y" and "idle c y (product_key c e p)"
    and own: "owner i = (e, p)" and b: "busy y s"
  shows "sa_instance s \<noteq> i"
proof
  assume "sa_instance s = i"
  then have "started_key c s = product_key c e p"
    using busy_owned [OF inv b] own by (simp add: owned_def started_key_def)
  with assms(2) b show False by (simp add: idle_def)
qed

lemma settle_idle:
  assumes inv: "sys_inv c sv owner y" and lock: "sy_running y (rec_key c r) = None"
    and reads: "reads c y r" and run: "settle_last (\<lambda>s. s \<in> sy_alive y) (sy_store y) r now = (ws, Inr r')"
  shows "idle c y (rec_key c r)"
  unfolding idle_def
proof (intro allI impI notI)
  fix s assume b: "busy y s" and key: "started_key c s = rec_key c r"
  have "sy_running y k \<noteq> Some (s, x)" for k x
    using inv lock key by (auto simp: sys_inv_def running_ok_def)
  then have al: "sa_cgroup s \<noteq> None" "s \<in> sy_alive y" using b by (auto simp: busy_def)
  obtain r0 where "rec_at y (rec_key c r) = Some r0" "ar_last_started r0 = Some s" "ar_last_result r0 = None"
    and res: "result_at y (sa_instance s) = None"
    using busy_open [OF inv b] key by (auto simp: open_start_def)
  then have r: "ar_last_started r = Some s" "ar_last_result r = None"
    using reads by (auto simp: reads_def)
  from run show False
  proof (cases rule: settle_last_Inr)
    case (lost t)
    then show False using r al inv
      by (auto simp: execution_gone_def sys_inv_def alive_ok_def result_simps split: option.splits)
  qed (use r res in auto)
qed

lemma settle_safe:
  assumes inv: "sys_inv c sv owner y" and lock: "sy_running y (rec_key c r) = None"
    and reads: "reads c y r" and run: "settle_last (\<lambda>s. s \<in> sy_alive y) (sy_store y) r now = (ws, Inr r')"
  shows "safe_writes c sv owner ws y \<and> reads c (put_all c ws y) r'
    \<and> r' = r\<lparr>ar_last_result := ar_last_result r'\<rparr>"
proof -
  note idle = settle_idle [OF inv lock reads run]
  note rok = reads_record_ok [OF inv reads]
  have own: "owner (sa_instance s) = (ar_environment r, ar_product r)" if "ar_last_started r = Some s" for s
    using rok that by (simp add: record_ok_def owned_def same_product_def)
  from run show ?thesis
  proof (cases rule: settle_last_Inr)
    case (kept s x)
    have "sys_inv c sv owner (put c (Write_Result x) y)"
      by (rule put_result_inv [OF inv])
        (use instance_free [OF inv idle [unfolded rec_key_def] own [OF kept(1)]] kept(3) in simp)
    then show ?thesis using kept inv reads by (simp add: safe_writes_Cons reads_def)
  next
    case (lost s)
    let ?y = "put c (Write_Record r') y"
    have k: "rec_key c r' = rec_key c r" using lost(3) by (simp add: rec_key_def)
    have "record_ok owner r'"
      using rok lost(1,3) by (simp add: record_ok_def same_product_def)
    moreover have "advances sv r0 r'" if "rec_at y (rec_key c r') = Some r0" for r0
      using that k reads_last [OF reads lost(1)] lost(3) by (simp add: advances_def keeps_mark_def)
    ultimately have inv1: "sys_inv c sv owner ?y"
      using idle k by (intro put_record_inv [OF inv]) (simp_all add: idle_def)
    have idle1: "idle c ?y (product_key c (ar_environment r) (ar_product r))"
      using idle by (simp add: rec_key_def)
    have "sys_inv c sv owner (put c (Write_Result (interrupted s now)) ?y)"
      by (rule put_result_inv [OF inv1])
        (use instance_free [OF inv1 idle1 own [OF lost(1)]] in simp)
    then show ?thesis using lost inv inv1 k by (simp add: safe_writes_Cons reads_def)
  qed (use inv reads in simp_all)
qed

section \<open>Admission\<close>

lemma record_admit_ok:
  assumes "record_admit sv r step cgroup now = Inr (started, adv)"
  obtains g st where "ar_environment r = vs_environment step" "ar_product r = vs_product step"
    "vs_expected_generation step = ar_generation r"
    "started = started_record step g cgroup now"
    "adv = r\<lparr>ar_generation := g, ar_state := st, ar_last_started := Some started, ar_last_result := None\<rparr>"
    "next_generation (vs_action step) (ar_generation r) = Inr g"
    "check_high_water sv r step = Inr ()"
  using assms unfolding record_admit_def Let_def bind_r_eq_Inr ensure_eq_Inr by auto

lemma next_generation_ok:
  assumes "next_generation a g = Inr g'"
  shows "g \<le> g' \<and> (a \<noteq> HostHealth \<longrightarrow> g < g' \<and> unat g' = Suc (unat g)) \<and> (a = HostHealth \<longrightarrow> g' = g)"
  using assms
  by (auto simp: next_generation_def result_simps checked_succ_unat split: if_splits
      dest: checked_succ_greater less_imp_le)

lemma store_start_ok:
  assumes "store_start sv r step cgroup now = Inr (started, adv)"
  shows "record_admit sv r (step\<lparr>vs_approvals := approvals_at (vs_approvals step) now\<rparr>) cgroup now
      = Inr (started, adv)
    \<and> require_all (approvals_at (vs_approvals step) now) (vs_purposes step) = Inr ()"
  using assms by (auto simp: store_start_def Let_def result_simps)

lemma store_admit_cases:
  assumes "store_admit c sv alive fs step cgroup now = (ws, out)"
  obtains (refused) "ws = []" "\<And>s a. out \<noteq> Inr (Run s a)"
  | (settled) r ws0 r' where "read_record c fs (vs_environment step) (vs_product step) = Inr r"
      "settle_last alive fs r now = (ws0, Inr r')" "ws = ws0" "\<And>s a. out \<noteq> Inr (Run s a)"
  | (lost) r ws0 r' started where "read_record c fs (vs_environment step) (vs_product step) = Inr r"
      "settle_last alive fs r now = (ws0, Inr r')" "ws = ws0 @ [Write_Result (interrupted started now)]"
      "fs_started (apply_writes c ws0 fs) (vs_instance step) = Some started"
      "\<And>s a. out \<noteq> Inr (Run s a)"
  | (run) r ws0 r' started adv where "read_record c fs (vs_environment step) (vs_product step) = Inr r"
      "settle_last alive fs r now = (ws0, Inr r')" "ws = ws0 @ [Write_Record adv, Write_Started started]"
      "fs_results (apply_writes c ws0 fs) (vs_instance step) = None"
      "fs_started (apply_writes c ws0 fs) (vs_instance step) = None"
      "store_start sv r' step cgroup now = Inr (started, adv)" "out = Inr (Run started adv)"
      "is_ok (validate_host_instance (vs_instance step))"
proof (cases "read_record c fs (vs_environment step) (vs_product step)")
  case (Inl e)
  then show ?thesis using assms by (intro refused) (auto simp: store_admit_def)
next
  case (Inr r)
  obtain ws0 so where settle: "settle_last alive fs r now = (ws0, so)" by force
  show ?thesis
  proof (cases so)
    case (Inl e)
    then show ?thesis
      using assms Inr settle settle_last_Inl [of alive fs r now ws0 e]
      by (intro refused) (auto simp: store_admit_def)
  next
    case so: (Inr r')
    note settle = settle [unfolded so]
    let ?fs = "apply_writes c ws0 fs"
    show ?thesis
    proof (cases "recorded_result ?fs (vs_instance step)")
      case (Inl e)
      then show ?thesis
        by (intro settled [OF Inr settle]) (use assms Inr settle in \<open>auto simp: store_admit_def Let_def\<close>)
    next
      case res: (Inr found)
      then have found: "fs_results ?fs (vs_instance step) = found"
          "is_ok (validate_host_instance (vs_instance step))"
        by (auto simp: recorded_result_def result_simps is_ok_iff)
      show ?thesis
      proof (cases found)
        case (Some x)
        then show ?thesis
          by (intro settled [OF Inr settle]) (use assms Inr settle res in \<open>auto simp: store_admit_def Let_def\<close>)
      next
        case None
        show ?thesis
        proof (cases "fs_started ?fs (vs_instance step)")
          case (Some started)
          then show ?thesis
            by (intro lost [OF Inr settle _ Some])
              (use assms Inr settle res None in \<open>auto simp: store_admit_def Let_def\<close>)
        next
          case new: None
          show ?thesis
          proof (cases "store_start sv r' step cgroup now")
            case (Inl e)
            then show ?thesis
              by (intro settled [OF Inr settle])
                (use assms Inr settle res None new in \<open>auto simp: store_admit_def Let_def\<close>)
          next
            case start: (Inr sa)
            obtain started adv where sa: "sa = (started, adv)" by force
            show ?thesis
              by (rule run [OF Inr settle _ _ new start [unfolded sa]])
                (use assms Inr settle res None new start sa found in \<open>auto simp: store_admit_def Let_def\<close>)
          qed
        qed
      qed
    qed
  qed
qed

lemma idle_put_all [simp]: "idle c (put_all c ws y) = idle c y"
  by (intro ext) (simp add: idle_def busy_def)

lemma settle_keeps:
  assumes "settle_last alive (sy_store y) r now = (ws, Inr r')" and "reads c y r"
  shows "ar_environment r' = ar_environment r \<and> ar_product r' = ar_product r
    \<and> ar_generation r' = ar_generation r \<and> ar_high_water r' = ar_high_water r
    \<and> ar_state r' = ar_state r
    \<and> rec_key c r' = rec_key c r \<and> started_at (put_all c ws y) = started_at y"
  using assms(1) by (cases rule: settle_last_Inr) (simp_all add: rec_key_def)

lemma settled_instance_safe:
  assumes inv: "sys_inv c sv owner y" and lock: "sy_running y (product_key c e p) = None"
    and read: "read_record c (sy_store y) e p = Inr r"
    and settle: "settle_last (\<lambda>s. s \<in> sy_alive y) (sy_store y) r now = (ws, Inr r')"
    and own: "owner (rs_instance res) = (e, p)"
  shows "safe_writes c sv owner (ws @ [Write_Result res]) y"
proof -
  have r: "reads c y r" and k: "rec_key c r = product_key c e p"
    using read_record_reads [OF inv read] by (simp_all add: rec_key_def)
  have lock': "sy_running y (rec_key c r) = None" using lock k by simp
  have safe: "safe_writes c sv owner ws y"
    using settle_safe [OF inv lock' r settle] by (rule conjunct1)
  have idle: "idle c (put_all c ws y) (product_key c e p)"
    using settle_idle [OF inv lock' r settle] k by simp
  note inv1 = safe_writes_inv [OF safe]
  have "sys_inv c sv owner (put c (Write_Result res) (put_all c ws y))"
    by (rule put_result_inv [OF inv1]) (rule instance_free [OF inv1 idle own])
  then show ?thesis
    by (intro safe_writes_append [OF safe] safe_writes_Cons [OF inv1]) simp
qed

lemma store_start_facts:
  assumes "store_start sv r step cgroup now = Inr (started, adv)"
  shows "sa_instance started = vs_instance step" "sa_environment started = vs_environment step"
    "sa_product started = vs_product step" "sa_generation started = ar_generation adv"
    "sa_action started = vs_action step" "sa_cgroup started = cgroup"
    "ar_environment adv = vs_environment step" "ar_product adv = vs_product step"
    "ar_environment r = vs_environment step" "ar_product r = vs_product step"
    "ar_high_water adv = ar_high_water r" "ar_last_started adv = Some started"
    "ar_last_result adv = None" "ar_generation r \<le> ar_generation adv"
    "vs_action step \<noteq> HostHealth \<Longrightarrow> ar_generation r < ar_generation adv"
    "vs_expected_generation step = ar_generation r"
proof -
  obtain g st where env: "ar_environment r = vs_environment step" "ar_product r = vs_product step"
      "vs_expected_generation step = ar_generation r"
    and st: "started = started_record (step\<lparr>vs_approvals := approvals_at (vs_approvals step) now\<rparr>) g cgroup now"
    and adv: "adv = r\<lparr>ar_generation := g, ar_state := st, ar_last_started := Some started, ar_last_result := None\<rparr>"
    and g: "next_generation (vs_action step) (ar_generation r) = Inr g"
    using conjunct1 [OF store_start_ok [OF assms]] by (rule record_admit_ok) simp
  note gen = next_generation_ok [OF g]
  show "sa_instance started = vs_instance step" "sa_environment started = vs_environment step"
    "sa_product started = vs_product step" "sa_generation started = ar_generation adv"
    "sa_action started = vs_action step" "sa_cgroup started = cgroup"
    unfolding st adv by (simp_all add: started_record_def)
  show "ar_environment adv = vs_environment step" "ar_product adv = vs_product step"
    "ar_high_water adv = ar_high_water r" "ar_last_started adv = Some started" "ar_last_result adv = None"
    unfolding adv using env by simp_all
  show "ar_environment r = vs_environment step" "ar_product r = vs_product step"
    "vs_expected_generation step = ar_generation r" by (fact env)+
  show "ar_generation r \<le> ar_generation adv" unfolding adv using gen by simp
  show "vs_action step \<noteq> HostHealth \<Longrightarrow> ar_generation r < ar_generation adv" unfolding adv using gen by simp
qed

lemma start_next_generation:
  assumes "store_start sv r step cgroup now = Inr (started, adv)"
  shows "next_generation (vs_action step) (ar_generation r) = Inr (ar_generation adv)"
proof -
  obtain g st where
    adv: "adv = r\<lparr>ar_generation := g, ar_state := st, ar_last_started := Some started, ar_last_result := None\<rparr>"
    and g: "next_generation (vs_action step) (ar_generation r) = Inr g"
    using conjunct1 [OF store_start_ok [OF assms(1)]] by (rule record_admit_ok) simp
  show ?thesis unfolding adv using g by simp
qed

lemma start_generation:
  assumes "store_start sv r step cgroup now = Inr (started, adv)"
  shows "vs_action step \<noteq> HostHealth \<Longrightarrow> unat (ar_generation adv) = Suc (unat (ar_generation r))"
    and "vs_action step = HostHealth \<Longrightarrow> ar_generation adv = ar_generation r"
  using next_generation_ok [OF start_next_generation [OF assms]] by simp_all

definition run_post ::
  "('k, 'z) crypto_scheme \<Rightarrow> applier_sys \<Rightarrow> applier_sys \<Rightarrow> HostApplyStarted
     \<Rightarrow> AppliedStateRecord \<Rightarrow> bool" where
  "run_post c y y' started adv \<longleftrightarrow>
     open_start c y' started \<and> rec_at y' (started_key c started) = Some adv
     \<and> started_at y (sa_instance started) = None
     \<and> idle c y (started_key c started)
     \<and> (\<forall>r0. rec_at y (started_key c started) = Some r0 \<longrightarrow> sa_action started \<noteq> HostHealth \<longrightarrow>
          ar_generation r0 < sa_generation started)"

lemma start_safe:
  assumes inv: "sys_inv c sv owner y" and r: "reads c y r" and idle: "idle c y (rec_key c r)"
    and own: "owner (vs_instance step) = (vs_environment step, vs_product step)"
    and new: "started_at y (vs_instance step) = None"
    and start: "store_start sv r step cgroup now = Inr (started, adv)"
  shows "safe_writes c sv owner [Write_Record adv, Write_Started started] y"
proof -
  note f = store_start_facts [OF start]
  have k: "rec_key c adv = rec_key c r" "started_key c started = rec_key c r"
    by (simp_all add: rec_key_def started_key_def f)
  have ok: "record_ok owner adv" by (simp add: record_ok_def owned_def same_product_def f own)
  have adv: "advances sv r0 adv" if "rec_at y (rec_key c adv) = Some r0" for r0
  proof -
    have "r0 = r" using that r k by (auto simp: reads_def)
    then show ?thesis by (simp add: advances_def keeps_mark_def f)
  qed
  have inv2: "sys_inv c sv owner (put c (Write_Record adv) y)"
    by (rule put_record_inv [OF inv ok _ adv]) (use idle k in \<open>auto simp: idle_def\<close>)
  have "sys_inv c sv owner (put c (Write_Started started) (put c (Write_Record adv) y))"
    by (rule put_started_inv [OF inv2])
      (simp_all add: new f own owned_def backed_def same_product_def k)
  then show ?thesis
    by (intro safe_writes_Cons [OF inv] safe_writes_Cons [OF inv2]) simp
qed

lemma admit_run_safe:
  assumes inv: "sys_inv c sv owner y"
    and lock: "sy_running y (product_key c (vs_environment step) (vs_product step)) = None"
    and own: "owner (vs_instance step) = (vs_environment step, vs_product step)"
    and read: "read_record c (sy_store y) (vs_environment step) (vs_product step) = Inr r"
    and settle: "settle_last (\<lambda>s. s \<in> sy_alive y) (sy_store y) r now = (ws, Inr r')"
    and res: "result_at (put_all c ws y) (vs_instance step) = None"
    and new: "started_at (put_all c ws y) (vs_instance step) = None"
    and start: "store_start sv r' step cgroup now = Inr (started, adv)"
  shows "safe_writes c sv owner (ws @ [Write_Record adv, Write_Started started]) y
    \<and> run_post c y (put_all c (ws @ [Write_Record adv, Write_Started started]) y) started adv"
proof -
  have r: "reads c y r" "rec_key c r = product_key c (vs_environment step) (vs_product step)"
    using read_record_reads [OF inv read] by (simp_all add: rec_key_def)
  have lock': "sy_running y (rec_key c r) = None" using lock r(2) by simp
  note safe = settle_safe [OF inv lock' r(1) settle]
  note idle = settle_idle [OF inv lock' r(1) settle]
  note keep = settle_keeps [OF settle r(1)]
  note f = store_start_facts [OF start]
  have k: "rec_key c adv = rec_key c r" "started_key c started = rec_key c r"
    using r(2) by (simp_all add: rec_key_def started_key_def f)
  have "safe_writes c sv owner [Write_Record adv, Write_Started started] (put_all c ws y)"
    by (rule start_safe [OF safe_writes_inv [OF conjunct1 [OF safe]] conjunct1 [OF conjunct2 [OF safe]]
          _ own new start]) (use idle keep in simp)
  then have w: "safe_writes c sv owner (ws @ [Write_Record adv, Write_Started started]) y"
    by (rule safe_writes_append [OF conjunct1 [OF safe]])
  have "ar_generation r0 < sa_generation started"
    if "rec_at y (rec_key c r) = Some r0" "vs_action step \<noteq> HostHealth" for r0
    using that f(15) r(1) keep by (auto simp: reads_def f(4))
  then have "run_post c y (put_all c (ws @ [Write_Record adv, Write_Started started]) y) started adv"
    using res new keep idle by (simp add: run_post_def put_all_append open_start_def k f)
  with w show ?thesis by (rule conjI)
qed

lemma admit_safe:
  assumes inv: "sys_inv c sv owner y"
    and lock: "sy_running y (product_key c (vs_environment step) (vs_product step)) = None"
    and own: "owner (vs_instance step) = (vs_environment step, vs_product step)"
    and run: "store_admit c sv (\<lambda>s. s \<in> sy_alive y) (sy_store y) step cgroup now = (ws, out)"
  shows "safe_writes c sv owner ws y
    \<and> (\<forall>started adv. out = Inr (Run started adv) \<longrightarrow> run_post c y (put_all c ws y) started adv)"
  using run
proof (cases rule: store_admit_cases)
  case refused
  then show ?thesis using inv by simp
next
  case (settled r ws0 r')
  have "reads c y r \<and> sy_running y (rec_key c r) = None"
    using read_record_reads [OF inv settled(1)] lock by (simp add: rec_key_def)
  then show ?thesis using settle_safe [OF inv _ _ settled(2)] settled(3,4) by simp
next
  case (lost r ws0 r' started)
  have "reads c y r" using read_record_reads [OF inv lost(1)] by simp
  then have "started_at y (vs_instance step) = Some started"
    using settle_keeps [OF lost(2), of c] lost(4) by (simp add: put_all_def)
  then have "sa_instance started = vs_instance step"
    using inv by (auto simp: sys_inv_def starts_ok_def)
  then have "safe_writes c sv owner ws y"
    unfolding lost(3) by (intro settled_instance_safe [OF inv lock lost(1,2)]) (simp add: own)
  then show ?thesis using lost(5) by simp
next
  case (run r ws0 r' started adv)
  have "result_at (put_all c ws0 y) (vs_instance step) = None"
    "started_at (put_all c ws0 y) (vs_instance step) = None"
    using run(4,5) by (simp_all add: put_all_def)
  from admit_run_safe [OF inv lock own run(1,2) this run(6)]
  show ?thesis using run(3,7) by simp
qed

section \<open>Recovery, completion and crashes\<close>

lemma store_recover_cases:
  assumes "store_recover c alive fs inst now = (ws, out)"
  obtains (none) "ws = []"
  | (settled) started r r' where "fs_started fs inst = Some started"
      "read_record c fs (sa_environment started) (sa_product started) = Inr r"
      "settle_last alive fs r now = (ws, Inr r')"
  | (lost) started r ws0 r' where "fs_started fs inst = Some started"
      "read_record c fs (sa_environment started) (sa_product started) = Inr r"
      "settle_last alive fs r now = (ws0, Inr r')" "ws = ws0 @ [Write_Result (interrupted started now)]"
  using assms
  by (auto simp: store_recover_def Let_def split: sum.splits option.splits prod.splits
      dest: settle_last_Inl)

lemma recover_safe:
  assumes inv: "sys_inv c sv owner y"
    and lock: "\<forall>s. started_at y inst = Some s \<longrightarrow> sy_running y (started_key c s) = None"
    and run: "store_recover c (\<lambda>s. s \<in> sy_alive y) (sy_store y) inst now = (ws, out)"
  shows "safe_writes c sv owner ws y"
  using run
proof (cases rule: store_recover_cases)
  case none
  then show ?thesis using inv by simp
next
  case (settled started r r')
  have "reads c y r \<and> sy_running y (rec_key c r) = None"
    using read_record_reads [OF inv settled(2)] lock settled(1) by (simp add: rec_key_def started_key_def)
  then show ?thesis using settle_safe [OF inv _ _ settled(3)] by simp
next
  case (lost started r ws0 r')
  have "sa_instance started = inst" "owned owner started"
    using inv lost(1) by (auto simp: sys_inv_def starts_ok_def)
  then have own: "owner (rs_instance (interrupted started now)) = (sa_environment started, sa_product started)"
    by (simp add: owned_def)
  have "sy_running y (product_key c (sa_environment started) (sa_product started)) = None"
    using lock lost(1) by (simp add: started_key_def)
  then show ?thesis
    unfolding lost(4) by (rule settled_instance_safe [OF inv _ lost(2,3) own])
qed

lemma drop_process:
  assumes inv: "sys_inv c sv owner y"
    and R: "\<And>k v. R k = Some v \<Longrightarrow> sy_running y k = Some v" and A: "A \<subseteq> sy_alive y"
  shows "sys_inv c sv owner (y\<lparr>sy_running := R, sy_alive := A\<rparr>)"
proof -
  let ?y = "y\<lparr>sy_running := R, sy_alive := A\<rparr>"
  have same: "open_start c ?y = open_start c y" "backed c ?y = backed c y" "marked sv ?y = marked sv y"
    by (intro ext; simp add: open_start_def backed_def marked_def)+
  have "records_ok c owner ?y" "starts_ok c owner ?y" "ran_ok c ?y" "applied_ok sv ?y"
    using inv same by (simp_all add: sys_inv_def records_ok_def starts_ok_def ran_ok_def applied_ok_def)
  moreover have "running_ok c ?y"
    unfolding running_ok_def same
  proof (intro allI impI)
    fix k s r assume "sy_running ?y k = Some (s, r)"
    then have "sy_running y k = Some (s, r)" using R by simp
    then show "started_key c s = k \<and> rec_at ?y k = Some r \<and> open_start c y s"
      using inv by (simp add: sys_inv_def running_ok_def)
  qed
  moreover have "alive_ok c ?y" using inv A same by (auto simp: sys_inv_def alive_ok_def)
  ultimately show ?thesis by (simp add: sys_inv_def)
qed

lemma is_newer_trans:
  assumes "semver_laws sv" and "is_newer sv a b" and "is_newer sv b d"
  shows "is_newer sv a d"
proof -
  have "sv_prec_less sv x z" if "sv_prec_less sv x y" "sv_prec_less sv y z" for x y z
    using assms(1) that unfolding semver_laws_def by blast
  moreover obtain x y z where "sv_parse sv a = Some x" "sv_parse sv b = Some y" "sv_parse sv d = Some z"
      "sv_prec_less sv y x" "sv_prec_less sv z y"
    using assms(2,3) by (fastforce simp: is_newer_def split: option.splits)
  ultimately show ?thesis unfolding is_newer_def by simp
qed

lemma is_newer_irrefl: "semver_laws sv \<Longrightarrow> \<not> is_newer sv a a"
  by (simp add: is_newer_def semver_prec_irrefl split: option.splits)

lemma raise_keeps:
  assumes "semver_laws sv"
  obtains h where "raise_high_water sv rel m = Some h" "\<not> is_newer sv (hr_version rel) (hr_version h)"
    "\<And>h0 v. m = Some h0 \<Longrightarrow> \<not> is_newer sv v (hr_version h0) \<Longrightarrow> \<not> is_newer sv v (hr_version h)"
proof (cases "raise_high_water sv rel m = Some rel")
  case True
  then show ?thesis
    using that [of rel] is_newer_irrefl [OF assms] is_newer_trans [OF assms]
    by (auto simp: raise_high_water_def split: option.splits if_splits)
next
  case False
  then show ?thesis using that by (auto simp: raise_high_water_def split: option.splits if_splits)
qed

lemma complete_facts:
  "ar_environment (record_complete sv r s res) = ar_environment r"
  "ar_product (record_complete sv r s res) = ar_product r"
  "ar_generation (record_complete sv r s res) = ar_generation r"
  "ar_last_started (record_complete sv r s res) = ar_last_started r"
  "ar_last_result (record_complete sv r s res) = Some res"
  "ar_high_water (record_complete sv r s res) =
     (if outcome_succeeded (rs_outcome res) \<and> sa_action s = HostInstall
      then raise_high_water sv (sa_release s) (ar_high_water r) else ar_high_water r)"
  by (simp_all add: record_complete_def Let_def split: HostAction.splits)

lemma complete_advances:
  assumes "semver_laws sv"
  shows "advances sv r (record_complete sv r s res)"
proof -
  obtain h where "raise_high_water sv (sa_release s) (ar_high_water r) = Some h"
    "\<And>h0 v. ar_high_water r = Some h0 \<Longrightarrow> \<not> is_newer sv v (hr_version h0) \<Longrightarrow> \<not> is_newer sv v (hr_version h)"
    using raise_keeps [OF assms] by metis
  then show ?thesis by (auto simp: advances_def complete_facts keeps_mark_def)
qed

lemma applied_append:
  assumes inv: "sys_inv c sv owner y" and new: "\<forall>a\<in>set as. marked sv y a"
  shows "sys_inv c sv owner (y\<lparr>sy_applied := sy_applied y @ as\<rparr>)"
proof -
  let ?y = "y\<lparr>sy_applied := sy_applied y @ as\<rparr>"
  have same: "open_start c ?y = open_start c y" "backed c ?y = backed c y" "marked sv ?y = marked sv y"
    by (intro ext; simp add: open_start_def backed_def marked_def)+
  have "applied_ok sv ?y" using inv new by (auto simp: sys_inv_def applied_ok_def same)
  then show ?thesis
    using inv by (simp add: sys_inv_def records_ok_def starts_ok_def running_ok_def alive_ok_def ran_ok_def same)
qed

lemma finish_safe:
  assumes laws: "semver_laws sv" and inv: "sys_inv c sv owner y"
    and run: "sy_running y k = Some (started, record)"
    and fin: "running_finish sv started record outcome ex detail now = (ws, result)"
  shows "safe_writes c sv owner ws
    (y\<lparr>sy_running := (sy_running y)(k := None), sy_alive := sy_alive y - {started}\<rparr>)"
proof -
  let ?y = "y\<lparr>sy_running := (sy_running y)(k := None), sy_alive := sy_alive y - {started}\<rparr>"
  let ?r = "record_complete sv record started result"
  have k: "started_key c started = k" "rec_at y k = Some record" "open_start c y started"
    using inv run by (auto simp: sys_inv_def running_ok_def)
  then have last: "ar_last_started record = Some started" by (auto simp: open_start_def)
  have rk: "rec_key c record = k" "record_ok owner record"
    using inv k(2) by (auto simp: sys_inv_def records_ok_def)
  have rk': "rec_key c ?r = k" using rk(1) by (simp add: rec_key_def complete_facts)
  have ws: "ws = [Write_Record ?r, Write_Result result]" and res: "rs_instance result = sa_instance started"
      "rs_outcome result = outcome"
    using fin by (auto simp: running_finish_def Let_def started_result_def)
  have inv0: "sys_inv c sv owner ?y"
    by (rule drop_process [OF inv]) (auto split: if_splits)
  have idle: "idle c ?y k"
    unfolding idle_def
  proof (intro allI impI notI)
    fix s assume b: "busy ?y s" and sk: "started_key c s = k"
    have "open_start c ?y s" by (rule busy_open [OF inv0 b])
    then have "s = started" using k sk last by (auto simp: open_start_def)
    moreover have "sy_running y k' = Some (s, r') \<Longrightarrow> k' = k" for k' r'
      using inv sk by (auto simp: sys_inv_def running_ok_def)
    ultimately show False using b by (auto simp: busy_def split: if_splits)
  qed
  have "record_ok owner ?r"
    using rk(2) last res by (simp add: record_ok_def complete_facts same_product_def)
  then have inv1: "sys_inv c sv owner (put c (Write_Record ?r) ?y)"
    by (rule put_record_inv [OF inv0]) (use idle k rk' complete_advances [OF laws] in \<open>auto simp: idle_def\<close>)
  have idle1: "idle c (put c (Write_Record ?r) ?y) (product_key c (sa_environment started) (sa_product started))"
    using idle k(1) by (simp add: started_key_def)
  have "owner (rs_instance result) = (sa_environment started, sa_product started)"
    using rk(2) last res by (simp add: record_ok_def owned_def)
  then have inv2: "sys_inv c sv owner (put c (Write_Result result) (put c (Write_Record ?r) ?y))"
    by (intro put_result_inv [OF inv1] instance_free [OF inv1 idle1])
  show ?thesis
    unfolding ws by (intro safe_writes_Cons [OF inv0] safe_writes_Cons [OF inv1]) (simp add: inv2)
qed

lemma finish_marks:
  assumes laws: "semver_laws sv" and inv: "sys_inv c sv owner y"
    and run: "sy_running y k = Some (started, record)"
    and fin: "running_finish sv started record outcome ex detail now = (ws, result)"
    and a: "a \<in> set (newly_applied c n started outcome)"
  shows "marked sv (put_all c (take n ws) y') a"
proof -
  have k: "started_key c started = k" "rec_at y k = Some record"
    using inv run by (auto simp: sys_inv_def running_ok_def)
  then have rk: "rec_key c record = k" using inv by (auto simp: sys_inv_def records_ok_def)
  let ?r = "record_complete sv record started result"
  have a: "0 < n" "a = (k, sa_release started)" "sa_action started = HostInstall" "outcome_succeeded outcome"
    using a k by (auto simp: newly_applied_def split: if_splits)
  have ws: "ws = [Write_Record ?r, Write_Result result]" "rs_outcome result = outcome"
    using fin by (auto simp: running_finish_def Let_def started_result_def)
  obtain h where h: "ar_high_water ?r = Some h" "\<not> is_newer sv (hr_version (sa_release started)) (hr_version h)"
    by (rule raise_keeps [OF laws, of "sa_release started" "ar_high_water record"])
      (use a ws(2) in \<open>simp add: complete_facts\<close>)
  have "rec_at (put_all c (take n ws) y') k = Some ?r"
    using a(1) rk by (cases n rule: nat.exhaust; cases "n - 1"; simp add: ws(1) rec_key_def complete_facts)
  with h a(2) show ?thesis by (simp add: marked_def)
qed

lemma started_run_inv:
  assumes inv: "sys_inv c sv owner y" and inv': "sys_inv c sv owner (put_all c ws y)"
    and post: "run_post c y (put_all c ws y) started adv"
    and keep: "\<And>s. s \<in> set (sy_ran y) \<Longrightarrow> started_key c s = started_key c started \<Longrightarrow>
       sa_action started \<noteq> HostHealth \<Longrightarrow> sa_generation s < sa_generation started"
  shows "sys_inv c sv owner
    ((put_all c ws y)\<lparr>sy_running := (sy_running y)(started_key c started := Some (started, adv)),
       sy_alive := insert started (sy_alive y), sy_ran := sy_ran y @ [started]\<rparr>)"
    (is "sys_inv c sv owner ?z")
proof -
  let ?y = "put_all c ws y"
  have same: "open_start c ?z = open_start c ?y" "backed c ?z = backed c ?y" "marked sv ?z = marked sv ?y"
    by (intro ext; simp add: open_start_def backed_def marked_def)+
  have post: "open_start c ?y started" "rec_at ?y (started_key c started) = Some adv"
    "started_at y (sa_instance started) = None"
    using post by (simp_all add: run_post_def)
  have "running_ok c ?z" using inv' post by (simp add: sys_inv_def running_ok_def same)
  moreover have "alive_ok c ?z" using inv' post by (simp add: sys_inv_def alive_ok_def same)
  moreover have "ran_ok c ?z"
  proof -
    have "started_at y (sa_instance s) = Some s" if "s \<in> set (sy_ran y)" for s
      using inv that by (simp add: sys_inv_def ran_ok_def)
    then have "sa_instance started \<notin> sa_instance ` set (sy_ran y)"
      using post(3) by (metis imageE option.distinct(1))
    moreover have "started_at ?y (sa_instance started) = Some started"
      using post(1) by (simp add: open_start_def)
    ultimately show ?thesis
      using inv' keep by (simp add: sys_inv_def ran_ok_def sorted_wrt_append)
  qed
  ultimately show ?thesis
    using inv' by (simp add: sys_inv_def records_ok_def starts_ok_def applied_ok_def same)
qed

lemma ran_generations:
  assumes inv: "sys_inv c sv owner y" and s: "s \<in> set (sy_ran y)"
  obtains r where "rec_at y (started_key c s) = Some r" "same_product s r" "sa_generation s \<le> ar_generation r"
proof -
  have "started_at y (sa_instance s) = Some s" using inv s by (simp add: sys_inv_def ran_ok_def)
  then have "backed c y s" using inv by (auto simp: sys_inv_def starts_ok_def)
  then show ?thesis using that by (auto simp: backed_def)
qed

lemma applier_step_inv:
  assumes laws: "semver_laws sv" and "applier_step c sv owner y y'" and inv: "sys_inv c sv owner y"
  shows "sys_inv c sv owner y'"
  using assms(2)
proof cases
  case (admit_part step raw now_ms ws out n)
  have "safe_writes c sv owner ws y"
    using admit_safe [OF inv admit_part(2-4)] by (rule conjunct1)
  then show ?thesis using admit_part(1) by (simp add: safe_writes_def put_all_def)
next
  case (admit_run step raw now_ms ws started advanced)
  note safe = admit_safe [OF inv admit_run(2-4)]
  have post: "run_post c y (put_all c ws y) started advanced"
    using conjunct2 [OF safe] by simp
  have "sa_generation s < sa_generation started"
    if s: "s \<in> set (sy_ran y)" "started_key c s = started_key c started" "sa_action started \<noteq> HostHealth" for s
  proof -
    obtain r where "rec_at y (started_key c s) = Some r" "sa_generation s \<le> ar_generation r"
      by (rule ran_generations [OF inv s(1)])
    then show ?thesis using post s(2,3) by (auto simp: run_post_def)
  qed
  from started_run_inv [OF inv safe_writes_inv [OF conjunct1 [OF safe]] post this]
  show ?thesis using admit_run(1) by (simp add: put_all_def)
next
  case (recover inst now_ms ws out' n)
  have "safe_writes c sv owner ws y" by (rule recover_safe [OF inv recover(2,3)])
  then show ?thesis using recover(1) by (simp add: safe_writes_def put_all_def)
next
  case (refuse inst reason ws)
  then have "y' = put c (Write_Refused inst reason) y"
    by (auto simp: record_refusal_def result_simps put_def apply_writes_def)
  then show ?thesis using put_refused_inv [OF inv] by simp
next
  case (finish k started rec outcome exit_status detail now_ms ws result n)
  let ?y = "y\<lparr>sy_running := (sy_running y)(k := None), sy_alive := sy_alive y - {started}\<rparr>"
  have "sys_inv c sv owner (put_all c (take n ws) ?y)"
    using finish_safe [OF laws inv finish(2,3)] by (simp add: safe_writes_def)
  moreover have "\<forall>a\<in>set (newly_applied c n started outcome). marked sv (put_all c (take n ws) ?y) a"
    using finish_marks [OF laws inv finish(2,3)] by blast
  ultimately have "sys_inv c sv owner ((put_all c (take n ws) ?y)
      \<lparr>sy_applied := sy_applied (put_all c (take n ws) ?y) @ newly_applied c n started outcome\<rparr>)"
    by (rule applied_append)
  moreover have "y' = (put_all c (take n ws) ?y)
      \<lparr>sy_applied := sy_applied (put_all c (take n ws) ?y) @ newly_applied c n started outcome\<rparr>"
    using finish(1) by (simp add: put_all_def)
  ultimately show ?thesis by simp
next
  case (crash k)
  have "sys_inv c sv owner (y\<lparr>sy_running := (sy_running y)(k := None), sy_alive := sy_alive y\<rparr>)"
    by (rule drop_process [OF inv]) (auto split: if_splits)
  then show ?thesis using crash by simp
next
  case (command_exit s)
  have "sys_inv c sv owner (y\<lparr>sy_running := sy_running y, sy_alive := sy_alive y - {s}\<rparr>)"
    by (rule drop_process [OF inv]) auto
  then show ?thesis using command_exit by simp
qed

lemma initial_inv: "sys_inv c sv owner initial_sys"
  by (simp add: sys_inv_def initial_sys_def records_ok_def starts_ok_def running_ok_def alive_ok_def
      ran_ok_def applied_ok_def)

lemma reachable_inv:
  assumes "semver_laws sv" and "reachable c sv owner y"
  shows "sys_inv c sv owner y"
  using assms(2) by induction (simp_all add: initial_inv applier_step_inv [OF assms(1)])

end
