(* ===== verification/Applier_Theorems.thy ===== *)
theory Applier_Theorems
  imports Applier_Safety
begin

text \<open>
  The properties of the root-side applier: at most one run of an instance, one live command of a
  product, no stale step, no silent downgrade, recovery that always settles, the refinement of an
  abstract generation gate, and refusals that block nothing.  A short sample run gives the witnesses.
\<close>

section \<open>What the invariant gives\<close>

lemma same_key:
  "sa_environment s = sa_environment t \<Longrightarrow> sa_product s = sa_product t \<Longrightarrow> started_key c s = started_key c t"
  by (simp add: started_key_def)

lemma admit_run_facts:
  assumes inv: "sys_inv c sv owner y"
    and run: "store_admit c sv (\<lambda>s. s \<in> sy_alive y) (sy_store y) step cgroup now
      = (ws, Inr (Run started adv))"
  obtains r r' where "reads c y r" "rec_key c r = product_key c (vs_environment step) (vs_product step)"
    "ar_generation r' = ar_generation r" "ar_high_water r' = ar_high_water r"
    "store_start sv r' step cgroup now = Inr (started, adv)"
  using run
proof (cases rule: store_admit_cases)
  case (run r ws0 r' s a)
  note rd = read_record_reads [OF inv run(1)]
  note keep = settle_keeps [OF run(2) conjunct1 [OF rd]]
  show ?thesis
    by (rule that [of r r']) (use rd keep run(6,7) in \<open>simp_all add: rec_key_def\<close>)
qed blast+

lemma start_checks_mark:
  assumes "store_start sv r step cgroup now = Inr (started, adv)"
    and "ar_high_water r = Some h" and "vs_action step = HostInstall"
    and "\<not> is_newer sv (hr_version (vs_release step)) (hr_version h)"
  shows "require_purpose (approvals_at (vs_approvals step) now) (downgrade_purpose (vs_step_action step)) = Inr ()"
proof -
  have "check_high_water sv r (step\<lparr>vs_approvals := approvals_at (vs_approvals step) now\<rparr>) = Inr ()"
    using conjunct1 [OF store_start_ok [OF assms(1)]] by (rule record_admit_ok)
  then show ?thesis using assms(2-) by (simp add: check_high_water_def map_err_eq_Inr)
qed

lemma not_newer_trans:
  assumes laws: "semver_laws sv" and "sv_parse sv b \<noteq> None"
    and "\<not> is_newer sv a b" and "\<not> is_newer sv b d"
  shows "\<not> is_newer sv a d"
proof -
  have "sv_prec_less sv x z \<Longrightarrow> sv_prec_less sv x y \<or> sv_prec_less sv y z" for x y z
    using laws unfolding semver_laws_def by blast
  then show ?thesis using assms(2-) by (auto simp: is_newer_def split: option.splits)
qed

section \<open>Recorded starts are well named\<close>

definition named :: "HostApplyStarted \<Rightarrow> bool" where
  "named s \<longleftrightarrow> is_ok (validate_host_instance (sa_instance s))
     \<and> (case sa_cgroup s of None \<Rightarrow> True | Some path \<Rightarrow> is_unit_group path)"

fun named_write :: "disk_write \<Rightarrow> bool" where
  "named_write (Write_Record r) = (\<forall>s. ar_last_started r = Some s \<longrightarrow> named s)"
| "named_write (Write_Started s) = named s"
| "named_write _ = True"

definition named_sys :: "applier_sys \<Rightarrow> bool" where
  "named_sys y \<longleftrightarrow> (\<forall>k r. rec_at y k = Some r \<longrightarrow> named_write (Write_Record r))
     \<and> (\<forall>i s. started_at y i = Some s \<longrightarrow> named s)
     \<and> (\<forall>k s r. sy_running y k = Some (s, r) \<longrightarrow> named_write (Write_Record r))"

lemma own_cgroup_unit: "own_cgroup raw = Some path \<Longrightarrow> is_unit_group path"
  by (auto simp: own_cgroup_def split: option.splits list.splits if_splits)

lemma named_put: "named_sys y \<Longrightarrow> named_write w \<Longrightarrow> named_sys (put c w y)"
  by (cases w) (auto simp: named_sys_def)

lemma named_put_all: "named_sys y \<Longrightarrow> list_all named_write ws \<Longrightarrow> named_sys (put_all c (take n ws) y)"
proof (induction ws arbitrary: y n)
  case (Cons w ws)
  then show ?case by (cases n) (simp_all add: named_put)
qed simp

lemma reads_named: "named_sys y \<Longrightarrow> reads c y r \<Longrightarrow> named_write (Write_Record r)"
  using reads_last [of c y r] by (auto simp: named_sys_def)

lemma settle_named:
  assumes "settle_last alive (sy_store y) r now = (ws, Inr r')" and "named_write (Write_Record r)"
  shows "list_all named_write ws"
  using assms(1) by (cases rule: settle_last_Inr) (use assms(2) in simp_all)

lemma read_settle_named:
  assumes "sys_inv c sv owner y" and "named_sys y" and "read_record c (sy_store y) e p = Inr r"
    and "settle_last alive (sy_store y) r now = (ws, Inr r')"
  shows "list_all named_write ws"
  by (rule settle_named [OF assms(4)], rule reads_named [OF assms(2)],
      rule conjunct1 [OF read_record_reads [OF assms(1,3)]])

lemma admit_named:
  assumes inv: "sys_inv c sv owner y" and nm: "named_sys y"
    and run: "store_admit c sv (\<lambda>s. s \<in> sy_alive y) (sy_store y) step (own_cgroup raw) now = (ws, out)"
  shows "list_all named_write ws
    \<and> (\<forall>started adv. out = Inr (Run started adv) \<longrightarrow> named_write (Write_Record adv))"
  using run
proof (cases rule: store_admit_cases)
  case (settled r ws0 r')
  then show ?thesis using read_settle_named [OF inv nm settled(1,2)] by simp
next
  case (lost r ws0 r' started)
  then show ?thesis using read_settle_named [OF inv nm lost(1,2)] by simp
next
  case (run r ws0 r' started adv)
  have "named started"
    using store_start_facts(1,6) [OF run(6)] run(8) own_cgroup_unit [of raw]
    by (auto simp: named_def split: option.splits)
  then show ?thesis
    using read_settle_named [OF inv nm run(1,2)] run(3,7) store_start_facts(12) [OF run(6)] by simp
qed simp

lemma recover_named:
  assumes inv: "sys_inv c sv owner y" and nm: "named_sys y"
    and run: "store_recover c (\<lambda>s. s \<in> sy_alive y) (sy_store y) inst now = (ws, out)"
  shows "list_all named_write ws"
  using run
proof (cases rule: store_recover_cases)
  case (settled started r r')
  show ?thesis by (rule read_settle_named [OF inv nm settled(2,3)])
next
  case (lost started r ws0 r')
  then show ?thesis using read_settle_named [OF inv nm lost(2,3)] by simp
qed simp

lemma named_frame:
  assumes "named_sys (put_all c ws y)" and "sy_store z = apply_writes c ws (sy_store y)"
    and "\<And>k s r. sy_running z k = Some (s, r) \<Longrightarrow>
      sy_running y k = Some (s, r) \<or> named_write (Write_Record r)"
  shows "named_sys z"
proof -
  have "named_write (Write_Record r)" if "sy_running z k = Some (s, r)" for k s r
    using assms(3) [OF that] assms(1) by (auto simp: named_sys_def)
  then show ?thesis using assms(1,2) by (auto simp: named_sys_def put_all_def)
qed

lemma applier_step_named:
  assumes "applier_step c sv owner y y'" and inv: "sys_inv c sv owner y" and nm: "named_sys y"
  shows "named_sys y'"
  using assms(1)
proof cases
  case (admit_part step raw now_ms ws out n)
  then show ?thesis
    using named_put_all [OF nm conjunct1 [OF admit_named [OF inv nm admit_part(4)]]] by (simp add: put_all_def)
next
  case (admit_run step raw now_ms ws started advanced)
  note n = admit_named [OF inv nm admit_run(4)]
  have "named_sys (put_all c ws y)"
    using named_put_all [OF nm conjunct1 [OF n], of c "length ws"] by simp
  then show ?thesis
    by (rule named_frame) (use n in \<open>auto simp: admit_run(1) split: if_splits\<close>)
next
  case (recover inst now_ms ws out' n)
  then show ?thesis
    using named_put_all [OF nm recover_named [OF inv nm recover(3)]] by (simp add: put_all_def)
next
  case (refuse inst reason ws)
  then have "ws = [Write_Refused inst reason]" by (auto simp: record_refusal_def result_simps)
  then show ?thesis
    using refuse(1) named_put_all [OF nm, of ws c 1] by (simp add: put_all_def)
next
  case (finish k started rec outcome exit_status detail now_ms ws result n)
  have "named_write (Write_Record rec)" using nm finish(2) by (simp add: named_sys_def)
  then have "list_all named_write ws"
    using finish(3) by (auto simp: running_finish_def Let_def complete_facts)
  then have "named_sys (put_all c (take n ws) y)" by (rule named_put_all [OF nm])
  then show ?thesis
    by (rule named_frame) (auto simp: finish(1) split: if_splits)
next
  case (crash k)
  then show ?thesis using nm by (simp add: named_sys_def)
next
  case (command_exit s)
  then show ?thesis using nm by (simp add: named_sys_def)
qed

lemma reachable_named:
  assumes "semver_laws sv" and "reachable c sv owner y"
  shows "named_sys y"
  using assms(2)
proof induction
  case start
  show ?case by (simp add: named_sys_def initial_sys_def)
next
  case (step y y')
  then show ?case using applier_step_named reachable_inv [OF assms(1)] by blast
qed

section \<open>The generation gate\<close>

text \<open>The abstract machine the applier implements: one counter per product and a log of the commands
  that ran.  A command runs under a fresh instance, at the counter, and a changing one moves the
  counter on; a start that a crash lost moves the counter without a command.\<close>

record gate =
  gt_counter :: "string \<Rightarrow> nat"
  gt_log :: "(string \<times> string \<times> nat) list"

inductive gate_step :: "gate \<Rightarrow> gate \<Rightarrow> bool" where
  gate_stutter: "gate_step g g"
| gate_lost: "Suc (gt_counter g k) < 2 ^ 64
     \<Longrightarrow> gate_step g (g\<lparr>gt_counter := (gt_counter g)(k := Suc (gt_counter g k))\<rparr>)"
| gate_observe: "i \<notin> fst ` set (gt_log g)
     \<Longrightarrow> gate_step g (g\<lparr>gt_log := gt_log g @ [(i, k, gt_counter g k)]\<rparr>)"
| gate_change: "i \<notin> fst ` set (gt_log g) \<Longrightarrow> Suc (gt_counter g k) < 2 ^ 64
     \<Longrightarrow> gate_step g (g\<lparr>gt_counter := (gt_counter g)(k := Suc (gt_counter g k)),
           gt_log := gt_log g @ [(i, k, gt_counter g k)]\<rparr>)"

definition counter :: "applier_sys \<Rightarrow> string \<Rightarrow> nat" where
  "counter y k = (case rec_at y k of None \<Rightarrow> 0 | Some r \<Rightarrow> unat (ar_generation r))"

definition expected_of :: "HostApplyStarted \<Rightarrow> nat" where
  "expected_of s = unat (sa_generation s) - (if sa_action s = HostHealth then 0 else 1)"

definition gate_of :: "('k, 'z) crypto_scheme \<Rightarrow> applier_sys \<Rightarrow> gate" where
  "gate_of c y = \<lparr>gt_counter = counter y,
     gt_log = map (\<lambda>s. (sa_instance s, started_key c s, expected_of s)) (sy_ran y)\<rparr>"

lemma counter_put [simp]:
  "counter (put c (Write_Record r) y) = (counter y)(rec_key c r := unat (ar_generation r))"
  "counter (put c (Write_Started s) y) = counter y"
  "counter (put c (Write_Result x) y) = counter y"
  "counter (put c (Write_Refused i x') y) = counter y"
  by (intro ext; simp add: counter_def)+

lemma counter_store: "sy_store z = sy_store y \<Longrightarrow> counter z = counter y"
  by (intro ext) (simp add: counter_def)

lemma reads_counter: "reads c y r \<Longrightarrow> counter y (rec_key c r) = unat (ar_generation r)"
  by (erule reads_def [THEN iffD1, THEN disjE])
    (auto simp: counter_def empty_record_def dest: arg_cong [of _ _ ar_generation])

lemma settle_counter:
  assumes "reads c y r" and "settle_last alive (sy_store y) r now = (ws, Inr r')"
  shows "counter (put_all c (take n ws) y) = counter y"
  using assms(2)
proof (cases rule: settle_last_Inr)
  case (lost s)
  have "rec_key c r' = rec_key c r" "ar_generation r' = ar_generation r" by (simp_all add: lost(3) rec_key_def)
  moreover have "(counter y)(rec_key c r := unat (ar_generation r)) = counter y"
    using reads_counter [OF assms(1)] by (simp add: fun_upd_idem)
  ultimately show ?thesis unfolding lost(4) by (cases n; cases "n - 1"; simp)
next
  case (kept s x)
  then show ?thesis by (cases n) simp_all
qed simp_all

lemma settled_result_counter:
  assumes "reads c y r" and "settle_last alive (sy_store y) r now = (ws, Inr r')"
  shows "counter (put_all c (take n (ws @ [Write_Result x])) y) = counter y"
proof (cases "n \<le> length ws")
  case False
  then have "put_all c (take n (ws @ [Write_Result x])) y = put c (Write_Result x) (put_all c ws y)"
    by (simp add: put_all_append)
  then show ?thesis using settle_counter [OF assms, of "length ws"] by simp
qed (simp add: settle_counter [OF assms])

lemma start_counter:
  assumes rd: "reads c y r" and "settle_last alive (sy_store y) r now = (ws, Inr r')"
    and st: "store_start sv r' step cg now = Inr (started, adv)"
  shows "counter (put_all c (take n (ws @ [Write_Record adv, Write_Started started])) y) =
    (if n \<le> length ws then counter y
     else (counter y)(started_key c started := unat (sa_generation started)))"
    and "counter y (started_key c started) = expected_of started"
    and "sa_action started \<noteq> HostHealth \<Longrightarrow> unat (sa_generation started) = Suc (expected_of started)"
    and "sa_action started = HostHealth \<Longrightarrow> unat (sa_generation started) = expected_of started"
proof -
  note f = store_start_facts [OF st]
  note keep = settle_keeps [OF assms(2) rd]
  have k: "rec_key c adv = started_key c started" "rec_key c r = started_key c started"
    using keep by (simp_all add: rec_key_def started_key_def f)
  have gen: "sa_action started = HostHealth \<Longrightarrow> sa_generation started = ar_generation r'"
    using start_generation(2) [OF st] by (simp add: f)
  show c: "sa_action started \<noteq> HostHealth \<Longrightarrow> unat (sa_generation started) = Suc (expected_of started)"
    using start_generation(1) [OF st] by (simp add: expected_of_def f)
  show "sa_action started = HostHealth \<Longrightarrow> unat (sa_generation started) = expected_of started"
    by (simp add: expected_of_def)
  show "counter y (started_key c started) = expected_of started"
    using reads_counter [OF rd] k(2) keep gen start_generation(1) [OF st] by (simp add: expected_of_def f)
  note full = settle_counter [OF assms(1,2), of "length ws", simplified]
  have "take (n - length ws) [Write_Record adv, Write_Started started] = [Write_Record adv]
      \<or> take (n - length ws) [Write_Record adv, Write_Started started] = [Write_Record adv, Write_Started started]"
    if "\<not> n \<le> length ws"
    using that by (cases "n - length ws"; cases "n - length ws - 1") auto
  then show "counter (put_all c (take n (ws @ [Write_Record adv, Write_Started started])) y) =
    (if n \<le> length ws then counter y
     else (counter y)(started_key c started := unat (sa_generation started)))"
    using settle_counter [OF assms(1,2), of n] full k f(4) by (auto simp: put_all_append)
qed

section \<open>A sample run\<close>

lemma demo_own_cgroup: "own_cgroup (Some (''0::'' @ demo_cgroup)) = Some demo_cgroup"
  by code_simp

lemma demo_admits:
  "store_admit demo_crypto triple_semver (\<lambda>s. s \<in> sy_alive initial_sys) (sy_store initial_sys)
     (demo_host_step CHR ''a'' 0 None) (own_cgroup (Some (''0::'' @ demo_cgroup))) 100
   = ([Write_Record demo_advanced, Write_Started demo_started], Inr (Run demo_started demo_advanced))"
  by code_simp

lemma demo_steps:
  "applier_step demo_crypto triple_semver (\<lambda>_. (''prod'', ''web'')) initial_sys demo_running"
  "applier_step demo_crypto triple_semver (\<lambda>_. (''prod'', ''web'')) demo_running demo_finished"
proof -
  show "applier_step demo_crypto triple_semver (\<lambda>_. (''prod'', ''web'')) initial_sys demo_running"
    unfolding demo_running_def
    by (rule admit_run [OF _ _ demo_admits]) (simp_all add: initial_sys_def demo_host_step_def)
  show "applier_step demo_crypto triple_semver (\<lambda>_. (''prod'', ''web'')) demo_running demo_finished"
  proof (unfold demo_finished_def, rule finish)
    show "sy_running demo_running (started_key demo_crypto demo_started) = Some (demo_started, demo_advanced)"
      by (simp add: demo_running_def)
    show "running_finish triple_semver demo_started demo_advanced Outcome_Succeeded (Some 0) ''ok'' 200
        = (fst demo_finish, snd demo_finish)" by (simp add: demo_finish_def)
  qed
qed

lemma demo_reachable:
  "reachable demo_crypto triple_semver (\<lambda>_. (''prod'', ''web'')) demo_running"
  "reachable demo_crypto triple_semver (\<lambda>_. (''prod'', ''web'')) demo_finished"
  using reachable.start reachable.step demo_steps by metis+

lemma demo_crash_reachable:
  "reachable demo_crypto triple_semver (\<lambda>_. (''prod'', ''web'')) demo_crashed"
  unfolding demo_crashed_def Let_def
  by (rule reachable.step [OF reachable.step [OF demo_reachable(1) crash] command_exit])

lemma demo_second_install:
  "\<exists>ws started adv. store_admit demo_crypto triple_semver (\<lambda>s. s \<in> sy_alive demo_finished)
     (sy_store demo_finished) (demo_host_step CHR ''b'' 1 (Some ''1.2.0'')) None 300
   = (ws, Inr (Run started adv))"
proof -
  have "case store_admit demo_crypto triple_semver (\<lambda>s. s \<in> sy_alive demo_finished)
     (sy_store demo_finished) (demo_host_step CHR ''b'' 1 (Some ''1.2.0'')) None 300 of
       (ws, Inr (Run started adv)) \<Rightarrow> True | _ \<Rightarrow> False"
    by code_simp
  then show ?thesis by (auto split: prod.splits sum.splits Admission.splits)
qed

section \<open>Properties\<close>

text \<open>C1. Over every interleaving of admissions, recoveries, completions, crashes between any two
  file writes, and commands that outlive their applier, the command of one instance runs at most
  once, and the commands that change one product run with strictly increasing generations, in the
  order in which they were started.\<close>
theorem instance_runs_once:
  assumes "semver_laws sv" and "reachable c sv owner y"
  shows "distinct (map sa_instance (sy_ran y))
    \<and> sorted_wrt (\<lambda>s t. sa_environment s = sa_environment t \<and> sa_product s = sa_product t
         \<and> sa_action t \<noteq> HostHealth \<longrightarrow> sa_generation s < sa_generation t) (sy_ran y)"
proof -
  have ran: "ran_ok c y" using reachable_inv [OF assms] by (simp add: sys_inv_def)
  have "sorted_wrt (\<lambda>s t. sa_environment s = sa_environment t \<and> sa_product s = sa_product t
      \<and> sa_action t \<noteq> HostHealth \<longrightarrow> sa_generation s < sa_generation t) (sy_ran y)"
    by (rule sorted_wrt_mono_rel [rotated, OF conjunct2 [OF conjunct2 [OF ran [unfolded ran_ok_def]]]])
      (blast intro: same_key)
  then show ?thesis using ran by (simp add: ran_ok_def)
qed

theorem instance_runs_once_witness:
  "sy_ran demo_finished = [demo_started] \<and> distinct (map sa_instance (sy_ran demo_finished))"
  using instance_runs_once [OF triple_semver_laws demo_reachable(2)]
  by (simp add: demo_finished_def demo_running_def initial_sys_def)

text \<open>C17. When the unit's control group is recorded, at most one command of a product is alive at
  any time, even if the applier that started it died and others ran since.\<close>
theorem one_command_per_product:
  assumes "semver_laws sv" and "reachable c sv owner y" and "sa_cgroup s \<noteq> None" and "sa_cgroup t \<noteq> None"
    and "s \<in> sy_alive y" and "t \<in> sy_alive y"
    and "sa_environment s = sa_environment t" and "sa_product s = sa_product t"
  shows "s = t"
proof -
  have "open_start c y s" "open_start c y t"
    using reachable_inv [OF assms(1,2)] assms(3-6) by (simp_all add: sys_inv_def alive_ok_def)
  then show ?thesis using same_key [OF assms(7,8), of c] by (auto simp: open_start_def)
qed

theorem one_command_per_product_witness:
  "demo_started \<in> sy_alive demo_running \<and> is_singleton (sy_alive demo_running)"
proof -
  have alive: "sy_alive demo_running = {demo_started}" by (simp add: demo_running_def initial_sys_def)
  have "sa_cgroup demo_started \<noteq> None" by (simp add: demo_started_def started_record_def)
  from one_command_per_product [OF triple_semver_laws demo_reachable(1) this this] alive
  have "is_singleton (sy_alive demo_running)" by (intro is_singletonI') auto
  with alive show ?thesis by simp
qed

text \<open>C18. A stale step never runs: whatever happened before, a step is admitted to run only if the
  generation its signer expected is at least the generation of every command of the product that
  already ran, and a changing command gets the successor of that generation, which never wraps.\<close>
theorem stale_step_never_runs:
  assumes "semver_laws sv" and "reachable c sv owner y"
    and "store_admit c sv (\<lambda>s. s \<in> sy_alive y) (sy_store y) step cgroup now = (ws, Inr (Run started adv))"
    and "s \<in> set (sy_ran y)" and "sa_environment s = vs_environment step" and "sa_product s = vs_product step"
  shows "sa_generation s \<le> vs_expected_generation step
    \<and> (vs_action step \<noteq> HostHealth \<longrightarrow> unat (sa_generation started) = Suc (unat (vs_expected_generation step)))"
proof -
  note inv = reachable_inv [OF assms(1,2)]
  obtain r r' where r: "reads c y r" "rec_key c r = product_key c (vs_environment step) (vs_product step)"
    "ar_generation r' = ar_generation r" and st: "store_start sv r' step cgroup now = Inr (started, adv)"
    by (rule admit_run_facts [OF inv assms(3)])
  obtain r0 where "rec_at y (started_key c s) = Some r0" "sa_generation s \<le> ar_generation r0"
    by (rule ran_generations [OF inv assms(4)])
  then have "sa_generation s \<le> ar_generation r"
    using r(1,2) assms(5,6) by (auto simp: started_key_def reads_def)
  moreover have "unat (ar_generation adv) = Suc (unat (ar_generation r'))" if "vs_action step \<noteq> HostHealth"
    using start_generation(1) [OF st that] .
  ultimately show ?thesis using store_start_facts(4,16) [OF st] r(3) by simp
qed

theorem stale_step_never_runs_witness:
  "sa_generation demo_started \<le> vs_expected_generation (demo_host_step CHR ''b'' 1 (Some ''1.2.0''))"
proof -
  obtain ws started adv where run: "store_admit demo_crypto triple_semver (\<lambda>s. s \<in> sy_alive demo_finished)
      (sy_store demo_finished) (demo_host_step CHR ''b'' 1 (Some ''1.2.0'')) None 300
    = (ws, Inr (Run started adv))" using demo_second_install by blast
  show ?thesis
    using stale_step_never_runs [OF triple_semver_laws demo_reachable(2) run, of demo_started]
    by (simp add: demo_finished_def demo_running_def demo_started_def started_record_def demo_host_step_def)
qed



lemma settle_total:
  assumes "record_ok owner r" and "named_write (Write_Record r)"
    and "\<And>t. same_product t r \<Longrightarrow> \<not> alive t"
  obtains ws r' where "settle_last alive fs r now = (ws, Inr r')"
proof (cases "ar_last_started r")
  case (Some t)
  have t: "named t" "\<not> alive t" using assms Some by (auto simp: record_ok_def)
  obtain x where x: "recorded_result fs (sa_instance t) = Inr x"
    using t(1) by (auto simp: recorded_result_def named_def is_ok_iff result_simps)
  have "execution_gone alive t = Inr ()"
    using t by (auto simp: execution_gone_def named_def result_simps split: option.splits)
  then have "\<exists>ws r'. settle_last alive fs r now = (ws, Inr r')"
    using Some x by (auto simp: settle_last_def settle_interrupted_def Let_def split: option.splits)
  then show ?thesis using that by blast
qed (use that in \<open>simp add: settle_last_def\<close>)

text \<open>C19. Recovery always settles: an instance whose start is on disk gets a result from the
  recovery that every apply begins with, as soon as no command of its product is alive, whichever
  write the applier died after; the result returned is the one recorded.\<close>
theorem recovery_settles:
  assumes "semver_laws sv" and "reachable c sv owner y" and "fs_started (sy_store y) inst = Some s"
    and "\<forall>t\<in>sy_alive y. \<not> (sa_environment t = sa_environment s \<and> sa_product t = sa_product s)"
  shows "\<exists>ws result. store_recover c (\<lambda>t. t \<in> sy_alive y) (sy_store y) inst now_ms = (ws, Inr (Some result))
    \<and> fs_results (apply_writes c ws (sy_store y)) inst = Some result"
proof -
  note inv = reachable_inv [OF assms(1,2)] and nm = reachable_named [OF assms(1,2)]
  have s: "sa_instance s = inst" "backed c y s" "named s"
    using inv nm assms(3) by (auto simp: sys_inv_def starts_ok_def named_sys_def)
  have rr: "recorded_result fs inst = Inr (fs_results fs inst)" for fs
    using s(1,3) by (auto simp: recorded_result_def named_def is_ok_iff result_simps)
  obtain r where r: "rec_at y (started_key c s) = Some r" "same_product s r"
    using s(2) by (auto simp: backed_def)
  have read: "read_record c (sy_store y) (sa_environment s) (sa_product s) = Inr r"
    using r by (simp add: read_record_def started_key_def same_product_def ensure_def)
  have ok: "record_ok owner r" "named_write (Write_Record r)"
    using inv nm r(1) by (auto simp: sys_inv_def records_ok_def named_sys_def)
  obtain ws r' where settle: "settle_last (\<lambda>t. t \<in> sy_alive y) (sy_store y) r now_ms = (ws, Inr r')"
    using settle_total [OF ok, of "\<lambda>t. t \<in> sy_alive y"] r(2) assms(4) unfolding same_product_def by metis
  let ?fs = "apply_writes c ws (sy_store y)"
  show ?thesis
  proof (cases "fs_results (sy_store y) inst")
    case (Some x)
    then show ?thesis by (simp add: store_recover_def rr apply_writes_def)
  next
    case None
    show ?thesis
    proof (cases "fs_results ?fs inst")
      case (Some x)
      then show ?thesis using None by (simp add: store_recover_def rr assms(3) read settle)
    next
      case None2: None
      have "rs_instance (interrupted s now_ms) = inst" by (simp add: s(1))
      then show ?thesis
        using None None2 by (simp add: store_recover_def rr assms(3) read settle Let_def apply_writes_def)
    qed
  qed
qed

theorem recovery_settles_witness:
  "\<exists>ws result. store_recover demo_crypto (\<lambda>t. t \<in> sy_alive demo_crashed) (sy_store demo_crashed)
     (replicate 64 CHR ''a'') 300 = (ws, Inr (Some result))"
proof -
  have "fs_started (sy_store demo_crashed) (replicate 64 CHR ''a'') = Some demo_started"
    by (simp add: demo_crashed_def Let_def demo_running_def apply_writes_def demo_started_def started_record_def
        demo_host_step_def)
  moreover have "sy_alive demo_crashed = {}" by (simp add: demo_crashed_def Let_def demo_running_def initial_sys_def)
  ultimately show ?thesis
    using recovery_settles [OF triple_semver_laws demo_crash_reachable, of "replicate 64 CHR ''a''" demo_started 300]
    by auto
qed

lemma u64_bound: "unat (w :: u64) < 2 ^ 64"
  using unsigned_less [of w, where ?'a = nat] by simp

lemma gate_of_frame:
  assumes "sy_ran z = sy_ran y" and "counter z = counter y"
  shows "gate_step (gate_of c y) (gate_of c z)"
  using gate_stutter [of "gate_of c y"] assms by (simp add: gate_of_def)

lemma admit_part_gate:
  assumes inv: "sys_inv c sv owner y"
    and run: "store_admit c sv (\<lambda>s. s \<in> sy_alive y) (sy_store y) step cg now = (ws, out)"
  shows "gate_step (gate_of c y) (gate_of c (put_all c (take n ws) y))"
  using run
proof (cases rule: store_admit_cases)
  case refused
  then show ?thesis by (simp add: gate_stutter)
next
  case (settled r ws0 r')
  then show ?thesis
    using settle_counter [OF conjunct1 [OF read_record_reads [OF inv settled(1)]] settled(2)]
    by (intro gate_of_frame) simp_all
next
  case (lost r ws0 r' started)
  then show ?thesis
    using settled_result_counter [OF conjunct1 [OF read_record_reads [OF inv lost(1)]] lost(2)]
    by (intro gate_of_frame) simp_all
next
  case (run r ws0 r' started adv)
  note sc = start_counter [OF conjunct1 [OF read_record_reads [OF inv run(1)]] run(2,6)]
  let ?k = "started_key c started" and ?z = "put_all c (take n ws) y"
  show ?thesis
  proof (cases "n \<le> length ws0 \<or> sa_action started = HostHealth")
    case True
    then have "counter ?z = counter y" using sc(1) [of n] sc(2,4) run(3) by (auto simp: fun_upd_idem)
    then show ?thesis by (intro gate_of_frame) simp_all
  next
    case False
    then have "counter ?z = (counter y)(?k := Suc (counter y ?k))" "Suc (counter y ?k) < 2 ^ 64"
      using sc(1) [of n] sc(2,3) run(3) u64_bound [of "sa_generation started"] by simp_all
    then show ?thesis using gate_lost [of "gate_of c y" ?k] by (simp add: gate_of_def)
  qed
qed

lemma admit_run_gate:
  assumes inv: "sys_inv c sv owner y"
    and run: "store_admit c sv (\<lambda>s. s \<in> sy_alive y) (sy_store y) step cg now = (ws, Inr (Run started adv))"
    and new: "started_at y (sa_instance started) = None"
    and z: "sy_store z = apply_writes c ws (sy_store y)" "sy_ran z = sy_ran y @ [started]"
  shows "gate_step (gate_of c y) (gate_of c z)"
  using run
proof (cases rule: store_admit_cases)
  case (run r ws0 r' started' adv')
  then have st: "started' = started" by simp
  note sc = start_counter [OF conjunct1 [OF read_record_reads [OF inv run(1)]] run(2,6), unfolded st]
  let ?k = "started_key c started"
  have "counter z = counter (put_all c ws y)" by (rule counter_store) (simp add: z(1) put_all_def)
  also have "\<dots> = (counter y)(?k := unat (sa_generation started))"
    using sc(1) [of "length ws"] unfolding run(3) st by simp
  finally have cz: "counter z = (counter y)(?k := unat (sa_generation started))" .
  have "started_at y (sa_instance s) = Some s" if "s \<in> set (sy_ran y)" for s
    using inv that by (simp add: sys_inv_def ran_ok_def)
  then have fresh: "sa_instance started \<notin> fst ` set (gt_log (gate_of c y))"
    using new by (auto simp: gate_of_def)
  show ?thesis
  proof (cases "sa_action started = HostHealth")
    case True
    then have "counter z = counter y" using cz sc(2,4) by (simp add: fun_upd_idem)
    then show ?thesis using gate_observe [OF fresh, of ?k] sc(2) z(2) by (simp add: gate_of_def)
  next
    case False
    then have "counter z = (counter y)(?k := Suc (counter y ?k))" "Suc (counter y ?k) < 2 ^ 64"
      using cz sc(2,3) u64_bound [of "sa_generation started"] by simp_all
    then show ?thesis using gate_change [OF fresh, of ?k] sc(2) z(2) by (simp add: gate_of_def)
  qed
qed blast+

lemma recover_gate:
  assumes inv: "sys_inv c sv owner y"
    and run: "store_recover c (\<lambda>s. s \<in> sy_alive y) (sy_store y) inst now = (ws, out)"
  shows "counter (put_all c (take n ws) y) = counter y"
  using run
proof (cases rule: store_recover_cases)
  case (settled started r r')
  then show ?thesis
    using settle_counter [OF conjunct1 [OF read_record_reads [OF inv settled(2)]] settled(3)] by simp
next
  case (lost started r ws0 r')
  then show ?thesis
    using settled_result_counter [OF conjunct1 [OF read_record_reads [OF inv lost(2)]] lost(3)] by simp
qed simp

lemma finish_counter:
  assumes inv: "sys_inv c sv owner y" and run: "sy_running y k = Some (started, r)"
    and fin: "running_finish sv started r outcome ex detail now = (ws, result)"
  shows "counter (put_all c (take n ws) y) = counter y"
proof -
  have r: "rec_at y k = Some r" "rec_key c r = k"
    using inv run by (auto simp: sys_inv_def running_ok_def records_ok_def)
  have ws: "ws = [Write_Record (record_complete sv r started result), Write_Result result]"
    using fin by (auto simp: running_finish_def Let_def)
  have "rec_key c (record_complete sv r started result) = k"
    using r(2) by (simp add: rec_key_def complete_facts)
  then have "counter (put c (Write_Record (record_complete sv r started result)) y) = counter y"
    using r(1) by (simp add: complete_facts counter_def fun_upd_idem)
  then show ?thesis unfolding ws by (cases n; cases "n - 1"; simp)
qed

text \<open>C14. The applier refines the generation gate: under the abstraction that keeps the generation
  of each product's record and the log of commands, every step of every process from a reachable
  state is one step of the gate or leaves it unchanged.\<close>
theorem applier_refines_gate:
  assumes laws: "semver_laws sv" and "reachable c sv owner y" and "applier_step c sv owner y y'"
  shows "gate_step (gate_of c y) (gate_of c y')"
  using assms(3)
proof cases
  case (admit_part step raw now_ms ws out n)
  then show ?thesis
    using admit_part_gate [OF reachable_inv [OF assms(1,2)] admit_part(4)] by (simp add: put_all_def)
next
  case (admit_run step raw now_ms ws started advanced)
  note inv = reachable_inv [OF assms(1,2)]
  have "run_post c y (put_all c ws y) started advanced"
    using conjunct2 [OF admit_safe [OF inv admit_run(2-4)]] by simp
  then have "started_at y (sa_instance started) = None" by (simp add: run_post_def)
  then show ?thesis by (rule admit_run_gate [OF inv admit_run(4)]) (simp_all add: admit_run(1))
next
  case (recover inst now_ms ws out' n)
  then show ?thesis
    using recover_gate [OF reachable_inv [OF assms(1,2)] recover(3)]
    by (intro gate_of_frame) (simp_all add: put_all_def)
next
  case (refuse inst reason ws)
  then show ?thesis
    by (intro gate_of_frame ext)
      (auto simp: record_refusal_def result_simps apply_writes_def counter_def)
next
  case (finish k started rec outcome exit_status detail now_ms ws result n)
  have "counter y' = counter (put_all c (take n ws) y)"
    by (rule counter_store) (simp add: finish(1) put_all_def)
  then show ?thesis
    using finish_counter [OF reachable_inv [OF assms(1,2)] finish(2,3)] finish(1)
    by (intro gate_of_frame) simp_all
next
  case (crash k)
  then show ?thesis by (intro gate_of_frame counter_store) simp_all
next
  case (command_exit s)
  then show ?thesis by (intro gate_of_frame counter_store) simp_all
qed

theorem applier_refines_gate_witness:
  "gate_step (gate_of demo_crypto initial_sys) (gate_of demo_crypto demo_running)
    \<and> gt_log (gate_of demo_crypto demo_running) = [(replicate 64 CHR ''a'', replicate 64 CHR ''p'', 0)]"
  using applier_refines_gate [OF triple_semver_laws reachable.start demo_steps(1)]
  by (simp add: gate_of_def demo_running_def initial_sys_def demo_started_def started_record_def
      demo_host_step_def started_key_def product_key_def demo_crypto_def expected_of_def)

lemma apply_writes_append: "apply_writes c (vs @ ws) fs = apply_writes c ws (apply_writes c vs fs)"
  by (simp add: apply_writes_def)

definition same_progress :: "host_store \<Rightarrow> host_store \<Rightarrow> bool" where
  "same_progress fs fs' \<longleftrightarrow> fs_started fs' = fs_started fs
     \<and> (\<forall>k. (case fs_records fs' k of None \<Rightarrow> 0 | Some r \<Rightarrow> ar_generation r)
          = (case fs_records fs k of None \<Rightarrow> 0 | Some r \<Rightarrow> ar_generation r))"

lemma same_progress_refl [simp]: "same_progress fs fs"
  by (simp add: same_progress_def)

lemma same_progress_trans: "same_progress a b \<Longrightarrow> same_progress b d \<Longrightarrow> same_progress a d"
  by (simp add: same_progress_def)

lemma read_settle_progress:
  assumes read: "read_record c fs e p = Inr r" and settle: "settle_last alive fs r now = (ws, Inr r')"
  shows "same_progress fs (apply_writes c ws fs)"
  using settle
proof (cases rule: settle_last_Inr)
  case (lost s)
  have r: "fs_records fs (product_key c e p) = Some r" "ar_environment r = e" "ar_product r = p"
    using read lost(1)
    by (auto simp: read_record_def Let_def result_simps empty_record_def split: option.splits)
  show ?thesis
    unfolding lost(4) using r by (simp add: same_progress_def apply_writes_def lost(3))
qed (simp_all add: same_progress_def apply_writes_def)

lemma result_progress:
  "same_progress fs (apply_writes c ws fs) \<Longrightarrow> same_progress fs (apply_writes c (ws @ [Write_Result x]) fs)"
  by (simp add: apply_writes_append) (simp add: same_progress_def apply_writes_def)

lemma recover_progress:
  assumes "store_recover c alive fs inst now = (ws, out)"
  shows "same_progress fs (apply_writes c ws fs)"
  using assms
proof (cases rule: store_recover_cases)
  case (settled started r r')
  then show ?thesis by (intro read_settle_progress)
next
  case (lost started r ws0 r')
  then show ?thesis using result_progress read_settle_progress [OF lost(2,3)] by blast
qed (simp add: apply_writes_def)

lemma admit_progress:
  assumes "store_admit c sv alive fs step cg now = (ws, out)" and "\<And>s a. out \<noteq> Inr (Run s a)"
  shows "same_progress fs (apply_writes c ws fs)"
  using assms(1)
proof (cases rule: store_admit_cases)
  case (settled r ws0 r')
  then show ?thesis using read_settle_progress by blast
next
  case (lost r ws0 r' started)
  then show ?thesis using result_progress read_settle_progress [OF lost(1,2)] by blast
qed (use assms(2) in \<open>simp_all add: apply_writes_def\<close>)



end
