(* ===== verification/Ranks.thy ===== *)
theory Ranks
  imports BTree_Map
begin

text \<open>
  \<open>name_ordered_ranks\<close> of \<open>src/plan/convergence.rs\<close>: Kahn's algorithm over ordered sets, the
  contract order of a plan.  Counters are unbounded here; they are bounded by the number of
  products of one environment.  A counter that would go below zero is the result \<open>None\<close> (an
  arithmetic panic of the source); the ranks theorem shows that it never happens.
\<close>

type_synonym counts = "(string, nat) btree_map"
type_synonym successors = "(string, string btree_set) btree_map"

definition successors_of :: "successors \<Rightarrow> string \<Rightarrow> string btree_set" where
  "successors_of out n = (case map_of out n of None \<Rightarrow> [] | Some s \<Rightarrow> s)"

definition add_precedence ::
  "string btree_set \<Rightarrow> string \<times> string \<Rightarrow> counts \<times> successors \<Rightarrow> counts \<times> successors" where
  "add_precedence members e st = (case e of (a, b) \<Rightarrow> case st of (incoming, outgoing) \<Rightarrow>
     if a \<notin> set members \<or> b \<notin> set members then (incoming, outgoing)
     else if b \<in> set (successors_of outgoing a) then (incoming, outgoing)
     else (bt_insert b (Suc (case map_of incoming b of None \<Rightarrow> 0 | Some c \<Rightarrow> c)) incoming,
           bt_insert a (bs_insert b (successors_of outgoing a)) outgoing))"

fun relax :: "string list \<Rightarrow> counts \<Rightarrow> string btree_set \<Rightarrow> (counts \<times> string btree_set) option" where
  "relax [] incoming ready = Some (incoming, ready)"
| "relax (t # ts) incoming ready =
     (case map_of incoming t of
        None \<Rightarrow> relax ts incoming ready
      | Some c \<Rightarrow>
          if c = 0 then None
          else relax ts (bt_modify t (\<lambda>n. n - 1) incoming)
                 (if c - 1 = 0 then bs_insert t ready else ready))"

lemma sum_bt_modify:
  "map_of m k = Some c \<Longrightarrow> 0 < c
     \<Longrightarrow> Suc (sum_list (map snd (bt_modify k (\<lambda>n. n - 1) m))) \<le> sum_list (map snd (m :: counts))"
proof (induction m)
  case (Cons e m)
  have "sum_list (map snd (bt_modify k (\<lambda>n. n - 1) m)) \<le> sum_list (map snd m)"
    by (induction m) (auto simp: bt_modify_def)
  with Cons show ?case by (cases e) (auto simp: bt_modify_def split: if_splits)
qed simp

lemma length_bs_insert: "length (bs_insert k s) \<le> Suc (length s)"
  by (induction s) auto

lemma relax_measure:
  "relax ts incoming ready = Some (incoming', ready') \<Longrightarrow>
     sum_list (map snd incoming') + length ready' \<le> sum_list (map snd incoming) + length ready"
proof (induction ts incoming ready rule: relax.induct)
  case (2 t ts incoming ready)
  show ?case
  proof (cases "map_of incoming t")
    case None
    with 2 show ?thesis by simp
  next
    case (Some c)
    with 2(3) have "c \<noteq> 0" by (auto split: if_splits)
    with 2 Some show ?thesis
      using sum_bt_modify [OF Some] length_bs_insert [of t ready] by (fastforce split: if_splits)
  qed
qed simp

function kahn_loop ::
  "counts \<Rightarrow> successors \<Rightarrow> string btree_set \<Rightarrow> (string, nat) btree_map \<Rightarrow> nat
     \<Rightarrow> (string, nat) btree_map option" where
  "kahn_loop incoming outgoing [] ranks ord = Some ranks"
| "kahn_loop incoming outgoing (next # ready) ranks ord =
     (case relax (successors_of outgoing next) incoming ready of
        None \<Rightarrow> None
      | Some (incoming', ready') \<Rightarrow>
          kahn_loop incoming' outgoing ready' (bt_insert next ord ranks) (Suc ord))"
  by pat_completeness auto

termination
  by (relation "measure (\<lambda>(incoming, outgoing, ready, ranks, ord).
        sum_list (map snd incoming) + length ready)") (auto dest: relax_measure)

definition kahn_init ::
  "string btree_set \<Rightarrow> (string \<times> string) list \<Rightarrow> counts \<times> successors" where
  "kahn_init members precede =
     fold (add_precedence members) precede (map (\<lambda>m. (m, 0)) members, [])"

definition name_ordered_ranks ::
  "string btree_set \<Rightarrow> (string \<times> string) list \<Rightarrow> (string, nat) btree_map option" where
  "name_ordered_ranks members precede =
     (case kahn_init members precede of (incoming, outgoing) \<Rightarrow>
        kahn_loop incoming outgoing
          (map fst (filter (\<lambda>(_, count). count = 0) incoming)) [] 0)"

section \<open>The precedence relation\<close>

definition prec_rel :: "string list \<Rightarrow> (string \<times> string) list \<Rightarrow> (string \<times> string) set" where
  "prec_rel members precede =
     {(a, b). (a, b) \<in> set precede \<and> a \<in> set members \<and> b \<in> set members}"

definition open_preds :: "(string \<times> string) set \<Rightarrow> string set \<Rightarrow> string \<Rightarrow> string set" where
  "open_preds P D m = {a. (a, m) \<in> P \<and> a \<notin> D}"

definition init_ok ::
  "string list \<Rightarrow> (string \<times> string) set \<Rightarrow> counts \<Rightarrow> successors \<Rightarrow> bool" where
  "init_ok members P incoming outgoing \<longleftrightarrow>
     bt_ok incoming \<and> dom (map_of incoming) = set members
     \<and> (\<forall>m\<in>set members. map_of incoming m = Some (card (open_preds P {} m)))
     \<and> (\<forall>a. bs_ok (successors_of outgoing a) \<and> set (successors_of outgoing a) = P `` {a})"

lemma finite_prec_rel [simp]: "finite (prec_rel members precede)"
  by (rule finite_subset [of _ "set precede"]) (auto simp: prec_rel_def)

lemma finite_open_preds: "finite P \<Longrightarrow> finite (open_preds P D m)"
  unfolding open_preds_def by (rule finite_subset [of _ "fst ` P"]) force+

lemma prec_rel_snoc:
  "prec_rel members (es @ [(a, b)]) =
     (if a \<in> set members \<and> b \<in> set members then insert (a, b) (prec_rel members es)
      else prec_rel members es)"
  by (auto simp: prec_rel_def)

lemma open_preds_insert:
  "open_preds (insert (a, b) P) {} m = (if m = b then insert a (open_preds P {} m) else open_preds P {} m)"
  by (auto simp: open_preds_def)

lemma add_precedence_ok:
  assumes "init_ok members (prec_rel members es) incoming outgoing"
    and "add_precedence members (a, b) (incoming, outgoing) = (incoming', outgoing')"
  shows "init_ok members (prec_rel members (es @ [(a, b)])) incoming' outgoing'"
proof -
  let ?P = "prec_rel members es"
  consider (out) "a \<notin> set members \<or> b \<notin> set members"
    | (old) "a \<in> set members" "b \<in> set members" "(a, b) \<in> ?P"
    | (new) "a \<in> set members" "b \<in> set members" "(a, b) \<notin> ?P" by blast
  then show ?thesis
  proof cases
    case out
    then show ?thesis using assms by (auto simp: add_precedence_def prec_rel_snoc)
  next
    case old
    then show ?thesis
      using assms by (auto simp: add_precedence_def prec_rel_snoc init_ok_def insert_absorb
          split: if_splits)
  next
    case new
    have i: "bt_ok incoming" "dom (map_of incoming) = set members"
      "\<And>m. m \<in> set members \<Longrightarrow> map_of incoming m = Some (card (open_preds ?P {} m))"
      "\<And>x. bs_ok (successors_of outgoing x)" "\<And>x. set (successors_of outgoing x) = ?P `` {x}"
      using assms(1) by (auto simp: init_ok_def)
    then have st: "incoming' = bt_insert b (Suc (card (open_preds ?P {} b))) incoming"
      "outgoing' = bt_insert a (bs_insert b (successors_of outgoing a)) outgoing"
      using assms(2) new by (auto simp: add_precedence_def)
    have P: "prec_rel members (es @ [(a, b)]) = insert (a, b) ?P"
      using new by (simp add: prec_rel_snoc)
    have "a \<notin> open_preds ?P {} b" using new by (simp add: open_preds_def)
    then have c: "card (insert a (open_preds ?P {} b)) = Suc (card (open_preds ?P {} b))"
      by (simp add: finite_open_preds)
    have s: "successors_of outgoing' x
        = (if x = a then bs_insert b (successors_of outgoing a) else successors_of outgoing x)" for x
      by (simp add: st(2) successors_of_def)
    have d: "dom (map_of incoming') = set members"
      using i(2) new(2) by (auto simp: st(1) dom_def)
    show ?thesis
      unfolding init_ok_def P using i c d new
      by (auto simp: s st(1) open_preds_insert)
  qed
qed

lemma init_ok_start:
  assumes "bs_ok members"
  shows "init_ok members (prec_rel members []) (map (\<lambda>m. (m, 0)) members) []"
proof -
  have "map_of (map (\<lambda>m. (m, 0 :: nat)) members) m = (if m \<in> set members then Some 0 else None)" for m
    by (induction members) auto
  with assms show ?thesis
    by (auto simp: init_ok_def bt_ok_def bs_ok_def comp_def prec_rel_def open_preds_def
        successors_of_def dom_def)
qed

lemma kahn_init_ok:
  assumes "bs_ok members" and "kahn_init members precede = (incoming, outgoing)"
  shows "init_ok members (prec_rel members precede) incoming outgoing"
  using assms(2)
proof (induction precede arbitrary: incoming outgoing rule: rev_induct)
  case Nil
  then show ?case using init_ok_start [OF assms(1)] by (simp add: kahn_init_def)
next
  case (snoc e es)
  obtain i s where "kahn_init members es = (i, s)" by fastforce
  with snoc show ?case
    by (cases e) (auto simp: kahn_init_def intro: add_precedence_ok)
qed

section \<open>The loop\<close>

definition not_before :: "(string, nat) btree_map \<Rightarrow> nat \<Rightarrow> string \<Rightarrow> bool" where
  "not_before ranks j x = (case map_of ranks x of None \<Rightarrow> True | Some k \<Rightarrow> j \<le> k)"

definition ranks_ok :: "string set \<Rightarrow> (string \<times> string) set \<Rightarrow> (string, nat) btree_map \<Rightarrow> nat \<Rightarrow> bool" where
  "ranks_ok M P ranks ord \<longleftrightarrow>
     bt_ok ranks \<and> dom (map_of ranks) \<subseteq> M \<and> inj_on (map_of ranks) (dom (map_of ranks))
     \<and> ran (map_of ranks) = {..<ord}
     \<and> (\<forall>a b j. (a, b) \<in> P \<and> map_of ranks b = Some j \<longrightarrow> (\<exists>i<j. map_of ranks a = Some i))
     \<and> (\<forall>b j m. map_of ranks b = Some j \<and> m \<in> M \<and> m < b \<and> not_before ranks j m
          \<longrightarrow> (\<exists>p. (p, m) \<in> P \<and> not_before ranks j p))"

definition loop_inv ::
  "string set \<Rightarrow> (string \<times> string) set \<Rightarrow> counts \<Rightarrow> successors \<Rightarrow> string btree_set
     \<Rightarrow> (string, nat) btree_map \<Rightarrow> nat \<Rightarrow> bool" where
  "loop_inv M P incoming outgoing ready ranks ord \<longleftrightarrow>
     ranks_ok M P ranks ord \<and> bs_ok ready
     \<and> set ready = {m \<in> M. m \<notin> dom (map_of ranks) \<and> open_preds P (dom (map_of ranks)) m = {}}
     \<and> (\<forall>m\<in>M. map_of incoming m = Some (card (open_preds P (dom (map_of ranks)) m)))
     \<and> (\<forall>a. bs_ok (successors_of outgoing a) \<and> set (successors_of outgoing a) = P `` {a})"

lemma relax_spec:
  assumes "distinct ts" and "\<forall>t\<in>set ts. map_of incoming t = Some (f t) \<and> 0 < f t" and "bs_ok ready"
  shows "\<exists>incoming' ready'. relax ts incoming ready = Some (incoming', ready')
    \<and> map_of incoming' = (\<lambda>m. if m \<in> set ts then Some (f m - 1) else map_of incoming m)
    \<and> bs_ok ready' \<and> set ready' = set ready \<union> {t \<in> set ts. f t = 1}"
  using assms
proof (induction ts incoming ready rule: relax.induct)
  case (2 t ts incoming ready)
  let ?inc = "bt_modify t (\<lambda>n. n - 1) incoming"
  let ?ready = "if f t - 1 = 0 then bs_insert t ready else ready"
  have t: "map_of incoming t = Some (f t)" "f t \<noteq> 0" using 2(4) by auto
  have pre: "distinct ts" "\<forall>u\<in>set ts. map_of ?inc u = Some (f u) \<and> 0 < f u" "bs_ok ?ready"
    using 2(3,4,5) by auto
  have mono: "f t - 1 = 0 \<longleftrightarrow> f t = 1" using t(2) by auto
  obtain i r where ir: "relax ts ?inc ?ready = Some (i, r)"
    "map_of i = (\<lambda>m. if m \<in> set ts then Some (f m - 1) else map_of ?inc m)"
    "bs_ok r" "set r = set ?ready \<union> {u \<in> set ts. f u = 1}"
    using 2(2) [OF t(1) t(2) pre] by blast
  have "relax (t # ts) incoming ready = Some (i, r)" using t ir(1) by simp
  moreover have "map_of i = (\<lambda>m. if m \<in> set (t # ts) then Some (f m - 1) else map_of incoming m)"
    using ir(2) t by auto
  moreover have "set r = set ready \<union> {u \<in> set (t # ts). f u = 1}"
    using ir(4) mono by auto
  ultimately show ?case using ir(3) by blast
qed simp

lemma ranks_ok_extend:
  assumes ok: "ranks_ok M P ranks ord" and n: "n \<in> M" "n \<notin> dom (map_of ranks)"
    and closed: "open_preds P (dom (map_of ranks)) n = {}"
    and least: "\<And>m. m \<in> M \<Longrightarrow> m < n \<Longrightarrow> m \<notin> dom (map_of ranks)
        \<Longrightarrow> open_preds P (dom (map_of ranks)) m \<noteq> {}"
  shows "ranks_ok M P (bt_insert n ord ranks) (Suc ord)"
proof -
  let ?r = "bt_insert n ord ranks"
  have ran: "ran (map_of ranks) = {..<ord}" using ok by (simp add: ranks_ok_def)
  have lt: "map_of ranks b = Some j \<Longrightarrow> j < ord" for b j using ran by (auto intro: ranI)
  have get: "map_of ?r = (map_of ranks)(n \<mapsto> ord)" by (auto simp: fun_eq_iff)
  have late: "j \<le> ord \<Longrightarrow> not_before ?r j x \<longleftrightarrow> not_before ranks j x" for j x
    using n(2) by (auto simp: not_before_def split: option.splits)
  have prec: "\<exists>i<j. map_of ?r a = Some i" if e: "(a, b) \<in> P" and b: "map_of ?r b = Some j" for a b j
  proof (cases "b = n")
    case True
    with e closed obtain i where "map_of ranks a = Some i" by (auto simp: open_preds_def dom_def)
    with True b lt n(2) show ?thesis by (auto simp: get)
  next
    case False
    with e b ok obtain i where "i < j" "map_of ranks a = Some i"
      unfolding ranks_ok_def get by (metis fun_upd_other)
    with n(2) show ?thesis by (auto simp: get)
  qed
  have tie: "\<exists>p. (p, m) \<in> P \<and> not_before ?r j p"
    if b: "map_of ?r b = Some j" and m: "m \<in> M" "m < b" "not_before ?r j m" for b j m
  proof (cases "b = n")
    case True
    with b have j: "j = ord" by (simp add: get)
    with m late have "not_before ranks ord m" by simp
    then have "m \<notin> dom (map_of ranks)"
      using lt [of m] by (cases "map_of ranks m") (auto simp: not_before_def)
    with least [of m] m(1,2) True have "open_preds P (dom (map_of ranks)) m \<noteq> {}" by simp
    then obtain p where p: "(p, m) \<in> P" "p \<notin> dom (map_of ranks)"
      unfolding open_preds_def by blast
    then have "not_before ?r j p"
      using j late [of j p] by (cases "map_of ranks p") (auto simp: not_before_def)
    with p(1) show ?thesis by blast
  next
    case False
    with b have "map_of ranks b = Some j" and "j \<le> ord" using lt by (auto simp: get less_imp_le)
    with m late show ?thesis using ok unfolding ranks_ok_def by metis
  qed
  have "inj_on (map_of ?r) (dom (map_of ?r))"
    using ok ran n(2) unfolding get ranks_ok_def
    by (intro inj_on_fun_updI) (auto intro: ranI)
  moreover have "ran (map_of ?r) = {..<Suc ord}"
    using n(2) ran by (simp add: get domIff lessThan_Suc)
  moreover have "dom (map_of ?r) \<subseteq> M" "bt_ok ?r"
    using ok n(1) by (auto simp: ranks_ok_def get)
  ultimately show ?thesis
    using prec tie unfolding ranks_ok_def by blast
qed

lemma loop_inv_step:
  assumes inv: "loop_inv M P incoming outgoing (n # ready) ranks ord"
    and P: "finite P" "P \<subseteq> M \<times> M"
  shows "\<exists>incoming' ready'. relax (successors_of outgoing n) incoming ready = Some (incoming', ready')
    \<and> loop_inv M P incoming' outgoing ready' (bt_insert n ord ranks) (Suc ord)"
proof -
  let ?D = "dom (map_of ranks)"
  let ?f = "\<lambda>m. card (open_preds P ?D m)"
  have n: "n \<in> M" "n \<notin> ?D" "open_preds P ?D n = {}" and sorted: "\<forall>m\<in>set ready. n < m" "bs_ok ready"
    and rdy: "set (n # ready) = {m \<in> M. m \<notin> ?D \<and> open_preds P ?D m = {}}"
    and cnt: "\<forall>m\<in>M. map_of incoming m = Some (?f m)"
    and succs: "\<And>a. bs_ok (successors_of outgoing a)" "\<And>a. set (successors_of outgoing a) = P `` {a}"
    and rok: "ranks_ok M P ranks ord"
    using inv by (auto simp: loop_inv_def bs_ok_def)
  have D': "dom (map_of (bt_insert n ord ranks)) = insert n ?D" by (auto simp: dom_def)
  have fin: "finite (open_preds P ?D m)" for m using P(1) by (rule finite_open_preds)
  have op: "open_preds P (insert n ?D) m = open_preds P ?D m - {n}" for m
    by (auto simp: open_preds_def)
  have pos: "(n, t) \<in> P \<Longrightarrow> n \<in> open_preds P ?D t" for t using n(2) by (auto simp: open_preds_def)
  have pre: "\<forall>t\<in>set (successors_of outgoing n). map_of incoming t = Some (?f t) \<and> 0 < ?f t"
    using succs(2) cnt P(2) pos fin card_gt_0_iff by blast
  obtain incoming' ready' where st: "relax (successors_of outgoing n) incoming ready = Some (incoming', ready')"
    "map_of incoming' = (\<lambda>m. if m \<in> P `` {n} then Some (?f m - 1) else map_of incoming m)"
    "bs_ok ready'" "set ready' = set ready \<union> {t \<in> P `` {n}. ?f t = 1}"
    using relax_spec [OF bs_ok_distinct [OF succs(1)] pre sorted(2)] unfolding succs(2) by blast
  have old: "m \<notin> P `` {n} \<Longrightarrow> open_preds P (insert n ?D) m = open_preds P ?D m" for m
    by (auto simp: op open_preds_def)
  have dec: "t \<in> P `` {n} \<Longrightarrow> card (open_preds P (insert n ?D) t) = ?f t - 1" for t
    using pos [of t] fin [of t] by (simp add: op)
  have cnt': "\<forall>m\<in>M. map_of incoming' m = Some (card (open_preds P (insert n ?D) m))"
    using cnt old dec unfolding st(2) by auto
  have zero: "?f t = 1 \<longleftrightarrow> open_preds P (insert n ?D) t = {}" if t: "t \<in> P `` {n}" for t
  proof -
    have "0 < ?f t" using pos [of t] fin [of t] t card_gt_0_iff by blast
    moreover have "open_preds P (insert n ?D) t = {} \<longleftrightarrow> card (open_preds P (insert n ?D) t) = 0"
      using finite_open_preds [OF P(1), of "insert n ?D" t] by simp
    ultimately show ?thesis using dec [OF t] by linarith
  qed
  have fresh: "m \<in> M \<and> m \<notin> insert n ?D" if e: "(n, m) \<in> P" for m
  proof -
    have "m \<notin> ?D"
    proof
      assume "m \<in> ?D"
      then obtain j where "map_of ranks m = Some j" by blast
      with e rok n(2) show False unfolding ranks_ok_def by blast
    qed
    with e P(2) pos [of n] n(3) show ?thesis by blast
  qed
  have in_ready: "m \<in> set (n # ready) \<longleftrightarrow> m \<in> M \<and> m \<notin> ?D \<and> open_preds P ?D m = {}" for m
    unfolding rdy by simp
  have n_ready: "m \<in> set ready \<longleftrightarrow> m \<noteq> n \<and> m \<in> set (n # ready)" for m
    using sorted(1) by auto
  have new: "m \<in> set ready' \<longleftrightarrow> m \<in> set ready \<or> (m \<in> P `` {n} \<and> ?f m = 1)" for m
    unfolding st(4) by simp
  have "m \<in> set ready' \<longleftrightarrow> m \<in> M \<and> m \<notin> insert n ?D \<and> open_preds P (insert n ?D) m = {}" for m
  proof (cases "m \<in> P `` {n}")
    case True
    then have "m \<notin> set ready" using pos in_ready n_ready by blast
    with True show ?thesis using zero [OF True] fresh new by blast
  next
    case False
    then show ?thesis unfolding new n_ready in_ready old [OF False] by blast
  qed
  then have "set ready' = {m \<in> M. m \<notin> insert n ?D \<and> open_preds P (insert n ?D) m = {}}"
    by blast
  moreover have "ranks_ok M P (bt_insert n ord ranks) (Suc ord)"
  proof (rule ranks_ok_extend [OF rok n])
    fix m assume "m \<in> M" "m < n" "m \<notin> ?D"
    moreover have "m \<notin> set (n # ready)" using \<open>m < n\<close> sorted(1) by auto
    ultimately show "open_preds P ?D m \<noteq> {}" using rdy by blast
  qed
  ultimately show ?thesis
    using st(1,3) cnt' succs unfolding loop_inv_def D' by blast
qed

lemma kahn_loop_spec:
  assumes "loop_inv M P incoming outgoing ready ranks ord" and "finite P" and "P \<subseteq> M \<times> M"
  shows "\<exists>ranks' ord'. kahn_loop incoming outgoing ready ranks ord = Some ranks'
    \<and> ranks_ok M P ranks' ord'
    \<and> (\<forall>m\<in>M. m \<notin> dom (map_of ranks') \<longrightarrow> open_preds P (dom (map_of ranks')) m \<noteq> {})"
  using assms
proof (induction incoming outgoing ready ranks ord rule: kahn_loop.induct)
  case (1 incoming outgoing ranks ord)
  then show ?case by (auto simp: loop_inv_def)
next
  case (2 incoming outgoing n ready ranks ord)
  obtain i r where st: "relax (successors_of outgoing n) incoming ready = Some (i, r)"
    and inv: "loop_inv M P i outgoing r (bt_insert n ord ranks) (Suc ord)"
    using loop_inv_step [OF 2(2-4)] by blast
  show ?case using 2(1) [OF st refl inv 2(3,4)] st by simp
qed

lemma kahn_start:
  assumes "init_ok members P incoming outgoing" and "P \<subseteq> set members \<times> set members" and "finite P"
  shows "loop_inv (set members) P incoming outgoing
    (map fst (filter (\<lambda>(_, count). count = 0) incoming)) [] 0"
proof -
  have inc: "bt_ok incoming" "dom (map_of incoming) = set members"
    "\<forall>m\<in>set members. map_of incoming m = Some (card (open_preds P {} m))"
    using assms(1) by (auto simp: init_ok_def)
  have mem: "(m, c) \<in> set incoming \<longleftrightarrow> map_of incoming m = Some c" for m c
    using bt_ok_distinct [OF inc(1)] by simp
  have "m \<in> set (map fst (filter (\<lambda>(_, count). count = 0) incoming))
      \<longleftrightarrow> m \<in> set members \<and> open_preds P {} m = {}" for m
  proof -
    have "m \<in> set (map fst (filter (\<lambda>(_, count). count = 0) incoming)) \<longleftrightarrow> (m, 0) \<in> set incoming"
      by force
    also have "\<dots> \<longleftrightarrow> m \<in> set members \<and> card (open_preds P {} m) = 0"
      using inc(2,3) unfolding mem by (metis domI option.inject)
    also have "\<dots> \<longleftrightarrow> m \<in> set members \<and> open_preds P {} m = {}"
      using finite_open_preds [OF assms(3), of "{}" m] by simp
    finally show ?thesis .
  qed
  moreover have "bs_ok (map fst (filter (\<lambda>(_, count). count = 0) incoming))"
    using inc(1) unfolding bt_ok_def bs_ok_def by (simp add: sorted_wrt_map sorted_wrt_filter)
  ultimately show ?thesis
    using inc(3) assms(1) by (auto simp: loop_inv_def ranks_ok_def init_ok_def)
qed

lemma acyclic_total:
  assumes "acyclic P" and "finite P" and "P \<subseteq> M \<times> M"
    and stuck: "\<forall>m\<in>M. m \<notin> D \<longrightarrow> open_preds P D m \<noteq> {}"
  shows "M \<subseteq> D"
proof (rule ccontr)
  assume "\<not> M \<subseteq> D"
  then obtain x where "x \<in> M - D" by blast
  with finite_acyclic_wf [OF assms(2,1)] obtain z where z: "z \<in> M - D" "\<forall>y. (y, z) \<in> P \<longrightarrow> y \<notin> M - D"
    by (metis wf_eq_minimal)
  with stuck assms(3) show False unfolding open_preds_def by blast
qed

lemma ranked_acyclic:
  assumes "ranks_ok M P ranks ord" and "dom (map_of ranks) = M" and "P \<subseteq> M \<times> M"
  shows "acyclic P"
proof (rule acyclic_subset [OF wf_acyclic [OF wf_measure]])
  show "P \<subseteq> measure (\<lambda>x. the (map_of ranks x))"
  proof clarify
    fix a b assume e: "(a, b) \<in> P"
    with assms(2,3) obtain j where j: "map_of ranks b = Some j" by blast
    with e assms(1) obtain i where "i < j" "map_of ranks a = Some i"
      unfolding ranks_ok_def by blast
    with j show "(a, b) \<in> measure (\<lambda>x. the (map_of ranks x))" by simp
  qed
qed

lemma name_ordered_ranks_spec:
  assumes "bs_ok members"
  shows "\<exists>ranks ord. name_ordered_ranks members precede = Some ranks
    \<and> ranks_ok (set members) (prec_rel members precede) ranks ord
    \<and> (acyclic (prec_rel members precede) \<longleftrightarrow> dom (map_of ranks) = set members)"
proof -
  let ?P = "prec_rel members precede"
  have P: "?P \<subseteq> set members \<times> set members" by (auto simp: prec_rel_def)
  obtain i s where init: "kahn_init members precede = (i, s)" by fastforce
  have inv: "loop_inv (set members) ?P i s (map fst (filter (\<lambda>(_, count). count = 0) i)) [] 0"
    using kahn_start [OF kahn_init_ok [OF assms init] P finite_prec_rel] .
  obtain ranks ord where r: "name_ordered_ranks members precede = Some ranks"
    "ranks_ok (set members) ?P ranks ord"
    "\<forall>m\<in>set members. m \<notin> dom (map_of ranks) \<longrightarrow> open_preds ?P (dom (map_of ranks)) m \<noteq> {}"
    using kahn_loop_spec [OF inv finite_prec_rel P] by (auto simp: name_ordered_ranks_def init)
  have "dom (map_of ranks) \<subseteq> set members" using r(2) by (simp add: ranks_ok_def)
  then show ?thesis
    using r acyclic_total [OF _ finite_prec_rel P r(3)] ranked_acyclic [OF r(2) _ P] by blast
qed

text \<open>C26. The contract ranks of a plan are the name-first topological order: ranking never
  underflows a counter, ranks are distinct and consecutive from 0, a product is ranked only after
  every product that must precede it, a product that is ranked before one with a smaller name is
  so because that one still waited for a predecessor, and every member gets a rank exactly when
  the precedences are acyclic.\<close>

theorem name_ordered_ranks_topological:
  assumes "bs_ok members"
  shows "\<exists>ranks. name_ordered_ranks members precede = Some ranks
    \<and> dom (map_of ranks) \<subseteq> set members
    \<and> (acyclic (prec_rel members precede) \<longleftrightarrow> dom (map_of ranks) = set members)
    \<and> inj_on (map_of ranks) (dom (map_of ranks)) \<and> (\<exists>n. ran (map_of ranks) = {..<n})
    \<and> (\<forall>a b j. (a, b) \<in> prec_rel members precede \<and> map_of ranks b = Some j
         \<longrightarrow> (\<exists>i<j. map_of ranks a = Some i))
    \<and> (\<forall>a b i j. map_of ranks a = Some i \<and> map_of ranks b = Some j \<and> a < b \<and> j < i
         \<longrightarrow> (\<exists>p k. (p, a) \<in> prec_rel members precede \<and> map_of ranks p = Some k \<and> j \<le> k))"
proof -
  obtain ranks ord where r: "name_ordered_ranks members precede = Some ranks"
    "ranks_ok (set members) (prec_rel members precede) ranks ord"
    "acyclic (prec_rel members precede) \<longleftrightarrow> dom (map_of ranks) = set members"
    using name_ordered_ranks_spec [OF assms] by blast
  have tie: "\<exists>p k. (p, a) \<in> prec_rel members precede \<and> map_of ranks p = Some k \<and> j \<le> k"
    if "map_of ranks a = Some i" "map_of ranks b = Some j" "a < b" "j < i" for a b i j
  proof -
    have "a \<in> set members" "not_before ranks j a"
      using that r(2) by (auto simp: ranks_ok_def not_before_def)
    with that r(2) obtain p where p: "(p, a) \<in> prec_rel members precede" "not_before ranks j p"
      unfolding ranks_ok_def by blast
    with that r(2) obtain k where "map_of ranks p = Some k" unfolding ranks_ok_def by blast
    with p show ?thesis by (auto simp: not_before_def)
  qed
  show ?thesis using r tie unfolding ranks_ok_def by blast
qed

theorem name_ordered_ranks_topological_witness:
  "bs_ok [''api'', ''db'', ''web'']
   \<and> name_ordered_ranks [''api'', ''db'', ''web''] [(''db'', ''api'')]
       = Some [(''api'', 1), (''db'', 0), (''web'', 2)]
   \<and> acyclic (prec_rel [''api'', ''db'', ''web''] [(''db'', ''api'')])"
proof -
  have ok: "bs_ok [''api'', ''db'', ''web'']" by code_simp
  have r: "name_ordered_ranks [''api'', ''db'', ''web''] [(''db'', ''api'')]
       = Some [(''api'', 1), (''db'', 0), (''web'', 2)]" by code_simp
  show ?thesis
    using name_ordered_ranks_topological [OF ok, of "[(''db'', ''api'')]"] ok r by auto
qed

end
