(* ===== verification/Compat_Eval.thy ===== *)
theory Compat_Eval
  imports Compatibility Store_Object
begin

text \<open>
  \<open>src/software_compatibility.rs\<close>, the evaluation: \<open>evaluate_owned\<close> over one profile and one
  observation, \<open>report_manifest\<close> over the records and the installed releases of an environment,
  \<open>holdable_unmet_requirements\<close>, and \<open>refuse_unsatisfied_dependents\<close> on a plan's remaining profiles.
\<close>

section \<open>Contracts\<close>

definition contract_satisfies :: "('v, 'z) semver_scheme \<Rightarrow> u32 \<Rightarrow> 'v \<Rightarrow> 'v \<Rightarrow> bool" where
  "contract_satisfies sv profile_version actual minimum =
     (if sv_major sv actual \<noteq> sv_major sv minimum \<or> sv_less sv actual minimum then False
      else if 2 \<le> profile_version \<and> sv_major sv minimum = 0
              \<and> sv_minor sv actual \<noteq> sv_minor sv minimum then False
      else True)"

definition stricter_contract_minimum :: "('v, 'z) semver_scheme \<Rightarrow> string \<Rightarrow> string \<Rightarrow> string" where
  "stricter_contract_minimum sv left right = (case (sv_parse sv left, sv_parse sv right) of
     (Some l, Some r) \<Rightarrow> if sv_less sv l r then right else left
   | _ \<Rightarrow> left)"

definition note_unmet ::
  "('v, 'z) semver_scheme \<Rightarrow> string \<Rightarrow> string \<Rightarrow> (string, string) btree_map
     \<Rightarrow> (string, string) btree_map" where
  "note_unmet sv contract minimum unmet =
     bt_insert contract (case map_of unmet contract of
         Some existing \<Rightarrow> stricter_contract_minimum sv existing minimum
       | None \<Rightarrow> minimum) unmet"

definition push_offer ::
  "string \<Rightarrow> ContractOffer \<Rightarrow> (string, ContractOffer list) btree_map
     \<Rightarrow> (string, ContractOffer list) btree_map" where
  "push_offer name offer m =
     bt_insert name ((case map_of m name of None \<Rightarrow> [] | Some l \<Rightarrow> l) @ [offer]) m"

definition contract_offers ::
  "CompatibilityEvidence option \<Rightarrow> DeployedOffers \<Rightarrow> (string, ContractOffer list) btree_map" where
  "contract_offers evidence deployed =
     (let observe = (\<lambda>(name, version) m.
            push_offer name \<lparr>of_version = version, of_source = Observed\<rparr> m);
          seen = (case evidence of
              None \<Rightarrow> []
            | Some e \<Rightarrow> fold (\<lambda>(_, component) m. fold observe (co_provides component) m)
                (ce_components e) (fold observe (ce_contracts e) []))
      in fold (\<lambda>(name, offers) m.
           fold (\<lambda>(release, version) m.
             push_offer name \<lparr>of_version = version, of_source = Deployed release\<rparr> m) offers m)
           deployed seen)"

definition add_deployed_provides ::
  "DeployedOffers \<Rightarrow> string \<Rightarrow> string \<Rightarrow> CompatibilityProfile \<Rightarrow> DeployedOffers" where
  "add_deployed_provides deployed product version profile =
     (let release = product @ ''@'' @ version in
      fold (\<lambda>(_, component) d.
        fold (\<lambda>(contract, contract_version) d.
          bt_insert contract ((case map_of d contract of None \<Rightarrow> [] | Some l \<Rightarrow> l)
                              @ [(release, contract_version)]) d)
          (cq_provides component) d)
        (cp_components profile) deployed)"

definition offers_for ::
  "(string, ContractOffer list) btree_map \<Rightarrow> string \<Rightarrow> ContractOffer list" where
  "offers_for contracts c = (case map_of contracts c of None \<Rightarrow> [] | Some l \<Rightarrow> l)"

definition judge_offers ::
  "('v, 'z) semver_scheme \<Rightarrow> u32 \<Rightarrow> string \<Rightarrow> ContractRequirement \<Rightarrow> ContractOffer list
     \<Rightarrow> compat_error + CompatibilityFailure option" where
  "judge_offers sv profile_version contract req offers = (case offers of
     [] \<Rightarrow> Inr (if req_optional req then None else Some (MissingContract contract))
   | [provided] \<Rightarrow>
       bind_r (ok_or (Bad_Contract_Version (of_version provided))
                 (sv_parse sv (of_version provided))) (\<lambda>actual.
       bind_r (ok_or (Bad_Contract_Version (req_minimum req))
                 (sv_parse sv (req_minimum req))) (\<lambda>minimum.
         Inr (if contract_satisfies sv profile_version actual minimum then None
              else Some (IncompatibleContract contract))))
   | _ \<Rightarrow> Inr (Some (AmbiguousContract contract)))"

definition note_satisfied ::
  "string \<Rightarrow> ContractOffer list \<Rightarrow> CompatibilityFailure option \<Rightarrow> (string, string) btree_map
     \<Rightarrow> (string, string) btree_map" where
  "note_satisfied contract offers failure satisfied_by = (case (offers, failure) of
     ([provided], None) \<Rightarrow>
       (case of_source provided of
          Deployed release \<Rightarrow> bt_insert contract release satisfied_by
        | Observed \<Rightarrow> satisfied_by)
   | _ \<Rightarrow> satisfied_by)"

definition holdable_failure :: "CompatibilityFailure \<Rightarrow> bool" where
  "holdable_failure f = (case f of
     MissingContract _ \<Rightarrow> True | IncompatibleContract _ \<Rightarrow> True | _ \<Rightarrow> False)"

record contract_state =
  cs_failures :: "CompatibilityFailure list"
  cs_satisfied_by :: "(string, string) btree_map"
  cs_unmet :: "(string, string) btree_map"

definition check_contract ::
  "('v, 'z) semver_scheme \<Rightarrow> u32 \<Rightarrow> (string, ContractOffer list) btree_map \<Rightarrow> contract_state
     \<Rightarrow> string \<times> ContractRequirement \<Rightarrow> compat_error + contract_state" where
  "check_contract sv profile_version contracts st e = (case e of (contract, req) \<Rightarrow>
     let offers = offers_for contracts contract in
     bind_r (judge_offers sv profile_version contract req offers) (\<lambda>failure.
       Inr \<lparr>cs_failures = cs_failures st @ (case failure of None \<Rightarrow> [] | Some f \<Rightarrow> [f]),
            cs_satisfied_by = note_satisfied contract offers failure (cs_satisfied_by st),
            cs_unmet = (case failure of
               None \<Rightarrow> cs_unmet st
             | Some f \<Rightarrow> if \<not> req_optional req \<and> holdable_failure f
                 then note_unmet sv contract (req_minimum req) (cs_unmet st) else cs_unmet st)\<rparr>))"

definition check_contracts ::
  "('v, 'z) semver_scheme \<Rightarrow> u32 \<Rightarrow> (string, ContractRequirement) btree_map
     \<Rightarrow> (string, ContractOffer list) btree_map \<Rightarrow> CompatibilityFailure list
     \<Rightarrow> (string, string) btree_map \<Rightarrow> compat_error + contract_state" where
  "check_contracts sv profile_version requirements contracts failures satisfied_by =
     try_fold (check_contract sv profile_version contracts)
       \<lparr>cs_failures = failures, cs_satisfied_by = satisfied_by, cs_unmet = []\<rparr> requirements"

section \<open>Evaluation of one profile\<close>

definition check_environment_constraints ::
  "CompatibilityProfile \<Rightarrow> CompatibilityEvidence \<Rightarrow> (string, string) btree_map
     \<Rightarrow> CompatibilityFailure list \<Rightarrow> CompatibilityFailure list" where
  "check_environment_constraints profile evidence facts failures =
     (let capabilities = remdups_adj (sort (cp_capabilities profile)) in
      failures
      @ map MissingCapability (filter (\<lambda>c. c \<notin> set (ce_capabilities evidence)) capabilities)
      @ map (UnsatisfiedFact \<circ> fst) (filter (\<lambda>(fact, expected). map_of facts fact \<noteq> Some expected)
          (cp_facts profile))
      @ (case cp_schema profile of
           None \<Rightarrow> []
         | Some schema \<Rightarrow>
             (if case ce_schema_version evidence of
                   None \<Rightarrow> False
                 | Some v \<Rightarrow> sc_minimum schema \<le> v \<and> v \<le> sc_maximum schema
              then [] else [UnsupportedSchema])
             @ (if ce_migration evidence = sc_migration schema then []
                else [MigrationStateFailure])))"

definition evidence_valid :: "('v, 'z) semver_scheme \<Rightarrow> CompatibilityEvidence \<Rightarrow> bool" where
  "evidence_valid sv e \<longleftrightarrow>
     ce_version e = 1
     \<and> length (ce_capabilities e) \<le> 128
     \<and> length (ce_components e) \<le> 128
     \<and> is_ok (validate_contracts sv (ce_contracts e))
     \<and> list_all (\<lambda>(name, component).
          is_ok (validate_compat_identifier name)
          \<and> is_ok (validate_pin (co_pin component))
          \<and> is_ok (validate_contracts sv (co_provides component))
          \<and> is_ok (validate_contracts sv (co_requires component))) (ce_components e)
     \<and> list_all (\<lambda>name. is_ok (validate_compat_identifier name)) (ce_capabilities e)"

definition evidence_stale :: "CompatibilityProfile \<Rightarrow> CompatibilityEvidence \<Rightarrow> int \<Rightarrow> bool" where
  "evidence_stale profile e now_ms \<longleftrightarrow>
     ce_observed_at_ms e \<le> 0
     \<or> now_ms < ce_observed_at_ms e
     \<or> cp_max_evidence_age_ms profile
         < (of_int (i64_saturating_sub now_ms (ce_observed_at_ms e)) :: u64)"

definition binding_failures ::
  "CompatibilityProfile \<Rightarrow> string \<Rightarrow> string \<Rightarrow> CompatibilityEvidence \<Rightarrow> int
     \<Rightarrow> CompatibilityFailure list" where
  "binding_failures profile release_digest environment e now_ms =
     (if ce_environment e \<noteq> environment then [EnvironmentBinding] else [])
     @ (if ce_release_digest e \<noteq> release_digest then [ReleaseBinding] else [])
     @ (if evidence_stale profile e now_ms then [StaleEvidence] else [])"

definition component_failure ::
  "CompatibilityEvidence \<Rightarrow> string \<Rightarrow> ComponentRequirement \<Rightarrow> CompatibilityFailure list" where
  "component_failure e name required = (case map_of (ce_components e) name of
     None \<Rightarrow> [MissingComponent name]
   | Some observed \<Rightarrow>
       if co_pin observed \<noteq> cq_pin required
          \<or> co_provides observed \<noteq> cq_provides required
          \<or> co_requires observed \<noteq> required_minimums required
       then [ComponentChanged name] else [])"

definition eval_component ::
  "('v, 'z) semver_scheme \<Rightarrow> CompatibilityProfile \<Rightarrow> CompatibilityEvidence
     \<Rightarrow> (string, ContractOffer list) btree_map \<Rightarrow> contract_state
     \<Rightarrow> string \<times> ComponentRequirement \<Rightarrow> compat_error + contract_state" where
  "eval_component sv profile e contracts st entry = (case entry of (name, required) \<Rightarrow>
     bind_r (check_contracts sv (cp_version profile) (cq_requires required) contracts
               (cs_failures st @ component_failure e name required) (cs_satisfied_by st))
       (\<lambda>st'. Inr (st'\<lparr>cs_unmet :=
          fold (\<lambda>(contract, minimum) m. note_unmet sv contract minimum m)
            (cs_unmet st') (cs_unmet st)\<rparr>)))"

definition eval_retained ::
  "('v, 'z) semver_scheme \<Rightarrow> CompatibilityProfile \<Rightarrow> string btree_set option
     \<Rightarrow> (string, ContractOffer list) btree_map \<Rightarrow> CompatibilityFailure list
     \<Rightarrow> string \<times> ComponentObservation \<Rightarrow> compat_error + CompatibilityFailure list" where
  "eval_retained sv profile owned contracts failures entry = (case entry of (name, component) \<Rightarrow>
     if bt_contains (cp_components profile) name then Inr failures
     else if (case owned of None \<Rightarrow> False | Some s \<Rightarrow> name \<in> set s) then Inr failures
     else bind_r (check_contracts sv 1
            (map (\<lambda>(contract, minimum). (contract, Minimum minimum)) (co_requires component))
            contracts failures [])
          (\<lambda>st. Inr (cs_failures st)))"

definition evaluate_owned ::
  "('v, 'z) semver_scheme \<Rightarrow> CompatibilityProfile \<Rightarrow> string \<Rightarrow> string
     \<Rightarrow> CompatibilityEvidence option \<Rightarrow> (string, string) btree_map \<Rightarrow> int
     \<Rightarrow> string btree_set option \<Rightarrow> DeployedOffers \<Rightarrow> compat_error + CompatibilityEval" where
  "evaluate_owned sv profile release_digest environment evidence facts now_ms owned deployed =
     bind_r (validate_profile sv profile) (\<lambda>_.
     case evidence of
       None \<Rightarrow> Inr (eval_with_failures release_digest [MissingEvidence])
     | Some e \<Rightarrow>
         if \<not> evidence_valid sv e then Inr (eval_with_failures release_digest [InvalidEvidence])
         else
           let contracts = contract_offers (Some e) deployed in
           bind_r (try_fold (eval_component sv profile e contracts)
                     \<lparr>cs_failures = binding_failures profile release_digest environment e now_ms,
                      cs_satisfied_by = [], cs_unmet = []\<rparr> (cp_components profile)) (\<lambda>st.
           bind_r (try_fold (eval_retained sv profile owned contracts) (cs_failures st)
                     (ce_components e)) (\<lambda>failures.
             Inr \<lparr>ev_outcome = \<lparr>oc_version = 1, oc_release_digest = release_digest,
                     oc_failures = check_environment_constraints profile e facts failures,
                     oc_satisfied_by = cs_satisfied_by st\<rparr>,
                  ev_candidate_unmet = cs_unmet st\<rparr>)))"

definition evaluate ::
  "('v, 'z) semver_scheme \<Rightarrow> CompatibilityProfile \<Rightarrow> string \<Rightarrow> string
     \<Rightarrow> CompatibilityEvidence option \<Rightarrow> (string, string) btree_map \<Rightarrow> int
     \<Rightarrow> compat_error + CompatibilityReport" where
  "evaluate sv profile release_digest environment evidence facts now_ms =
     bind_r (evaluate_owned sv profile release_digest environment evidence facts now_ms None [])
       (\<lambda>ev. Inr (report_of_outcome (ev_outcome ev)))"

section \<open>The report of an environment\<close>

definition evidence_record_id :: "(string \<Rightarrow> string) \<Rightarrow> string \<Rightarrow> string \<Rightarrow> string" where
  "evidence_record_id sha environment raw =
     ''tenkai:software-compatibility:'' @ environment @ '':'' @ sha raw"

definition read_observation ::
  "(string \<Rightarrow> string) \<Rightarrow> (string \<Rightarrow> CompatibilityEvidence option) \<Rightarrow> string \<Rightarrow> Object
     \<Rightarrow> unit + CompatibilityEvidence" where
  "read_observation sha decode environment record = (case ob_properties record ''evidence'' of
     None \<Rightarrow> Inl ()
   | Some raw \<Rightarrow>
       if ob_id record \<noteq> evidence_record_id sha environment raw then Inl ()
       else ok_or () (decode raw))"

record installed_scan =
  is_owned :: "string btree_set"
  is_profiles :: "CompatibilityProfile list"
  is_deployed :: DeployedOffers
  is_ambiguous :: "CompatibilityFailure list"

definition claim_component :: "string \<Rightarrow> installed_scan \<Rightarrow> installed_scan" where
  "claim_component name st =
     (if name \<in> set (is_owned st)
      then st\<lparr>is_ambiguous := is_ambiguous st @ [AmbiguousComponent name]\<rparr>
      else st\<lparr>is_owned := bs_insert name (is_owned st)\<rparr>)"

definition scan_installed ::
  "(string \<Rightarrow> compat_error + CompatibilityProfile option) \<Rightarrow> string \<Rightarrow> installed_scan
     \<Rightarrow> string \<times> string \<Rightarrow> compat_error + installed_scan" where
  "scan_installed load_profile candidate st e = (case e of (product, version) \<Rightarrow>
     if product = candidate then Inr st
     else bind_r (load_profile (release_id product version)) (\<lambda>found. Inr (case found of
        None \<Rightarrow> st
      | Some installed \<Rightarrow>
          (let st' = fold claim_component (bt_keys (cp_components installed)) st in
           st'\<lparr>is_deployed := add_deployed_provides (is_deployed st') product version installed,
               is_profiles := is_profiles st' @ [installed]\<rparr>))))"

definition installed_products :: "(string \<times> string) list \<Rightarrow> (string \<times> string) list" where
  "installed_products properties =
     sort (concat (map (\<lambda>(key, version). case strip_prefix ''deployed.'' key of
             None \<Rightarrow> [] | Some product \<Rightarrow> [(product, version)]) properties))"

definition check_installed_profile ::
  "('v, 'z) semver_scheme \<Rightarrow> CompatibilityEvidence option \<Rightarrow> (string, string) btree_map
     \<Rightarrow> (string, ContractOffer list) btree_map \<Rightarrow> CompatibilityFailure list
     \<Rightarrow> CompatibilityProfile \<Rightarrow> compat_error + CompatibilityFailure list" where
  "check_installed_profile sv evidence facts offers failures installed =
     (let constrained = (case evidence of
          Some e \<Rightarrow> check_environment_constraints installed e facts failures
        | None \<Rightarrow> failures @ map (UnsatisfiedFact \<circ> fst)
            (filter (\<lambda>(fact, expected). map_of facts fact \<noteq> Some expected) (cp_facts installed)))
      in try_fold (\<lambda>fs (_, component).
           bind_r (check_contracts sv (cp_version installed) (cq_requires component) offers fs [])
             (\<lambda>st. Inr (cs_failures st)))
           constrained (cp_components installed))"

definition report_manifest ::
  "('v, 'z) semver_scheme \<Rightarrow> (string \<Rightarrow> string) \<Rightarrow> (string \<Rightarrow> CompatibilityEvidence option)
     \<Rightarrow> (string \<Rightarrow> compat_error + CompatibilityProfile option) \<Rightarrow> string \<Rightarrow> string
     \<Rightarrow> CompatibilityProfile option \<Rightarrow> string \<Rightarrow> (string, string) btree_map \<Rightarrow> Object list \<Rightarrow> int
     \<Rightarrow> (string \<times> string) list \<Rightarrow> compat_error + CompatibilityEval option" where
  "report_manifest sv sha decode load_profile environment product compatibility digest facts records
       now properties =
     (case compatibility of
        None \<Rightarrow> Inr None
      | Some profile \<Rightarrow>
        (case try_map (read_observation sha decode environment) records of
           Inl _ \<Rightarrow> Inr (Some (eval_with_failures digest [InvalidEvidence]))
         | Inr observed \<Rightarrow>
             let observations = sort_key ce_observed_at_ms observed;
                 n = length observations in
             if 1 < n \<and> ce_observed_at_ms (observations ! (n - 1))
                         = ce_observed_at_ms (observations ! (n - 2))
             then Inr (Some (eval_with_failures digest [AmbiguousEvidence]))
             else
               let newest = (if observations = [] then None else Some (last observations)) in
               bind_r (try_fold (scan_installed load_profile product)
                         \<lparr>is_owned = bs_of_list (bt_keys (cp_components profile)), is_profiles = [],
                          is_deployed = [], is_ambiguous = []\<rparr> (installed_products properties)) (\<lambda>scan.
               bind_r (evaluate_owned sv profile digest environment newest facts now
                         (Some (is_owned scan)) (is_deployed scan)) (\<lambda>result.
               bind_r (try_fold (check_installed_profile sv newest facts
                                   (contract_offers newest (is_deployed scan)))
                         (oc_failures (ev_outcome result) @ is_ambiguous scan)
                         (is_profiles scan)) (\<lambda>failures.
                 Inr (Some (result\<lparr>ev_outcome :=
                   (ev_outcome result)\<lparr>oc_failures := remdups_adj (sort failures)\<rparr>\<rparr>)))))))"

datatype compat_blocked = CompatibilityBlocked CompatibilityReport

definition require_manifest ::
  "string \<Rightarrow> compat_error + CompatibilityEval option \<Rightarrow> compat_blocked + unit" where
  "require_manifest digest report = (case report of
     Inl _ \<Rightarrow> Inl (CompatibilityBlocked (report_with_failures digest [PreflightUnavailable]))
   | Inr None \<Rightarrow> Inr ()
   | Inr (Some eval) \<Rightarrow>
       if oc_failures (ev_outcome eval) = [] then Inr ()
       else Inl (CompatibilityBlocked (report_of_outcome (ev_outcome eval))))"

section \<open>Holds and remaining dependents\<close>

definition required_contracts :: "CompatibilityProfile \<Rightarrow> string btree_set" where
  "required_contracts profile =
     fold (\<lambda>(_, component) s.
       fold (\<lambda>(contract, req) s. if req_optional req then s else bs_insert contract s)
         (cq_requires component) s) (cp_components profile) []"

definition holdable_unmet_requirements ::
  "CompatibilityOutcome \<Rightarrow> (string, string) btree_map \<Rightarrow> CompatibilityProfile
     \<Rightarrow> (string \<times> string) list option" where
  "holdable_unmet_requirements outcome candidate_unmet profile =
     (if oc_failures outcome = [] \<or> candidate_unmet = [] then None
      else if list_all (\<lambda>failure. case failure of
                MissingContract contract \<Rightarrow> contract \<in> set (required_contracts profile)
              | IncompatibleContract contract \<Rightarrow> contract \<in> set (required_contracts profile)
              | _ \<Rightarrow> False) (oc_failures outcome)
      then Some candidate_unmet
      else None)"

datatype RemainingDependentKind = Ambiguous | Unsatisfied string

record RemainingDependentRefusal =
  rd_dependent :: string
  rd_contract :: string
  rd_kind :: RemainingDependentKind

fun component_offers_match ::
  "('v, 'z) semver_scheme \<Rightarrow> u32 \<Rightarrow> string \<Rightarrow> string \<Rightarrow> (string \<times> ComponentRequirement) list
     \<Rightarrow> compat_error + bool" where
  "component_offers_match sv profile_version contract minimum [] = Inr False"
| "component_offers_match sv profile_version contract minimum ((_, component) # rest) =
     (case map_of (cq_provides component) contract of
        None \<Rightarrow> component_offers_match sv profile_version contract minimum rest
      | Some version \<Rightarrow>
          bind_r (ok_or (Bad_Contract_Version version) (sv_parse sv version)) (\<lambda>actual.
          bind_r (ok_or (Bad_Contract_Version minimum) (sv_parse sv minimum)) (\<lambda>least.
            if contract_satisfies sv profile_version actual least then Inr True
            else component_offers_match sv profile_version contract minimum rest)))"

definition matching_deployed_providers ::
  "('v, 'z) semver_scheme \<Rightarrow> (string, CompatibilityProfile) btree_map \<Rightarrow> string
     \<Rightarrow> ContractRequirement \<Rightarrow> u32 \<Rightarrow> string \<Rightarrow> compat_error + string list" where
  "matching_deployed_providers sv profiles contract req profile_version dependent =
     bind_r (try_fold (\<lambda>matching (provider, profile).
               if provider = dependent then Inr matching
               else bind_r (component_offers_match sv profile_version contract (req_minimum req)
                              (cp_components profile))
                 (\<lambda>matches. Inr (if matches then matching @ [provider] else matching)))
             [] profiles)
       (\<lambda>matching. Inr (remdups_adj (sort matching)))"

definition judge_dependent ::
  "('v, 'z) semver_scheme \<Rightarrow> (string, CompatibilityProfile) btree_map
     \<Rightarrow> (string, CompatibilityProfile) btree_map \<Rightarrow> string \<Rightarrow> u32
     \<Rightarrow> string \<times> ContractRequirement \<Rightarrow> compat_error + RemainingDependentRefusal option" where
  "judge_dependent sv remaining previous dependent version e = (case e of (contract, req) \<Rightarrow>
     bind_r (matching_deployed_providers sv remaining contract req version dependent) (\<lambda>matching.
     if 1 < length matching
     then Inr (Some \<lparr>rd_dependent = dependent, rd_contract = contract, rd_kind = Ambiguous\<rparr>)
     else if matching \<noteq> [] then Inr None
     else if req_optional req then Inr None
     else bind_r (matching_deployed_providers sv previous contract req version dependent) (\<lambda>before.
       if before = [] then Inr None
       else Inr (Some \<lparr>rd_dependent = dependent, rd_contract = contract,
                       rd_kind = Unsatisfied (req_minimum req)\<rparr>))))"

fun first_refusal ::
  "('a \<Rightarrow> compat_error + RemainingDependentRefusal option) \<Rightarrow> 'a list
     \<Rightarrow> compat_error + RemainingDependentRefusal option" where
  "first_refusal f [] = Inr None"
| "first_refusal f (x # xs) =
     bind_r (f x) (\<lambda>r. case r of Some refusal \<Rightarrow> Inr (Some refusal) | None \<Rightarrow> first_refusal f xs)"

definition remaining_dependent_refusal ::
  "('v, 'z) semver_scheme \<Rightarrow> (string, CompatibilityProfile) btree_map
     \<Rightarrow> (string, CompatibilityProfile) btree_map
     \<Rightarrow> compat_error + RemainingDependentRefusal option" where
  "remaining_dependent_refusal sv remaining previous =
     first_refusal (\<lambda>(dependent, profile).
       first_refusal (\<lambda>(_, component).
         first_refusal (judge_dependent sv remaining previous dependent (cp_version profile))
           (cq_requires component))
         (cp_components profile))
       remaining"

definition refuse_unsatisfied_dependents ::
  "('v, 'z) semver_scheme \<Rightarrow> (string, CompatibilityProfile) btree_map
     \<Rightarrow> (string, CompatibilityProfile) btree_map \<Rightarrow> compat_error + unit" where
  "refuse_unsatisfied_dependents sv remaining previous =
     bind_r (remaining_dependent_refusal sv remaining previous) (\<lambda>refusal. case refusal of
       None \<Rightarrow> Inr ()
     | Some r \<Rightarrow> Inl (case rd_kind r of
         Ambiguous \<Rightarrow> Ambiguous_Dependent (rd_dependent r) (rd_contract r)
       | Unsatisfied minimum \<Rightarrow> Unsatisfied_Dependent (rd_dependent r) (rd_contract r) minimum))"

section \<open>What the specification of a clean report is\<close>

definition contract_met ::
  "('v, 'z) semver_scheme \<Rightarrow> u32 \<Rightarrow> ContractRequirement \<Rightarrow> ContractOffer list \<Rightarrow> bool" where
  "contract_met sv profile_version req offers \<longleftrightarrow>
     (offers = [] \<and> req_optional req)
     \<or> (\<exists>offer actual minimum. offers = [offer] \<and> sv_parse sv (of_version offer) = Some actual
          \<and> sv_parse sv (req_minimum req) = Some minimum
          \<and> contract_satisfies sv profile_version actual minimum)"

definition offered ::
  "CompatibilityEvidence option \<Rightarrow> DeployedOffers \<Rightarrow> string \<Rightarrow> ContractOffer list" where
  "offered evidence deployed contract =
     (case evidence of
        None \<Rightarrow> []
      | Some e \<Rightarrow>
          [\<lparr>of_version = v, of_source = Observed\<rparr>. (k, v) \<leftarrow> ce_contracts e, k = contract]
          @ [\<lparr>of_version = v, of_source = Observed\<rparr>.
               (_, c) \<leftarrow> ce_components e, (k, v) \<leftarrow> co_provides c, k = contract])
     @ [\<lparr>of_version = v, of_source = Deployed r\<rparr>.
          (k, offers) \<leftarrow> deployed, (r, v) \<leftarrow> offers, k = contract]"

definition fresh_evidence :: "CompatibilityProfile \<Rightarrow> CompatibilityEvidence \<Rightarrow> int \<Rightarrow> bool" where
  "fresh_evidence profile e now_ms \<longleftrightarrow>
     0 < ce_observed_at_ms e \<and> ce_observed_at_ms e \<le> now_ms
     \<and> now_ms - ce_observed_at_ms e \<le> uint (cp_max_evidence_age_ms profile)"

definition component_as_published :: "CompatibilityEvidence \<Rightarrow> string \<Rightarrow> ComponentRequirement \<Rightarrow> bool" where
  "component_as_published e name required \<longleftrightarrow>
     (\<exists>observed. map_of (ce_components e) name = Some observed
        \<and> co_pin observed = cq_pin required \<and> co_provides observed = cq_provides required
        \<and> co_requires observed = required_minimums required)"

definition environment_fits ::
  "CompatibilityProfile \<Rightarrow> CompatibilityEvidence \<Rightarrow> (string, string) btree_map \<Rightarrow> bool" where
  "environment_fits profile e facts \<longleftrightarrow>
     set (cp_capabilities profile) \<subseteq> set (ce_capabilities e)
     \<and> (\<forall>(fact, expected)\<in>set (cp_facts profile). map_of facts fact = Some expected)
     \<and> (case cp_schema profile of
          None \<Rightarrow> True
        | Some schema \<Rightarrow> (\<exists>v. ce_schema_version e = Some v \<and> sc_minimum schema \<le> v
              \<and> v \<le> sc_maximum schema) \<and> ce_migration e = sc_migration schema)"

definition release_fits ::
  "('v, 'z) semver_scheme \<Rightarrow> CompatibilityProfile \<Rightarrow> string \<Rightarrow> string \<Rightarrow> CompatibilityEvidence
     \<Rightarrow> (string, string) btree_map \<Rightarrow> int \<Rightarrow> string btree_set option \<Rightarrow> DeployedOffers \<Rightarrow> bool" where
  "release_fits sv profile release_digest environment e facts now_ms owned deployed \<longleftrightarrow>
     evidence_valid sv e \<and> ce_environment e = environment \<and> ce_release_digest e = release_digest
     \<and> fresh_evidence profile e now_ms
     \<and> (\<forall>(name, required)\<in>set (cp_components profile).
          component_as_published e name required
          \<and> (\<forall>(contract, req)\<in>set (cq_requires required).
               contract_met sv (cp_version profile) req (offered (Some e) deployed contract)))
     \<and> (\<forall>(name, component)\<in>set (ce_components e).
          name \<in> fst ` set (cp_components profile)
          \<or> (case owned of None \<Rightarrow> False | Some s \<Rightarrow> name \<in> set s)
          \<or> (\<forall>(contract, minimum)\<in>set (co_requires component).
               contract_met sv 1 (Minimum minimum) (offered (Some e) deployed contract)))
     \<and> environment_fits profile e facts"

section \<open>Offers\<close>

lemma offers_for_push [simp]:
  "offers_for (push_offer name offer m) k =
     (if k = name then offers_for m k @ [offer] else offers_for m k)"
  by (simp add: offers_for_def push_offer_def)

lemma offers_for_Nil [simp]: "offers_for [] k = []"
  by (simp add: offers_for_def)

lemma offers_for_fold_push:
  "offers_for (fold (\<lambda>(name, version) m. push_offer name (f version) m) kvs m) k
     = offers_for m k @ [f v. (n, v) \<leftarrow> kvs, n = k]"
  by (induction kvs arbitrary: m) auto

lemma offers_for_fold_components:
  "offers_for (fold (\<lambda>(n, c) m. fold (\<lambda>(name, version) m. push_offer name (f version) m)
        (co_provides c) m) cs m) k
     = offers_for m k @ [f v. (_, c) \<leftarrow> cs, (n, v) \<leftarrow> co_provides c, n = k]"
  by (induction cs arbitrary: m) (auto simp: offers_for_fold_push)

lemma offers_for_fold_release:
  "offers_for (fold (\<lambda>(release, version) m. push_offer name (f release version) m) rvs m) k
     = offers_for m k @ [f r v. (r, v) \<leftarrow> rvs, name = k]"
  by (induction rvs arbitrary: m) auto

lemma offers_for_fold_deployed:
  "offers_for (fold (\<lambda>(name, offers) m.
        fold (\<lambda>(release, version) m. push_offer name (f release version) m) offers m) ds m) k
     = offers_for m k @ [f r v. (n, offers) \<leftarrow> ds, (r, v) \<leftarrow> offers, n = k]"
  by (induction ds arbitrary: m) (auto simp: offers_for_fold_release)

lemma contract_offers_offered: "offers_for (contract_offers evidence deployed) contract = offered evidence deployed contract"
  unfolding contract_offers_def offered_def Let_def
  by (cases evidence) (simp_all add: offers_for_fold_push offers_for_fold_components
      offers_for_fold_deployed)

section \<open>Checks\<close>

lemma judge_offers_None:
  "judge_offers sv v contract req offers = Inr f \<Longrightarrow> f = None \<longleftrightarrow> contract_met sv v req offers"
  by (auto simp: judge_offers_def contract_met_def result_simps split: list.splits if_splits)

lemma check_contract_clean:
  assumes "check_contract sv v contracts st (contract, req) = Inr st'"
  shows "cs_failures st' = [] \<longleftrightarrow>
    cs_failures st = [] \<and> contract_met sv v req (offers_for contracts contract)"
proof -
  obtain f where f: "judge_offers sv v contract req (offers_for contracts contract) = Inr f"
    and "cs_failures st' = cs_failures st @ (case f of None \<Rightarrow> [] | Some x \<Rightarrow> [x])"
    using assms by (auto simp: check_contract_def Let_def result_simps)
  then show ?thesis using judge_offers_None [OF f] by (auto split: option.splits)
qed

lemma check_contracts_clean:
  assumes "check_contracts sv v reqs contracts failures satisfied = Inr st"
  shows "cs_failures st = [] \<longleftrightarrow> failures = []
    \<and> (\<forall>(contract, req)\<in>set reqs. contract_met sv v req (offers_for contracts contract))"
proof -
  have "cs_failures st = [] \<longleftrightarrow> cs_failures s = []
      \<and> (\<forall>(contract, req)\<in>set rs. contract_met sv v req (offers_for contracts contract))"
    if "try_fold (check_contract sv v contracts) s rs = Inr st" for s rs
    using that
  proof (induction rs arbitrary: s)
    case (Cons e rs)
    obtain c q where e: "e = (c, q)" by fastforce
    obtain t where t: "check_contract sv v contracts s (c, q) = Inr t"
      and r: "try_fold (check_contract sv v contracts) t rs = Inr st"
      using Cons.prems by (auto simp: result_simps e)
    show ?case using Cons.IH [OF r] check_contract_clean [OF t] by (auto simp: e)
  qed simp
  from this [OF assms [unfolded check_contracts_def]] show ?thesis by simp
qed

lemma component_failure_clean: "component_failure e name required = [] \<longleftrightarrow> component_as_published e name required"
  by (auto simp: component_failure_def component_as_published_def split: option.splits)

lemma eval_component_clean:
  assumes "eval_component sv p e contracts st (name, required) = Inr st'"
  shows "cs_failures st' = [] \<longleftrightarrow> cs_failures st = [] \<and> component_as_published e name required
    \<and> (\<forall>(contract, req)\<in>set (cq_requires required).
         contract_met sv (cp_version p) req (offers_for contracts contract))"
proof -
  obtain s where s: "check_contracts sv (cp_version p) (cq_requires required) contracts
      (cs_failures st @ component_failure e name required) (cs_satisfied_by st) = Inr s"
    and "cs_failures st' = cs_failures s"
    using assms by (auto simp: eval_component_def result_simps)
  then show ?thesis using check_contracts_clean [OF s] by (simp add: component_failure_clean)
qed

lemma eval_components_clean:
  assumes "try_fold (eval_component sv p e contracts) st cs = Inr st'"
  shows "cs_failures st' = [] \<longleftrightarrow> cs_failures st = []
    \<and> (\<forall>(name, required)\<in>set cs. component_as_published e name required
         \<and> (\<forall>(contract, req)\<in>set (cq_requires required).
              contract_met sv (cp_version p) req (offers_for contracts contract)))"
  using assms
proof (induction cs arbitrary: st)
  case (Cons x cs)
  obtain n r where x: "x = (n, r)" by fastforce
  obtain t where t: "eval_component sv p e contracts st (n, r) = Inr t"
    and f: "try_fold (eval_component sv p e contracts) t cs = Inr st'"
    using Cons.prems by (auto simp: result_simps x)
  show ?case using Cons.IH [OF f] eval_component_clean [OF t] by (auto simp: x)
qed simp

lemma eval_retained_clean:
  assumes "eval_retained sv p owned contracts failures (name, component) = Inr failures'"
  shows "failures' = [] \<longleftrightarrow> failures = []
    \<and> (name \<in> fst ` set (cp_components p)
        \<or> (case owned of None \<Rightarrow> False | Some s \<Rightarrow> name \<in> set s)
        \<or> (\<forall>(contract, minimum)\<in>set (co_requires component).
             contract_met sv 1 (Minimum minimum) (offers_for contracts contract)))"
proof (cases "bt_contains (cp_components p) name
    \<or> (case owned of None \<Rightarrow> False | Some s \<Rightarrow> name \<in> set s)")
  case True
  then show ?thesis using assms
    by (auto simp: eval_retained_def bt_contains_def bt_keys_def split: if_splits)
next
  case False
  then obtain s where "check_contracts sv 1
      (map (\<lambda>(contract, minimum). (contract, Minimum minimum)) (co_requires component))
      contracts failures [] = Inr s" and "failures' = cs_failures s"
    using assms by (auto simp: eval_retained_def result_simps)
  from check_contracts_clean [OF this(1)] this(2) False show ?thesis
    by (auto simp: bt_contains_def bt_keys_def)
qed

lemma eval_retained_all_clean:
  assumes "try_fold (eval_retained sv p owned contracts) failures cs = Inr failures'"
  shows "failures' = [] \<longleftrightarrow> failures = []
    \<and> (\<forall>(name, component)\<in>set cs. name \<in> fst ` set (cp_components p)
        \<or> (case owned of None \<Rightarrow> False | Some s \<Rightarrow> name \<in> set s)
        \<or> (\<forall>(contract, minimum)\<in>set (co_requires component).
             contract_met sv 1 (Minimum minimum) (offers_for contracts contract)))"
  using assms
proof (induction cs arbitrary: failures)
  case (Cons x cs)
  obtain n c where x: "x = (n, c)" by fastforce
  obtain t where t: "eval_retained sv p owned contracts failures (n, c) = Inr t"
    and f: "try_fold (eval_retained sv p owned contracts) t cs = Inr failures'"
    using Cons.prems by (auto simp: result_simps x)
  show ?case using Cons.IH [OF f] eval_retained_clean [OF t] by (simp add: x)
qed simp

lemma check_environment_constraints_clean:
  "check_environment_constraints p e facts failures = [] \<longleftrightarrow> failures = [] \<and> environment_fits p e facts"
  by (auto simp: check_environment_constraints_def environment_fits_def Let_def filter_empty_conv
      split: option.splits if_splits)

lemma evidence_stale_iff:
  assumes "is_i64 now_ms"
  shows "evidence_stale p e now_ms \<longleftrightarrow> \<not> fresh_evidence p e now_ms"
proof (cases "0 < ce_observed_at_ms e \<and> ce_observed_at_ms e \<le> now_ms")
  case True
  let ?d = "now_ms - ce_observed_at_ms e"
  have d: "0 \<le> ?d" "?d < 2 ^ 63" "is_i64 ?d"
    using True assms by (auto simp: is_i64_def i64_max_def i64_min_def)
  then have "uint (of_int ?d :: u64) = ?d"
    by (simp add: word_of_int_inverse uint_word_of_int take_bit_int_eq_self)
  then show ?thesis using True d(3)
    by (auto simp: evidence_stale_def fresh_evidence_def i64_saturating_sub_def clamp_i64_id
        word_less_def)
next
  case False
  then show ?thesis by (auto simp: evidence_stale_def fresh_evidence_def)
qed

lemma evaluate_owned_clean:
  assumes ev: "evaluate_owned sv p d env evidence facts now owned deployed = Inr r" and now: "is_i64 now"
  shows "oc_failures (ev_outcome r) = [] \<longleftrightarrow>
    (\<exists>e. evidence = Some e \<and> release_fits sv p d env e facts now owned deployed)"
proof (cases evidence)
  case None
  then show ?thesis using ev
    by (auto simp: evaluate_owned_def result_simps eval_with_failures_def outcome_with_failures_def)
next
  case (Some e)
  show ?thesis
  proof (cases "evidence_valid sv e")
    case False
    then show ?thesis using ev Some
      by (auto simp: evaluate_owned_def result_simps eval_with_failures_def outcome_with_failures_def
          release_fits_def)
  next
    case True
    let ?cs = "contract_offers (Some e) deployed"
    let ?init = "\<lparr>cs_failures = binding_failures p d env e now, cs_satisfied_by = [], cs_unmet = []\<rparr>"
    obtain st fs where st: "try_fold (eval_component sv p e ?cs) ?init (cp_components p) = Inr st"
      and fs: "try_fold (eval_retained sv p owned ?cs) (cs_failures st) (ce_components e) = Inr fs"
      and r: "oc_failures (ev_outcome r) = check_environment_constraints p e facts fs"
      using ev Some True by (auto simp: evaluate_owned_def result_simps Let_def)
    have b: "binding_failures p d env e now = [] \<longleftrightarrow>
        ce_environment e = env \<and> ce_release_digest e = d \<and> fresh_evidence p e now"
      by (auto simp: binding_failures_def evidence_stale_iff [OF now])
    show ?thesis
      unfolding r check_environment_constraints_clean eval_retained_all_clean [OF fs]
        eval_components_clean [OF st] release_fits_def contract_offers_offered
      using Some True b by auto
  qed
qed

section \<open>Remaining dependents\<close>

definition component_offers ::
  "('v, 'z) semver_scheme \<Rightarrow> u32 \<Rightarrow> string \<Rightarrow> string \<Rightarrow> ComponentRequirement \<Rightarrow> bool" where
  "component_offers sv profile_version contract minimum component \<longleftrightarrow>
     (\<exists>version actual least. map_of (cq_provides component) contract = Some version
        \<and> sv_parse sv version = Some actual \<and> sv_parse sv minimum = Some least
        \<and> contract_satisfies sv profile_version actual least)"

definition provider_offers ::
  "('v, 'z) semver_scheme \<Rightarrow> u32 \<Rightarrow> string \<Rightarrow> string \<Rightarrow> CompatibilityProfile \<Rightarrow> bool" where
  "provider_offers sv profile_version contract minimum profile \<longleftrightarrow>
     (\<exists>c\<in>set (cp_components profile). component_offers sv profile_version contract minimum (snd c))"

definition satisfying_providers ::
  "('v, 'z) semver_scheme \<Rightarrow> (string, CompatibilityProfile) btree_map \<Rightarrow> string
     \<Rightarrow> ContractRequirement \<Rightarrow> u32 \<Rightarrow> string \<Rightarrow> string set" where
  "satisfying_providers sv profiles contract req profile_version dependent =
     {provider. provider \<noteq> dependent \<and> (\<exists>profile. (provider, profile) \<in> set profiles
        \<and> provider_offers sv profile_version contract (req_minimum req) profile)}"

lemma component_offers_match_iff:
  "component_offers_match sv v contract minimum cs = Inr m \<Longrightarrow>
     m \<longleftrightarrow> (\<exists>c\<in>set cs. component_offers sv v contract minimum (snd c))"
proof (induction sv v contract minimum cs rule: component_offers_match.induct)
  case (2 sv v contract minimum n c rest)
  show ?case
  proof (cases "map_of (cq_provides c) contract")
    case None
    then have "\<not> component_offers sv v contract minimum c" by (simp add: component_offers_def)
    with 2 None show ?thesis by simp
  next
    case (Some version)
    then obtain a l where al: "sv_parse sv version = Some a" "sv_parse sv minimum = Some l"
      using 2(3) by (auto simp: result_simps)
    then have "component_offers sv v contract minimum c \<longleftrightarrow> contract_satisfies sv v a l"
      using Some by (simp add: component_offers_def)
    with Some al 2 show ?thesis by (cases "contract_satisfies sv v a l") simp_all
  qed
qed simp

lemma matching_deployed_providers_set:
  assumes "matching_deployed_providers sv profiles contract req v dependent = Inr ms"
  shows "set ms = satisfying_providers sv profiles contract req v dependent \<and> distinct ms \<and> sorted ms"
proof -
  let ?f = "\<lambda>matching (provider, profile).
     if provider = dependent then Inr matching
     else bind_r (component_offers_match sv v contract (req_minimum req) (cp_components profile))
            (\<lambda>matches. Inr (if matches then matching @ [provider] else matching))"
  have step: "set l' = set l \<union> satisfying_providers sv ps contract req v dependent"
    if "try_fold ?f l ps = Inr l'" for l l' ps
    using that
  proof (induction ps arbitrary: l)
    case Nil
    then show ?case by (simp add: satisfying_providers_def)
  next
    case (Cons x ps)
    obtain p prof where x: "x = (p, prof)" by fastforce
    obtain k where k: "?f l (p, prof) = Inr k" and r: "try_fold ?f k ps = Inr l'"
      using Cons.prems by (auto simp: result_simps x)
    have "set k = set l \<union> satisfying_providers sv [(p, prof)] contract req v dependent"
      using k component_offers_match_iff [of sv v contract "req_minimum req" "cp_components prof"]
      by (auto simp: satisfying_providers_def provider_offers_def result_simps split: if_splits)
    moreover have "satisfying_providers sv (x # ps) contract req v dependent
        = satisfying_providers sv [(p, prof)] contract req v dependent
          \<union> satisfying_providers sv ps contract req v dependent"
      by (auto simp: satisfying_providers_def x)
    ultimately show ?case using Cons.IH [OF r] by blast
  qed
  obtain l where l: "try_fold ?f [] profiles = Inr l" and ms: "ms = remdups_adj (sort l)"
    using assms by (auto simp: matching_deployed_providers_def result_simps)
  then show ?thesis using step [OF l] by (simp add: sorted_remdups_adj distinct_dedup_sorted)
qed

lemma first_refusal_None:
  "first_refusal f xs = Inr None \<longleftrightarrow> (\<forall>x\<in>set xs. f x = Inr None)"
  by (induction xs) (auto simp: result_simps split: option.splits)

lemma judge_dependent_None:
  assumes "judge_dependent sv remaining previous dependent v (contract, req) = Inr None"
  shows "card (satisfying_providers sv remaining contract req v dependent) \<le> 1
    \<and> (req_optional req \<or> satisfying_providers sv previous contract req v dependent = {}
        \<or> satisfying_providers sv remaining contract req v dependent \<noteq> {})"
proof -
  obtain ms where ms: "matching_deployed_providers sv remaining contract req v dependent = Inr ms"
    and l: "length ms \<le> 1"
    using assms by (auto simp: judge_dependent_def result_simps split: if_splits)
  have set_ms: "set ms = satisfying_providers sv remaining contract req v dependent"
    and d: "distinct ms" using matching_deployed_providers_set [OF ms] by auto
  have "card (satisfying_providers sv remaining contract req v dependent) \<le> 1"
    using l distinct_card [OF d] by (simp add: set_ms)
  moreover have "req_optional req \<or> satisfying_providers sv previous contract req v dependent = {}"
    if "ms = []"
  proof (cases "req_optional req")
    case False
    then have "matching_deployed_providers sv previous contract req v dependent = Inr []"
      using assms ms that by (auto simp: judge_dependent_def result_simps split: if_splits)
    from matching_deployed_providers_set [OF this] show ?thesis by auto
  qed simp
  ultimately show ?thesis using set_ms by auto
qed

section \<open>The report\<close>

definition requires_met ::
  "('v, 'z) semver_scheme \<Rightarrow> CompatibilityProfile \<Rightarrow> (string \<Rightarrow> ContractOffer list) \<Rightarrow> bool" where
  "requires_met sv profile offers \<longleftrightarrow> (\<forall>(name, component)\<in>set (cp_components profile).
     \<forall>(contract, req)\<in>set (cq_requires component).
       contract_met sv (cp_version profile) req (offers contract))"

lemma check_installed_profile_clean:
  assumes "check_installed_profile sv evidence facts offers failures installed = Inr failures'"
  shows "failures' = [] \<longrightarrow> failures = [] \<and> requires_met sv installed (offers_for offers)
    \<and> (\<forall>e. evidence = Some e \<longrightarrow> environment_fits installed e facts)"
proof -
  let ?f = "\<lambda>fs (n :: string, component).
     bind_r (check_contracts sv (cp_version installed) (cq_requires component) offers fs [])
       (\<lambda>st. Inr (cs_failures st))"
  have step: "fs' = [] \<longrightarrow> fs = [] \<and> (\<forall>(name, component)\<in>set cs.
         \<forall>(contract, req)\<in>set (cq_requires component).
           contract_met sv (cp_version installed) req (offers_for offers contract))"
    if "try_fold ?f fs cs = Inr fs'" for fs fs' cs
    using that
  proof (induction cs arbitrary: fs)
    case (Cons x cs)
    obtain n c where x: "x = (n, c)" by fastforce
    obtain st where st: "check_contracts sv (cp_version installed) (cq_requires c) offers fs [] = Inr st"
      and r: "try_fold ?f (cs_failures st) cs = Inr fs'"
      using Cons.prems by (auto simp: result_simps x)
    show ?case using Cons.IH [OF r] check_contracts_clean [OF st] by (simp add: x)
  qed simp
  show ?thesis
  proof (cases evidence)
    case None
    with assms step show ?thesis
      unfolding check_installed_profile_def requires_met_def Let_def by fastforce
  next
    case (Some e)
    have "try_fold ?f (check_environment_constraints installed e facts failures)
        (cp_components installed) = Inr failures'"
      using assms Some by (simp add: check_installed_profile_def)
    from step [OF this] Some show ?thesis
      unfolding requires_met_def check_environment_constraints_clean by simp
  qed
qed

lemma check_installed_profiles_clean:
  assumes "try_fold (check_installed_profile sv evidence facts offers) failures ps = Inr []"
  shows "failures = [] \<and> (\<forall>installed\<in>set ps. requires_met sv installed (offers_for offers)
    \<and> (\<forall>e. evidence = Some e \<longrightarrow> environment_fits installed e facts))"
  using assms
proof (induction ps arbitrary: failures)
  case (Cons p ps)
  obtain t where t: "check_installed_profile sv evidence facts offers failures p = Inr t"
    and r: "try_fold (check_installed_profile sv evidence facts offers) t ps = Inr []"
    using Cons.prems by (auto simp: result_simps)
  show ?case using Cons.IH [OF r] check_installed_profile_clean [OF t] by simp
qed simp

lemma claim_component_profiles [simp]: "is_profiles (claim_component n st) = is_profiles st"
  by (simp add: claim_component_def)

lemma fold_claim_component_profiles [simp]:
  "is_profiles (fold claim_component ns st) = is_profiles st"
  by (induction ns arbitrary: st) auto

lemma scan_installed_profiles:
  assumes "try_fold (scan_installed load candidate) st ps = Inr st'"
    and "(product, version) \<in> set ps" and "product \<noteq> candidate"
    and "load (release_id product version) = Inr (Some installed)"
  shows "installed \<in> set (is_profiles st')"
proof -
  have mono: "set (is_profiles s) \<subseteq> set (is_profiles t)"
    if "try_fold (scan_installed load candidate) s qs = Inr t" for s t qs
  proof (rule try_fold_invariant [OF that, where P = "\<lambda>u. set (is_profiles s) \<subseteq> set (is_profiles u)"])
    fix u x w assume s: "set (is_profiles s) \<subseteq> set (is_profiles u)"
      and x: "scan_installed load candidate u x = Inr w"
    have "set (is_profiles u) \<subseteq> set (is_profiles w)" using x
      by (cases x) (auto simp: scan_installed_def Let_def result_simps split: if_splits option.splits)
    with s show "set (is_profiles s) \<subseteq> set (is_profiles w)" by blast
  qed simp
  obtain as bs where ps: "ps = as @ (product, version) # bs"
    using assms(2) by (meson split_list)
  obtain s t where "scan_installed load candidate s (product, version) = Inr t"
    and r: "try_fold (scan_installed load candidate) t bs = Inr st'"
    using assms(1) unfolding ps by (auto simp: try_fold_append result_simps)
  then have "installed \<in> set (is_profiles t)"
    using assms(3,4) by (auto simp: scan_installed_def Let_def result_simps)
  then show ?thesis using mono [OF r] by blast
qed

lemma report_manifest_clean:
  assumes rep: "report_manifest sv sha decode load env product (Some p) digest facts records now props
      = Inr (Some r)"
    and clean: "oc_failures (ev_outcome r) = []" and now: "is_i64 now"
  shows "\<exists>observed e owned deployed.
    try_map (read_observation sha decode env) records = Inr observed \<and> e \<in> set observed
    \<and> (\<forall>x\<in>set observed. ce_observed_at_ms x \<le> ce_observed_at_ms e)
    \<and> release_fits sv p digest env e facts now (Some owned) deployed
    \<and> (\<forall>q v installed. (q, v) \<in> set (installed_products props) \<and> q \<noteq> product
          \<and> load (release_id q v) = Inr (Some installed) \<longrightarrow>
        environment_fits installed e facts \<and> requires_met sv installed (offered (Some e) deployed))"
proof -
  obtain obs where obs: "try_map (read_observation sha decode env) records = Inr obs"
    using rep clean by (auto simp: report_manifest_def eval_with_failures_def outcome_with_failures_def
        split: sum.splits)
  let ?l = "sort_key ce_observed_at_ms obs"
  let ?new = "if ?l = [] then None else Some (last ?l)"
  let ?init = "\<lparr>is_owned = bs_of_list (bt_keys (cp_components p)), is_profiles = [], is_deployed = [],
     is_ambiguous = []\<rparr>"
  obtain scan result failures where
      scan: "try_fold (scan_installed load product) ?init (installed_products props) = Inr scan"
    and ev: "evaluate_owned sv p digest env ?new facts now (Some (is_owned scan)) (is_deployed scan)
        = Inr result"
    and chk: "try_fold (check_installed_profile sv ?new facts (contract_offers ?new (is_deployed scan)))
        (oc_failures (ev_outcome result) @ is_ambiguous scan) (is_profiles scan) = Inr failures"
    and r: "oc_failures (ev_outcome r) = remdups_adj (sort failures)"
    using rep clean obs
    by (auto simp: report_manifest_def Let_def result_simps eval_with_failures_def
        outcome_with_failures_def split: if_splits)
  have "failures = []"
    using r clean by (metis remdups_adj_Nil_iff set_empty set_sort)
  with chk have chk': "try_fold (check_installed_profile sv ?new facts
      (contract_offers ?new (is_deployed scan)))
      (oc_failures (ev_outcome result) @ is_ambiguous scan) (is_profiles scan) = Inr []" by simp
  have rc: "oc_failures (ev_outcome result) = []"
    using check_installed_profiles_clean [OF chk'] by simp
  with evaluate_owned_clean [OF ev now] obtain e where e: "?new = Some e"
    and fits: "release_fits sv p digest env e facts now (Some (is_owned scan)) (is_deployed scan)"
    by blast
  then have ne: "?l \<noteq> []" and last: "e = last ?l" by (auto split: if_splits)
  have "ce_observed_at_ms x \<le> ce_observed_at_ms e" if "x \<in> set obs" for x
    unfolding last using that by (rule sort_key_last_max)
  moreover have "e \<in> set obs" unfolding last using ne by (rule sort_key_last_mem)
  moreover have "environment_fits installed e facts
      \<and> requires_met sv installed (offered (Some e) (is_deployed scan))"
    if "(q, v) \<in> set (installed_products props)" "q \<noteq> product"
      "load (release_id q v) = Inr (Some installed)" for q v installed
    using check_installed_profiles_clean [OF chk'] scan_installed_profiles [OF scan that] e
    unfolding e contract_offers_offered by simp
  ultimately show ?thesis using obs fits by blast
qed

end
