(* ===== verification/Compat_Theorems.thy ===== *)
theory Compat_Theorems
  imports Compat_Eval
begin

text \<open>
  What the compatibility evaluation of \<open>src/software_compatibility.rs\<close> guarantees: when a report is
  clean, which requirements hold then, and what a plan may do to the dependents that remain.
\<close>

section \<open>Concrete values\<close>

definition demo_pin :: ComponentPin where
  "demo_pin = Digest (''sha256:'' @ replicate 64 CHR ''a'')"

definition demo_profile :: CompatibilityProfile where
  "demo_profile = \<lparr>cp_version = 2,
     cp_components = [(''api'', \<lparr>cq_pin = demo_pin, cq_requires = [(''sql'', Minimum ''1.2.0'')],
                                cq_provides = [(''rest'', ''2.0.0'')]\<rparr>)],
     cp_capabilities = [''gpu''], cp_facts = [(''zone'', ''eu'')],
     cp_schema = Some \<lparr>sc_minimum = 1, sc_maximum = 3, sc_migration = Stable\<rparr>,
     cp_max_evidence_age_ms = 60000\<rparr>"

definition demo_evidence :: CompatibilityEvidence where
  "demo_evidence = \<lparr>ce_version = 1, ce_release_digest = ''d'', ce_environment = ''prod'',
     ce_observed_at_ms = 100000,
     ce_components = [(''api'', \<lparr>co_pin = demo_pin, co_requires = [(''sql'', ''1.2.0'')],
                                co_provides = [(''rest'', ''2.0.0'')]\<rparr>)],
     ce_contracts = [(''sql'', ''1.3.0'')], ce_capabilities = [''gpu''],
     ce_schema_version = Some 2, ce_migration = Stable\<rparr>"

definition demo_eval :: CompatibilityEval where
  "demo_eval = \<lparr>ev_outcome = outcome_with_failures ''d'' [], ev_candidate_unmet = []\<rparr>"

definition database_profile :: CompatibilityProfile where
  "database_profile = \<lparr>cp_version = 1,
     cp_components = [(''db'', \<lparr>cq_pin = demo_pin, cq_requires = [],
                               cq_provides = [(''sql'', ''1.4.0'')]\<rparr>)],
     cp_capabilities = [], cp_facts = [], cp_schema = None, cp_max_evidence_age_ms = 60000\<rparr>"

definition demo_record :: Object where
  "demo_record = \<lparr>ob_id = ''tenkai:software-compatibility:prod:h'', ob_kind = ''k'', ob_name = ''h'',
     ob_namespace = ''tenkai'', ob_external_id = [], ob_properties = [''evidence'' \<mapsto> ''raw''],
     ob_created = 0, ob_updated = 0\<rparr>"

definition demo_load :: "string \<Rightarrow> compat_error + CompatibilityProfile option" where
  "demo_load rid = (if rid = release_id ''db'' ''7.0.0'' then Inr (Some database_profile) else Inr None)"

definition demo_candidate :: CompatibilityProfile where
  "demo_candidate = demo_profile\<lparr>cp_facts := []\<rparr>"

definition demo_observation :: CompatibilityEvidence where
  "demo_observation = demo_evidence\<lparr>ce_contracts := []\<rparr>"

section \<open>Properties\<close>

text \<open>C8. A compatibility report is clean exactly when the release fits: the evidence is present,
  valid, bound to this release and environment and fresh (integer arithmetic, no wrap-around), every
  component is observed as published, every contract has exactly one offer at a satisfying version
  (or none when optional), retained components stay satisfied, and capabilities, facts and schema
  match.  Anything missing fails closed.\<close>

theorem evaluate_clean_iff_fits:
  assumes "evaluate_owned sv p d env evidence facts now owned deployed = Inr r" and "is_i64 now"
  shows "oc_failures (ev_outcome r) = [] \<longleftrightarrow>
    (\<exists>e. evidence = Some e \<and> release_fits sv p d env e facts now owned deployed)"
  using assms by (rule evaluate_owned_clean)

theorem evaluate_clean_iff_fits_witness:
  "release_fits triple_semver demo_profile ''d'' ''prod'' demo_evidence [(''zone'', ''eu'')] 150000
     None []"
proof -
  have ev: "evaluate_owned triple_semver demo_profile ''d'' ''prod'' (Some demo_evidence)
      [(''zone'', ''eu'')] 150000 None [] = Inr demo_eval"
    by code_simp
  have now: "is_i64 150000" by (simp add: is_i64_def i64_min_def i64_max_def)
  have "oc_failures (ev_outcome demo_eval) = []"
    by (simp add: demo_eval_def outcome_with_failures_def)
  then show ?thesis using evaluate_clean_iff_fits [OF ev now] by simp
qed

text \<open>Contract satisfaction is a preorder on versions for every profile version, so replacing a
  provider by one that satisfies the old provider's version keeps every satisfied dependent
  satisfied; and whatever satisfies a version 2 profile satisfies the version 1 rule.\<close>

theorem contract_satisfies_preorder:
  assumes "semver_laws sv"
  shows "contract_satisfies sv v a a
    \<and> (contract_satisfies sv v a b \<and> contract_satisfies sv v b c \<longrightarrow> contract_satisfies sv v a c)
    \<and> (contract_satisfies sv 2 a b \<longrightarrow> contract_satisfies sv 1 a b)"
  using semver_irrefl [OF assms] semver_le_trans [OF assms, of b c a]
  by (auto simp: contract_satisfies_def)

theorem contract_satisfies_preorder_witness:
  "contract_satisfies triple_semver 2 (1, 4, 0) (1, 3, 0)
   \<and> contract_satisfies triple_semver 2 (1, 3, 0) (1, 2, 0)
   \<and> contract_satisfies triple_semver 2 (1, 4, 0) (1, 2, 0)
   \<and> \<not> contract_satisfies triple_semver 2 (0, 4, 0) (0, 3, 0)
   \<and> contract_satisfies triple_semver 1 (0, 4, 0) (0, 3, 0)"
proof -
  have a: "contract_satisfies triple_semver 2 (1, 4, 0) (1, 3, 0)"
    and b: "contract_satisfies triple_semver 2 (1, 3, 0) (1, 2, 0)"
    and c: "\<not> contract_satisfies triple_semver 2 (0, 4, 0) (0, 3, 0)"
      "contract_satisfies triple_semver 1 (0, 4, 0) (0, 3, 0)"
    by code_simp+
  show ?thesis
    using contract_satisfies_preorder [OF triple_semver_laws, of 2 "(1, 4, 0)" "(1, 3, 0)" "(1, 2, 0)"]
      a b c by simp
qed

lemma finite_satisfying_providers: "finite (satisfying_providers sv profiles contract req v dependent)"
  by (rule finite_subset [of _ "fst ` set profiles"]) (force simp: satisfying_providers_def)+

text \<open>C15. A plan that passes \<open>refuse_unsatisfied_dependents\<close> leaves no dependent behind: for every
  requirement of every remaining product at most one other product satisfies it, and a required
  contract that some deployed product satisfied before the plan is satisfied by exactly one
  after it.\<close>

theorem remaining_dependents_stay_satisfied:
  assumes "refuse_unsatisfied_dependents sv remaining previous = Inr ()"
    and "(dependent, profile) \<in> set remaining" and "(name, component) \<in> set (cp_components profile)"
    and "(contract, req) \<in> set (cq_requires component)"
  shows "card (satisfying_providers sv remaining contract req (cp_version profile) dependent) \<le> 1
    \<and> (\<not> req_optional req
        \<and> satisfying_providers sv previous contract req (cp_version profile) dependent \<noteq> {}
        \<longrightarrow> card (satisfying_providers sv remaining contract req (cp_version profile) dependent) = 1)"
proof -
  have "remaining_dependent_refusal sv remaining previous = Inr None"
    using assms(1) by (auto simp: refuse_unsatisfied_dependents_def result_simps split: option.splits)
  then have "judge_dependent sv remaining previous dependent (cp_version profile) (contract, req) = Inr None"
    using assms(2-4) by (fastforce simp: remaining_dependent_refusal_def first_refusal_None)
  from judge_dependent_None [OF this]
    finite_satisfying_providers [of sv remaining contract req "cp_version profile" dependent]
  show ?thesis using card_0_eq by (metis One_nat_def le_SucE le_zero_eq)
qed

theorem remaining_dependents_stay_satisfied_witness:
  "refuse_unsatisfied_dependents triple_semver [(''api'', demo_profile), (''db'', database_profile)]
       [(''api'', demo_profile), (''db'', database_profile)] = Inr ()
   \<and> card (satisfying_providers triple_semver [(''api'', demo_profile), (''db'', database_profile)]
       ''sql'' (Minimum ''1.2.0'') 2 ''api'') \<le> 1"
proof -
  let ?m = "[(''api'', demo_profile), (''db'', database_profile)]"
  have ok: "refuse_unsatisfied_dependents triple_semver ?m ?m = Inr ()" by code_simp
  have "(''api'', \<lparr>cq_pin = demo_pin, cq_requires = [(''sql'', Minimum ''1.2.0'')],
      cq_provides = [(''rest'', ''2.0.0'')]\<rparr>) \<in> set (cp_components demo_profile)"
    by (simp add: demo_profile_def)
  from remaining_dependents_stay_satisfied [OF ok _ this, of "''api''" "''sql''" "Minimum ''1.2.0''"]
  show ?thesis using ok by (simp add: demo_profile_def)
qed



end
