(* ===== verification/Contract_Order.thy ===== *)
theory Contract_Order
  imports Ranks Compat_Theorems Plan_Data
begin

text \<open>
  \<open>src/plan/convergence.rs\<close>, the order of a plan: contract edges between releases, the overlay of
  target on installed profiles, the refusals of cycles, of mixed directions and of inverted orders,
  the contract ranks, and the rollout order of model runtimes and routing configurations.
\<close>

type_synonym ContractEdge = "string \<times> string \<times> string"
type_synonym profiles = "(string, CompatibilityProfile) btree_map"

datatype order_error =
    Order_Compat compat_error
  | Order_Cycle cycle_error
  | Order_Mixed string string Action string Action
  | Order_Inverted string string string
  | Order_Rank_Underflow
  | Rollout_Mixed
  | Rollout_Routing_First nat nat
  | Rollback_Model_First nat nat

section \<open>Model and routing rollouts\<close>

definition rollout_direction :: "Action \<Rightarrow> RolloutDirection" where
  "rollout_direction action =
     (if action \<in> {Install, Upgrade, Restart} then Forward else Reverse)"

definition model_routing_rollout_rank :: "ProductKind \<Rightarrow> Action \<Rightarrow> nat" where
  "model_routing_rollout_rank kind action =
     rollout_rank (policy_target kind) (rollout_direction action)"

record rollout_scan =
  last_forward_model :: "nat option"
  last_forward_routing :: "nat option"
  last_reverse_routing :: "nat option"
  last_reverse_model :: "nat option"

definition scan_step :: "nat \<times> ProductKind \<times> Action \<Rightarrow> rollout_scan \<Rightarrow> rollout_scan" where
  "scan_step e st = (case e of (index, kind, action) \<Rightarrow>
     if kind = ModelRuntime \<and> action \<in> {Install, Upgrade}
     then st\<lparr>last_forward_model := Some index\<rparr>
     else if kind = RoutingConfig \<and> action \<in> {Install, Upgrade}
     then st\<lparr>last_forward_routing := Some index\<rparr>
     else if kind = RoutingConfig \<and> action \<in> {Downgrade, Rollback}
     then st\<lparr>last_reverse_routing := Some index\<rparr>
     else if kind = ModelRuntime \<and> action \<in> {Downgrade, Rollback}
     then st\<lparr>last_reverse_model := Some index\<rparr>
     else st)"

definition scan_rollout :: "(ProductKind \<times> Action) list \<Rightarrow> rollout_scan" where
  "scan_rollout steps = fold scan_step (enumerate 0 steps)
     \<lparr>last_forward_model = None, last_forward_routing = None, last_reverse_routing = None,
      last_reverse_model = None\<rparr>"

definition validate_model_routing_rollout_order ::
  "(ProductKind \<times> Action) list \<Rightarrow> order_error + unit" where
  "validate_model_routing_rollout_order steps =
     (let st = scan_rollout steps;
          has_forward = last_forward_model st \<noteq> None \<or> last_forward_routing st \<noteq> None;
          has_reverse = last_reverse_model st \<noteq> None \<or> last_reverse_routing st \<noteq> None;
          has_model = last_forward_model st \<noteq> None \<or> last_reverse_model st \<noteq> None;
          has_routing = last_forward_routing st \<noteq> None \<or> last_reverse_routing st \<noteq> None in
      if has_forward \<and> has_reverse \<and> has_model \<and> has_routing then Inl Rollout_Mixed
      else bind_r (case (last_forward_model st, last_forward_routing st) of
               (Some model_i, Some routing_i) \<Rightarrow>
                 ensure (\<not> routing_i < model_i) (Rollout_Routing_First routing_i model_i)
             | _ \<Rightarrow> Inr ()) (\<lambda>_.
           case (last_reverse_routing st, last_reverse_model st) of
               (Some routing_i, Some model_i) \<Rightarrow>
                 ensure (\<not> model_i < routing_i) (Rollback_Model_First model_i routing_i)
             | _ \<Rightarrow> Inr ()))"

section \<open>Contract edges\<close>

definition add_component ::
  "string \<times> ComponentRequirement \<Rightarrow> (string, string) btree_map \<times> string btree_set
     \<Rightarrow> (string, string) btree_map \<times> string btree_set" where
  "add_component e st = (case e of (_, component) \<Rightarrow> case st of (provides, requires) \<Rightarrow>
     (fold (\<lambda>(contract, version) m. bt_insert contract version m) (cq_provides component) provides,
      fold bs_insert (bt_keys (cq_requires component)) requires))"

definition profile_provides_requires ::
  "CompatibilityProfile \<Rightarrow> (string, string) btree_map \<times> string btree_set" where
  "profile_provides_requires profile = fold add_component (cp_components profile) ([], [])"

definition register_profile ::
  "string \<times> CompatibilityProfile
     \<Rightarrow> (string, string btree_set) btree_map \<times> (string, string btree_set) btree_map
     \<Rightarrow> (string, string btree_set) btree_map \<times> (string, string btree_set) btree_map" where
  "register_profile e st = (case e of (product, profile) \<Rightarrow> case st of (providers, requires) \<Rightarrow>
     case profile_provides_requires profile of (provided, required) \<Rightarrow>
       (fold (\<lambda>contract m. bt_insert contract (bs_insert product (entry_list m contract)) m)
          (bt_keys provided) providers,
        bt_insert product required requires))"

definition edge_of ::
  "(string, string btree_set) btree_map \<Rightarrow> string \<Rightarrow> string \<Rightarrow> ContractEdge list" where
  "edge_of providers dependent contract = (case map_of providers contract of
     None \<Rightarrow> []
   | Some offering \<Rightarrow>
       (case offering of
          [provider] \<Rightarrow> if provider = dependent then [] else [(provider, dependent, contract)]
        | _ \<Rightarrow> []))"

definition cross_release_contract_edges :: "profiles \<Rightarrow> ContractEdge list" where
  "cross_release_contract_edges profs =
     (case fold register_profile profs ([], []) of (providers, requires) \<Rightarrow>
        concat (map (\<lambda>(dependent, contracts).
          concat (map (edge_of providers dependent) contracts)) requires))"

definition overlay_profiles ::
  "profiles \<Rightarrow> profiles \<Rightarrow> (string \<times> Action) list \<Rightarrow> profiles" where
  "overlay_profiles installed target pending =
     (let removed = bs_of_list (map fst (filter (\<lambda>(_, action). action = Remove) pending));
          kept = fold (\<lambda>(product, action) m.
            if product \<in> set removed \<or> (\<not> bt_contains target product \<and> action \<noteq> Restart)
            then bt_remove product m else m) pending installed
      in fold (\<lambda>(product, profile) m.
           if product \<in> set removed then m else bt_insert product profile m) target kept)"

definition plan_out_edges :: "ContractEdge list \<Rightarrow> out_edges" where
  "plan_out_edges edges =
     fold (\<lambda>(provider, dependent, contract) g. push_edge provider (dependent, contract) g) edges []"

definition edge_nodes :: "ContractEdge list \<Rightarrow> string btree_set" where
  "edge_nodes edges =
     fold (\<lambda>(provider, dependent, _) s. bs_insert dependent (bs_insert provider s)) edges []"

definition visit_plan_contract_edge ::
  "string \<Rightarrow> out_edges \<Rightarrow> (string \<times> string) list \<Rightarrow> (string, nat) btree_map \<Rightarrow> string btree_set
     \<Rightarrow> cycle_error + string btree_set" where
  "visit_plan_contract_edge = visit_edge"

definition refuse_cross_release_cycle :: "ContractEdge list \<Rightarrow> order_error + unit" where
  "refuse_cross_release_cycle edges =
     map_err Order_Cycle
       (bind_r (try_fold (\<lambda>finished node.
                  visit_plan_contract_edge node (plan_out_edges edges) [] [] finished)
                  [] (edge_nodes edges))
         (\<lambda>_. Inr ()))"

definition reverse_contract_action :: "Action \<Rightarrow> bool" where
  "reverse_contract_action action = (action \<in> {Remove, Downgrade, Rollback})"

definition action_map :: "(string \<times> Action) list \<Rightarrow> (string, Action) btree_map" where
  "action_map pending = bt_of_list pending"

definition check_direction ::
  "(string, Action) btree_map \<Rightarrow> ContractEdge \<Rightarrow> order_error + unit" where
  "check_direction actions e = (case e of (provider, dependent, contract) \<Rightarrow>
     case (map_of actions provider, map_of actions dependent) of
       (Some pa, Some da) \<Rightarrow>
         if pa = Restart \<or> da = Restart then Inr ()
         else ensure (reverse_contract_action pa = reverse_contract_action da)
                (Order_Mixed contract provider pa dependent da)
     | _ \<Rightarrow> Inr ())"

definition refuse_mixed_direction_edges ::
  "(string \<times> Action) list \<Rightarrow> ContractEdge list \<Rightarrow> order_error + unit" where
  "refuse_mixed_direction_edges pending edges = try_all (check_direction (action_map pending)) edges"

section \<open>The order of a plan\<close>

definition overlay_precede :: "(string, Action) btree_map \<Rightarrow> ContractEdge \<Rightarrow> (string \<times> string) list" where
  "overlay_precede actions e = (case e of (provider, dependent, _) \<Rightarrow>
     case (map_of actions provider, map_of actions dependent) of
       (Some pa, Some da) \<Rightarrow>
         if da = Restart \<and> \<not> reverse_contract_action pa then [(provider, dependent)] else []
     | _ \<Rightarrow> [])"

definition target_precede :: "(string, Action) btree_map \<Rightarrow> ContractEdge \<Rightarrow> (string \<times> string) list" where
  "target_precede actions e = (case e of (provider, dependent, _) \<Rightarrow>
     case (map_of actions provider, map_of actions dependent) of
       (Some pa, Some da) \<Rightarrow>
         if reverse_contract_action pa \<or> reverse_contract_action da then []
         else [(provider, dependent)]
     | _ \<Rightarrow> [])"

definition installed_precede ::
  "(string, Action) btree_map \<Rightarrow> ContractEdge \<Rightarrow> (string \<times> string) list" where
  "installed_precede actions e = (case e of (provider, dependent, _) \<Rightarrow>
     case (map_of actions provider, map_of actions dependent) of
       (Some pa, Some da) \<Rightarrow>
         if pa = Restart \<or> da = Restart
         then (if reverse_contract_action pa \<and> da = Restart then [(provider, dependent)]
               else if pa = Restart \<and> reverse_contract_action da then [(dependent, provider)]
               else if da = Restart \<and> \<not> reverse_contract_action pa then [(provider, dependent)]
               else [])
         else if \<not> reverse_contract_action pa \<or> \<not> reverse_contract_action da then []
         else [(dependent, provider)]
     | _ \<Rightarrow> [])"

record ContractPlanOrder =
  po_ranks :: "(string, nat) btree_map"
  po_target_edges :: "ContractEdge list"
  po_installed_edges :: "ContractEdge list"
  po_overlay_edges :: "ContractEdge list"

definition contract_plan_order ::
  "('v, 'z) semver_scheme \<Rightarrow> (string \<times> Action) list \<Rightarrow> profiles \<Rightarrow> profiles
     \<Rightarrow> order_error + ContractPlanOrder" where
  "contract_plan_order sv pending target_profiles installed_profiles =
     (let target_edges = cross_release_contract_edges target_profiles;
          installed_edges = cross_release_contract_edges installed_profiles;
          remaining = overlay_profiles installed_profiles target_profiles pending in
      bind_r (map_err Order_Compat (refuse_unsatisfied_dependents sv remaining installed_profiles)) (\<lambda>_.
      let overlay_edges = cross_release_contract_edges remaining in
      bind_r (refuse_cross_release_cycle overlay_edges) (\<lambda>_.
      bind_r (refuse_mixed_direction_edges pending overlay_edges) (\<lambda>_.
      bind_r (refuse_mixed_direction_edges pending installed_edges) (\<lambda>_.
      let actions = action_map pending;
          members = bt_keys actions;
          precede = concat (map (overlay_precede actions) overlay_edges)
            @ concat (map (target_precede actions) target_edges)
            @ concat (map (installed_precede actions) installed_edges) in
      bind_r (ok_or Order_Rank_Underflow (name_ordered_ranks members precede)) (\<lambda>ranks.
        Inr \<lparr>po_ranks = ranks, po_target_edges = target_edges,
             po_installed_edges = installed_edges, po_overlay_edges = overlay_edges\<rparr>))))))"

definition index_map :: "(string \<times> Action) list \<Rightarrow> (string, nat) btree_map" where
  "index_map ordered = bt_of_list (map (\<lambda>(i, product, _). (product, i)) (enumerate 0 ordered))"

definition check_directed_edge ::
  "(string, nat) btree_map \<Rightarrow> (string, Action) btree_map \<Rightarrow> bool \<Rightarrow> ContractEdge
     \<Rightarrow> order_error + unit" where
  "check_directed_edge index actions reverse e = (case e of (provider, dependent, contract) \<Rightarrow>
     case (map_of index provider, map_of index dependent,
           map_of actions provider, map_of actions dependent) of
       (Some pi, Some di, Some pa, Some da) \<Rightarrow>
         if reverse_contract_action pa \<noteq> reverse \<or> reverse_contract_action da \<noteq> reverse then Inr ()
         else if reverse \<and> pi < di then Inl (Order_Inverted contract dependent provider)
         else if \<not> reverse \<and> di < pi then Inl (Order_Inverted contract provider dependent)
         else Inr ()
     | _ \<Rightarrow> Inr ())"

definition check_rerender_edge ::
  "(string, nat) btree_map \<Rightarrow> (string, Action) btree_map \<Rightarrow> ContractEdge \<Rightarrow> order_error + unit" where
  "check_rerender_edge index actions e = (case e of (provider, dependent, contract) \<Rightarrow>
     case (map_of index provider, map_of index dependent, map_of actions dependent) of
       (Some pi, Some di, Some da) \<Rightarrow>
         ensure (\<not> (da = Restart \<and> di < pi)) (Order_Inverted contract provider dependent)
     | _ \<Rightarrow> Inr ())"

definition refuse_inverted_contract_order ::
  "(string \<times> Action) list \<Rightarrow> ContractEdge list \<Rightarrow> ContractEdge list \<Rightarrow> ContractEdge list
     \<Rightarrow> order_error + unit" where
  "refuse_inverted_contract_order ordered target_edges installed_edges overlay_edges =
     (let index = index_map ordered; actions = action_map ordered in
      bind_r (try_all (check_directed_edge index actions False) target_edges) (\<lambda>_.
      bind_r (try_all (check_directed_edge index actions True) installed_edges) (\<lambda>_.
        try_all (check_rerender_edge index actions)
          (target_edges @ installed_edges @ overlay_edges))))"

section \<open>What an edge is\<close>

definition profile_provides :: "CompatibilityProfile \<Rightarrow> string \<Rightarrow> bool" where
  "profile_provides profile contract \<longleftrightarrow>
     (\<exists>c\<in>set (cp_components profile). contract \<in> fst ` set (cq_provides (snd c)))"

definition profile_requires :: "CompatibilityProfile \<Rightarrow> string \<Rightarrow> bool" where
  "profile_requires profile contract \<longleftrightarrow>
     (\<exists>c\<in>set (cp_components profile). contract \<in> fst ` set (cq_requires (snd c)))"

definition providers_in :: "profiles \<Rightarrow> string \<Rightarrow> string set" where
  "providers_in profs contract = {q. \<exists>profile. (q, profile) \<in> set profs \<and> profile_provides profile contract}"

definition edges_rel :: "ContractEdge list \<Rightarrow> (string \<times> string) set" where
  "edges_rel edges = {(p, d). \<exists>c. (p, d, c) \<in> set edges}"

lemma dom_bt_insert [simp]: "dom (map_of (bt_insert k v m)) = insert k (dom (map_of m))"
  by (auto simp: dom_def)

lemma dom_fold_insert_pairs:
  "dom (map_of (fold (\<lambda>(k, v) m. bt_insert k v m) kvs m)) = fst ` set kvs \<union> dom (map_of m)"
  by (induction kvs arbitrary: m) auto

lemma add_component_spec:
  "dom (map_of (fst (add_component x st))) = fst ` set (cq_provides (snd x)) \<union> dom (map_of (fst st))"
  "set (snd (add_component x st)) = fst ` set (cq_requires (snd x)) \<union> set (snd st)"
  "bs_ok (snd st) \<Longrightarrow> bs_ok (snd (add_component x st))"
  by (cases x; cases st; simp add: add_component_def dom_fold_insert_pairs set_fold_bs_insert
      bs_fold_ok bt_keys_def)+

lemma add_components:
  "dom (map_of (fst (fold add_component cs st)))
     = {c. \<exists>x\<in>set cs. c \<in> fst ` set (cq_provides (snd x))} \<union> dom (map_of (fst st))"
  "set (snd (fold add_component cs st))
     = {c. \<exists>x\<in>set cs. c \<in> fst ` set (cq_requires (snd x))} \<union> set (snd st)"
  "bs_ok (snd st) \<Longrightarrow> bs_ok (snd (fold add_component cs st))"
proof (induction cs arbitrary: st)
  case (Cons x cs)
  {
    case 1
    show ?case unfolding fold_simps o_apply Cons.IH(1) add_component_spec(1) by auto
  next
    case 2
    show ?case unfolding fold_simps o_apply Cons.IH(2) add_component_spec(2) by auto
  next
    case 3
    then show ?case using Cons.IH(3) add_component_spec(3) by simp
  }
qed auto

lemma profile_provides_requires_spec:
  assumes "profile_provides_requires profile = (provided, required)"
  shows "set (bt_keys provided) = {c. profile_provides profile c}"
    and "set required = {c. profile_requires profile c}" and "bs_ok required"
  using assms add_components [where cs = "cp_components profile" and st = "([], [])"]
  by (auto simp: profile_provides_requires_def profile_provides_def profile_requires_def set_bt_keys)

lemma register_all_providers:
  "set (entry_list (fold (\<lambda>contract m. bt_insert contract (bs_insert x (entry_list m contract)) m) ks m) j)
     = set (entry_list m j) \<union> (if j \<in> set ks then {x} else {})"
  "(\<forall>i. bs_ok (entry_list m i)) \<Longrightarrow>
     bs_ok (entry_list (fold (\<lambda>contract m. bt_insert contract (bs_insert x (entry_list m contract)) m) ks m) j)"
  by (induction ks arbitrary: m) auto

definition registered ::
  "profiles \<Rightarrow> (string, string btree_set) btree_map \<times> (string, string btree_set) btree_map \<Rightarrow> bool" where
  "registered profs st \<longleftrightarrow>
     (\<forall>c. set (entry_list (fst st) c) = providers_in profs c \<and> bs_ok (entry_list (fst st) c))
     \<and> (\<forall>d. map_of (snd st) d
          = map_option (\<lambda>profile. snd (profile_provides_requires profile)) (map_of (rev profs) d))
     \<and> bt_ok (snd st)"

lemma registered_step:
  assumes "registered profs st"
  shows "registered (profs @ [e]) (register_profile e st)"
proof -
  obtain q prof where e: "e = (q, prof)" by fastforce
  obtain ps rs where st: "st = (ps, rs)" by fastforce
  obtain provided required where pr: "profile_provides_requires prof = (provided, required)" by fastforce
  let ?ps = "fold (\<lambda>contract m. bt_insert contract (bs_insert q (entry_list m contract)) m)
    (bt_keys provided) ps"
  have new: "register_profile e st = (?ps, bt_insert q required rs)"
    by (simp add: register_profile_def e st pr)
  have providers: "providers_in (profs @ [e]) c
      = providers_in profs c \<union> (if profile_provides prof c then {q} else {})" for c
    by (auto simp: providers_in_def e)
  have old: "set (entry_list ps c) = providers_in profs c" "bs_ok (entry_list ps c)" for c
    using assms by (auto simp: registered_def st)
  have "set (entry_list ?ps c) = providers_in (profs @ [e]) c" "bs_ok (entry_list ?ps c)" for c
    using register_all_providers [where x = q and ks = "bt_keys provided" and m = ps and j = c] old
      profile_provides_requires_spec(1) [OF pr] by (auto simp: providers)
  then show ?thesis using assms unfolding new registered_def by (simp add: e st pr)
qed

lemma registered_all: "registered profs (fold register_profile profs ([], []))"
proof (induction profs rule: rev_induct)
  case Nil
  show ?case by (simp add: registered_def providers_in_def)
next
  case (snoc e profs)
  then show ?case using registered_step by simp
qed

lemma edge_of_mem:
  assumes "bs_ok (entry_list providers c)"
  shows "(p, d, c) \<in> set (edge_of providers d' c') \<longleftrightarrow>
    d = d' \<and> c = c' \<and> p \<noteq> d \<and> set (entry_list providers c) = {p}"
proof -
  have "set (entry_list providers c) = {p} \<longleftrightarrow> entry_list providers c = [p]"
    using assms by (rule bs_ok_singleton)
  then show ?thesis
    by (auto simp: edge_of_def entry_list_def split: option.splits list.splits)
qed

lemma cross_release_contract_edges_iff:
  assumes "bt_ok profs"
  shows "(p, d, c) \<in> set (cross_release_contract_edges profs) \<longleftrightarrow>
    p \<noteq> d \<and> (\<exists>profile. (d, profile) \<in> set profs \<and> profile_requires profile c) \<and> providers_in profs c = {p}"
proof -
  obtain ps rs where st: "fold register_profile profs ([], []) = (ps, rs)" by fastforce
  have reg: "registered profs (ps, rs)" using registered_all [of profs] by (simp add: st)
  have ps: "set (entry_list ps c) = providers_in profs c" "bs_ok (entry_list ps c)"
    and rs: "bt_ok rs" using reg by (auto simp: registered_def)
  have dist: "distinct (map fst profs)" using assms by (rule bt_ok_distinct)
  have req: "(d, cs) \<in> set rs \<longleftrightarrow> (\<exists>profile. (d, profile) \<in> set profs
      \<and> cs = snd (profile_provides_requires profile))" for cs
  proof -
    have "(d, cs) \<in> set rs \<longleftrightarrow> map_of rs d = Some cs" using bt_ok_distinct [OF rs] by simp
    also have "\<dots> \<longleftrightarrow> (\<exists>profile. map_of (rev profs) d = Some profile
        \<and> cs = snd (profile_provides_requires profile))"
      using reg by (auto simp: registered_def)
    finally show ?thesis using dist by (simp add: rev_map [symmetric])
  qed
  have contracts: "c \<in> set (snd (profile_provides_requires profile)) \<longleftrightarrow> profile_requires profile c" for profile
    using profile_provides_requires_spec(2) [of profile] by (cases "profile_provides_requires profile") auto
  have "(p, d, c) \<in> set (cross_release_contract_edges profs) \<longleftrightarrow>
      (\<exists>d' cs c'. (d', cs) \<in> set rs \<and> c' \<in> set cs \<and> (p, d, c) \<in> set (edge_of ps d' c'))"
    by (force simp: cross_release_contract_edges_def st)
  also have "\<dots> \<longleftrightarrow> (\<exists>cs. (d, cs) \<in> set rs \<and> c \<in> set cs) \<and> p \<noteq> d \<and> providers_in profs c = {p}"
    unfolding edge_of_mem [OF ps(2)] ps(1) by blast
  finally show ?thesis unfolding req using contracts by blast
qed

section \<open>Cycles between releases\<close>

lemma succ_plan_out_edges:
  "set (succ_edges (plan_out_edges edges) p) = {(d, c). (p, d, c) \<in> set edges}"
proof -
  have "set (succ_edges (fold (\<lambda>(provider, dependent, contract) g.
      push_edge provider (dependent, contract) g) es g) p)
    = set (succ_edges g p) \<union> {(d, c). (p, d, c) \<in> set es}" for es g
    by (induction es arbitrary: g) (auto split: if_splits)
  from this [of edges "[]"] show ?thesis by (simp add: plan_out_edges_def succ_edges_def)
qed

lemma edge_rel_plan_out_edges: "edge_rel (plan_out_edges edges) = edges_rel edges"
  by (simp add: edge_rel_def edges_rel_def succ_plan_out_edges)

lemma set_edge_nodes: "set (edge_nodes edges) = Field (edges_rel edges)"
proof -
  have "set (fold (\<lambda>(provider, dependent, _) s. bs_insert dependent (bs_insert provider s)) es s)
    = set s \<union> (fst ` set es \<union> (fst \<circ> snd) ` set es)" for es s
    by (induction es arbitrary: s) auto
  from this [of edges "[]"] have nodes: "set (edge_nodes edges) = fst ` set edges \<union> (fst \<circ> snd) ` set edges"
    by (simp add: edge_nodes_def comp_def)
  have "Domain (edges_rel edges) = fst ` set edges" "Range (edges_rel edges) = (fst \<circ> snd) ` set edges"
    by (auto simp: edges_rel_def intro: rev_image_eqI) blast+
  then show ?thesis by (simp add: nodes Field_def)
qed

lemma refuse_cross_release_cycle_cases:
  "refuse_cross_release_cycle edges =
     (case check_nodes (plan_out_edges edges) (edge_nodes edges) of
        Inl e \<Rightarrow> Inl (Order_Cycle e) | Inr _ \<Rightarrow> Inr ())"
  unfolding refuse_cross_release_cycle_def check_nodes_def visit_plan_contract_edge_def
  by (simp split: sum.splits)

lemma refuse_cross_release_cycle_iff:
  "refuse_cross_release_cycle edges = Inr () \<longleftrightarrow> acyclic (edges_rel edges)"
proof -
  have "Domain (edge_rel (plan_out_edges edges)) \<subseteq> set (edge_nodes edges)"
    by (auto simp: edge_rel_plan_out_edges set_edge_nodes Field_def)
  from check_nodes_iff_acyclic [OF this] show ?thesis
    by (auto simp: refuse_cross_release_cycle_cases edge_rel_plan_out_edges is_ok_def split: sum.splits)
qed

lemma finite_edges_rel: "finite (edges_rel edges)"
proof (rule finite_subset)
  show "edges_rel edges \<subseteq> (\<lambda>(p, d, c). (p, d)) ` set edges" by (force simp: edges_rel_def)
qed simp

interpretation plan_cycle: cycle_refusal refuse_cross_release_cycle edges_rel
  by unfold_locales (auto simp: refuse_cross_release_cycle_iff finite_edges_rel)

section \<open>Positions in a plan\<close>

lemma map_of_index_map:
  assumes "distinct (map fst ordered)"
  shows "map_of (index_map ordered) x = Some i \<longleftrightarrow> i < length ordered \<and> fst (ordered ! i) = x"
proof -
  let ?es = "map (\<lambda>(i, product, _). (product, i)) (enumerate 0 ordered)"
  have keys: "map fst ?es = map fst ordered"
    by (rule nth_equalityI) (auto simp: nth_enumerate_eq split_def)
  then have d: "distinct (map fst (rev ?es))" using assms by (simp add: rev_map [symmetric])
  have "map_of (index_map ordered) x = Some i \<longleftrightarrow> (x, i) \<in> set ?es"
    using d by (simp add: index_map_def map_of_bt_of_list)
  also have "\<dots> \<longleftrightarrow> i < length ordered \<and> fst (ordered ! i) = x"
    by (auto simp: set_conv_nth nth_enumerate_eq split_def intro!: exI [of _ i])
  finally show ?thesis .
qed

lemma map_of_action_map:
  assumes "distinct (map fst ordered)"
  shows "map_of (action_map ordered) x = Some a \<longleftrightarrow> (x, a) \<in> set ordered"
  using assms by (simp add: action_map_def map_of_bt_of_list rev_map [symmetric])

lemma refuse_inverted_contract_order_ok:
  "refuse_inverted_contract_order ordered te ie oe = Inr () \<longleftrightarrow>
     (\<forall>e\<in>set te. check_directed_edge (index_map ordered) (action_map ordered) False e = Inr ())
     \<and> (\<forall>e\<in>set ie. check_directed_edge (index_map ordered) (action_map ordered) True e = Inr ())
     \<and> (\<forall>e\<in>set te \<union> set ie \<union> set oe.
          check_rerender_edge (index_map ordered) (action_map ordered) e = Inr ())"
  by (auto simp: refuse_inverted_contract_order_def Let_def result_simps)

section \<open>Rollouts\<close>

definition forward_of :: "ProductKind \<Rightarrow> ProductKind \<times> Action \<Rightarrow> bool" where
  "forward_of kind s \<longleftrightarrow> fst s = kind \<and> snd s \<in> {Install, Upgrade}"

definition reverse_of :: "ProductKind \<Rightarrow> ProductKind \<times> Action \<Rightarrow> bool" where
  "reverse_of kind s \<longleftrightarrow> fst s = kind \<and> snd s \<in> {Downgrade, Rollback}"

definition last_position :: "('a \<Rightarrow> bool) \<Rightarrow> 'a list \<Rightarrow> nat option \<Rightarrow> bool" where
  "last_position P xs r = (case r of
     None \<Rightarrow> (\<forall>x\<in>set xs. \<not> P x)
   | Some i \<Rightarrow> i < length xs \<and> P (xs ! i) \<and> (\<forall>j<length xs. P (xs ! j) \<longrightarrow> j \<le> i))"

lemma last_position_snoc:
  "last_position P xs r \<Longrightarrow> last_position P (xs @ [x]) (if P x then Some (length xs) else r)"
  by (auto simp: last_position_def nth_append less_Suc_eq split: option.splits)

lemma scan_rollout_snoc:
  "scan_rollout (xs @ [x]) = scan_step (length xs, x) (scan_rollout xs)"
  by (simp add: scan_rollout_def enumerate_append_eq)

lemma scan_rollout_positions:
  "last_position (forward_of ModelRuntime) steps (last_forward_model (scan_rollout steps))"
  "last_position (forward_of RoutingConfig) steps (last_forward_routing (scan_rollout steps))"
  "last_position (reverse_of RoutingConfig) steps (last_reverse_routing (scan_rollout steps))"
  "last_position (reverse_of ModelRuntime) steps (last_reverse_model (scan_rollout steps))"
proof (induction steps rule: rev_induct)
  case Nil
  {
    case 1 show ?case by (simp add: scan_rollout_def last_position_def)
  next
    case 2 show ?case by (simp add: scan_rollout_def last_position_def)
  next
    case 3 show ?case by (simp add: scan_rollout_def last_position_def)
  next
    case 4 show ?case by (simp add: scan_rollout_def last_position_def)
  }
next
  case (snoc x xs)
  obtain k a where x: "x = (k, a)" by fastforce
  note defs = scan_rollout_snoc scan_step_def x forward_of_def reverse_of_def
  {
    case 1 show ?case using last_position_snoc [OF snoc(1), of x] by (auto simp: defs split: if_splits)
  next
    case 2 show ?case using last_position_snoc [OF snoc(2), of x] by (auto simp: defs split: if_splits)
  next
    case 3 show ?case using last_position_snoc [OF snoc(3), of x] by (auto simp: defs split: if_splits)
  next
    case 4 show ?case using last_position_snoc [OF snoc(4), of x] by (auto simp: defs split: if_splits)
  }
qed

lemma last_position_cases:
  assumes "last_position P xs r"
  shows "(r = None \<longleftrightarrow> (\<forall>x\<in>set xs. \<not> P x))"
  using assms by (auto simp: last_position_def split: option.splits)

definition later_all :: "('a \<Rightarrow> bool) \<Rightarrow> ('a \<Rightarrow> bool) \<Rightarrow> 'a list \<Rightarrow> bool" where
  "later_all P Q xs \<longleftrightarrow> (\<forall>i<length xs. P (xs ! i) \<longrightarrow> (\<exists>j<length xs. i \<le> j \<and> Q (xs ! j)))"

lemma last_position_le_iff:
  assumes "last_position P xs (Some i)" and "last_position Q xs (Some j)"
  shows "i \<le> j \<longleftrightarrow> later_all P Q xs"
  using assms unfolding last_position_def later_all_def
  by (auto dest: le_trans) (metis le_trans)

lemma last_position_pair_iff:
  assumes p: "last_position P xs p" and q: "last_position Q xs q"
  shows "(case (p, q) of (Some i, Some j) \<Rightarrow> i \<le> j | _ \<Rightarrow> True) \<longleftrightarrow>
    ((\<forall>x\<in>set xs. \<not> Q x) \<or> later_all P Q xs)"
proof (cases p)
  case None
  then have "\<forall>x\<in>set xs. \<not> P x" using last_position_cases [OF p] by simp
  then show ?thesis using None by (simp add: later_all_def)
next
  case (Some i)
  show ?thesis
  proof (cases q)
    case None
    then show ?thesis using last_position_cases [OF q] Some by simp
  next
    fix j assume j: "q = Some j"
    then have "\<not> (\<forall>x\<in>set xs. \<not> Q x)" using last_position_cases [OF q] by simp
    then show ?thesis using last_position_le_iff [of P xs i Q j] p q Some j by auto
  qed
qed

definition rollout_mixed :: "(ProductKind \<times> Action) list \<Rightarrow> bool" where
  "rollout_mixed steps \<longleftrightarrow>
     (\<exists>x\<in>set steps. forward_of ModelRuntime x \<or> forward_of RoutingConfig x)
     \<and> (\<exists>x\<in>set steps. reverse_of ModelRuntime x \<or> reverse_of RoutingConfig x)
     \<and> (\<exists>x\<in>set steps. forward_of ModelRuntime x \<or> reverse_of ModelRuntime x)
     \<and> (\<exists>x\<in>set steps. forward_of RoutingConfig x \<or> reverse_of RoutingConfig x)"

lemma validate_rollout_iff:
  "validate_model_routing_rollout_order steps = Inr () \<longleftrightarrow>
     \<not> rollout_mixed steps
     \<and> ((\<forall>x\<in>set steps. \<not> forward_of RoutingConfig x)
        \<or> later_all (forward_of ModelRuntime) (forward_of RoutingConfig) steps)
     \<and> ((\<forall>x\<in>set steps. \<not> reverse_of ModelRuntime x)
        \<or> later_all (reverse_of RoutingConfig) (reverse_of ModelRuntime) steps)"
proof -
  let ?st = "scan_rollout steps"
  note pos = scan_rollout_positions [of steps]
  have mixed: "rollout_mixed steps \<longleftrightarrow>
      (last_forward_model ?st \<noteq> None \<or> last_forward_routing ?st \<noteq> None)
      \<and> (last_reverse_model ?st \<noteq> None \<or> last_reverse_routing ?st \<noteq> None)
      \<and> (last_forward_model ?st \<noteq> None \<or> last_reverse_model ?st \<noteq> None)
      \<and> (last_forward_routing ?st \<noteq> None \<or> last_reverse_routing ?st \<noteq> None)"
    unfolding rollout_mixed_def pos [THEN last_position_cases] by blast
  have "validate_model_routing_rollout_order steps = Inr () \<longleftrightarrow> \<not> rollout_mixed steps
      \<and> (case (last_forward_model ?st, last_forward_routing ?st) of (Some i, Some j) \<Rightarrow> i \<le> j | _ \<Rightarrow> True)
      \<and> (case (last_reverse_routing ?st, last_reverse_model ?st) of (Some i, Some j) \<Rightarrow> i \<le> j | _ \<Rightarrow> True)"
    unfolding validate_model_routing_rollout_order_def Let_def mixed
    by (auto simp: result_simps not_less split: option.splits)
  then show ?thesis
    unfolding last_position_pair_iff [OF pos(1,2)] last_position_pair_iff [OF pos(3,4)] .
qed

section \<open>Ranks and edges\<close>

lemma action_map_keys: "bs_ok (bt_keys (action_map pending))"
  by (simp add: bs_ok_bt_keys action_map_def)

lemma contract_plan_order_parts:
  assumes "contract_plan_order sv pending target installed = Inr po"
  shows "refuse_unsatisfied_dependents sv (overlay_profiles installed target pending) installed = Inr ()"
    and "refuse_cross_release_cycle (po_overlay_edges po) = Inr ()"
    and "refuse_mixed_direction_edges pending (po_overlay_edges po) = Inr ()"
    and "refuse_mixed_direction_edges pending (po_installed_edges po) = Inr ()"
    and "po_overlay_edges po = cross_release_contract_edges (overlay_profiles installed target pending)"
    and "po_target_edges po = cross_release_contract_edges target"
    and "po_installed_edges po = cross_release_contract_edges installed"
    and "name_ordered_ranks (bt_keys (action_map pending))
       (concat (map (overlay_precede (action_map pending)) (po_overlay_edges po))
        @ concat (map (target_precede (action_map pending)) (po_target_edges po))
        @ concat (map (installed_precede (action_map pending)) (po_installed_edges po)))
       = Some (po_ranks po)"
  using assms by (auto simp: contract_plan_order_def Let_def result_simps)

lemma ranks_respect_precede:
  assumes "name_ordered_ranks members precede = Some ranks" and "bs_ok members"
    and "(a, b) \<in> set precede" and "a \<in> set members" and "b \<in> set members"
    and "map_of ranks b = Some j"
  shows "\<exists>i<j. map_of ranks a = Some i"
proof -
  obtain ord where "ranks_ok (set members) (prec_rel members precede) ranks ord"
    using name_ordered_ranks_spec [OF assms(2), of precede] assms(1) by auto
  moreover have "(a, b) \<in> prec_rel members precede" using assms(3-5) by (simp add: prec_rel_def)
  ultimately show ?thesis using assms(6) unfolding ranks_ok_def by blast
qed

lemma in_action_keys: "map_of (action_map pending) x = Some a \<Longrightarrow> x \<in> set (bt_keys (action_map pending))"
  by (auto simp: set_bt_keys)

lemma contract_plan_order_no_underflow:
  "contract_plan_order sv pending target installed \<noteq> Inl Order_Rank_Underflow"
proof
  assume a: "contract_plan_order sv pending target installed = Inl Order_Rank_Underflow"
  have ranks: "name_ordered_ranks (bt_keys (action_map pending)) precede \<noteq> None" for precede
    using name_ordered_ranks_spec [OF action_map_keys, of pending precede] by auto
  have m: "map_err Order_Compat r \<noteq> Inl Order_Rank_Underflow" for r :: "compat_error + unit"
    by (cases r) auto
  have c: "refuse_cross_release_cycle es \<noteq> Inl Order_Rank_Underflow" for es
    by (simp add: refuse_cross_release_cycle_cases split: sum.splits)
  have d: "check_direction as e \<noteq> Inl Order_Rank_Underflow" for as e
    by (auto simp: check_direction_def ensure_def split: prod.splits option.splits)
  have "try_all (check_direction as) es \<noteq> Inl Order_Rank_Underflow" for as es
    using d by (induction es) (auto simp: result_simps)
  then have mx: "refuse_mixed_direction_edges pending es \<noteq> Inl Order_Rank_Underflow" for es
    by (simp add: refuse_mixed_direction_edges_def)
  from a show False
    using m c mx ranks by (auto simp: contract_plan_order_def Let_def result_simps)
qed

section \<open>Properties\<close>

text \<open>C27. Planning refuses exactly the cyclic sets of releases: \<open>refuse_cross_release_cycle\<close> accepts
  if and only if the contract edges between products are acyclic, and the refusal names a closed
  walk of those edges together with their contracts.\<close>

theorem plan_cycle_refused_iff:
  "case refuse_cross_release_cycle edges of
     Inr _ \<Rightarrow> acyclic (edges_rel edges)
   | Inl err \<Rightarrow> \<not> acyclic (edges_rel edges)
       \<and> (\<exists>e. err = Order_Cycle e \<and> real_cycle (plan_out_edges edges) e)"
proof (cases "check_nodes (plan_out_edges edges) (edge_nodes edges)")
  case (Inl e)
  then have "refuse_cross_release_cycle edges = Inl (Order_Cycle e)"
    by (simp add: refuse_cross_release_cycle_cases)
  with check_nodes_error [OF Inl] refuse_cross_release_cycle_iff [of edges] show ?thesis by simp
next
  case (Inr fin)
  then have "refuse_cross_release_cycle edges = Inr ()"
    by (simp add: refuse_cross_release_cycle_cases)
  with refuse_cross_release_cycle_iff [of edges] show ?thesis by simp
qed

text \<open>Contract edges are exactly the unambiguous dependencies: there is an edge from provider
  to dependent for a contract if and only if the dependent's profile requires it, the provider is
  the only product whose profile provides it, and the two are different products.\<close>

theorem contract_edge_iff_unique_provider:
  assumes "bt_ok profs"
  shows "(p, d, c) \<in> set (cross_release_contract_edges profs) \<longleftrightarrow>
    p \<noteq> d \<and> (\<exists>profile. (d, profile) \<in> set profs \<and> profile_requires profile c)
    \<and> providers_in profs c = {p}"
  using assms by (rule cross_release_contract_edges_iff)

theorem contract_edge_iff_unique_provider_witness:
  "bt_ok [(''api'', demo_profile), (''db'', database_profile)]
   \<and> cross_release_contract_edges [(''api'', demo_profile), (''db'', database_profile)]
       = [(''db'', ''api'', ''sql'')]
   \<and> providers_in [(''api'', demo_profile), (''db'', database_profile)] ''sql'' = {''db''}"
proof -
  let ?m = "[(''api'', demo_profile), (''db'', database_profile)]"
  have ok: "bt_ok ?m" by code_simp
  have e: "cross_release_contract_edges ?m = [(''db'', ''api'', ''sql'')]" by code_simp
  show ?thesis
    using contract_edge_iff_unique_provider [OF ok, of "''db''" "''api''" "''sql''"] ok e by simp
qed

text \<open>The rollout check accepts a sequence of steps exactly when it does not mix forward and
  reverse changes across model runtimes and routing configurations, no forward model step comes
  after the last forward routing step, and no reverse routing step comes after the last reverse
  model step.\<close>

theorem rollout_order_accepted_iff:
  "validate_model_routing_rollout_order steps = Inr () \<longleftrightarrow>
     \<not> rollout_mixed steps
     \<and> ((\<forall>x\<in>set steps. \<not> forward_of RoutingConfig x)
        \<or> later_all (forward_of ModelRuntime) (forward_of RoutingConfig) steps)
     \<and> ((\<forall>x\<in>set steps. \<not> reverse_of ModelRuntime x)
        \<or> later_all (reverse_of RoutingConfig) (reverse_of ModelRuntime) steps)"
  by (rule validate_rollout_iff)

theorem rollout_order_accepted_iff_witness:
  "validate_model_routing_rollout_order [(ModelRuntime, Install), (RoutingConfig, Upgrade)] = Inr ()
   \<and> \<not> rollout_mixed [(ModelRuntime, Install), (RoutingConfig, Upgrade)]
   \<and> validate_model_routing_rollout_order [(RoutingConfig, Upgrade), (ModelRuntime, Install)]
       = Inl (Rollout_Routing_First 0 1)"
proof -
  have a: "validate_model_routing_rollout_order [(ModelRuntime, Install), (RoutingConfig, Upgrade)] = Inr ()"
    and b: "validate_model_routing_rollout_order [(RoutingConfig, Upgrade), (ModelRuntime, Install)]
       = Inl (Rollout_Routing_First 0 1)" by code_simp+
  show ?thesis
    using rollout_order_accepted_iff [of "[(ModelRuntime, Install), (RoutingConfig, Upgrade)]"] a b
    by simp
qed

text \<open>The check compares only the last positions: a routing step that precedes a model step is
  accepted when another routing step follows.\<close>

lemma rollout_check_accepts_early_routing:
  "validate_model_routing_rollout_order
     [(RoutingConfig, Install), (ModelRuntime, Install), (RoutingConfig, Install)] = Inr ()"
  by code_simp

text \<open>C7. A plan order that is computed at all is sound: the remaining contract graph is acyclic,
  no contract edge of it or of the installed profiles joins two changes in opposite directions
  (restarts apart), ranking never fails, and the ranks put providers before dependents for forward
  changes and dependents before providers for removals and downgrades.\<close>

theorem contract_plan_order_sound:
  assumes "contract_plan_order sv pending target installed = Inr po"
  shows "acyclic (edges_rel (po_overlay_edges po))
    \<and> (\<forall>p d c pa da. (p, d, c) \<in> set (po_overlay_edges po) \<union> set (po_installed_edges po)
         \<and> map_of (action_map pending) p = Some pa \<and> map_of (action_map pending) d = Some da
         \<longrightarrow> pa = Restart \<or> da = Restart \<or> reverse_contract_action pa = reverse_contract_action da)
    \<and> (\<forall>p d c pa da j. (p, d, c) \<in> set (po_target_edges po)
         \<and> map_of (action_map pending) p = Some pa \<and> map_of (action_map pending) d = Some da
         \<and> \<not> reverse_contract_action pa \<and> \<not> reverse_contract_action da
         \<and> map_of (po_ranks po) d = Some j \<longrightarrow> (\<exists>i<j. map_of (po_ranks po) p = Some i))
    \<and> (\<forall>p d c pa da i. (p, d, c) \<in> set (po_installed_edges po)
         \<and> map_of (action_map pending) p = Some pa \<and> map_of (action_map pending) d = Some da
         \<and> reverse_contract_action pa \<and> reverse_contract_action da
         \<and> map_of (po_ranks po) p = Some i \<longrightarrow> (\<exists>j<i. map_of (po_ranks po) d = Some j))"
proof -
  note parts = contract_plan_order_parts [OF assms]
  have dir: "pa = Restart \<or> da = Restart \<or> reverse_contract_action pa = reverse_contract_action da"
    if "(p, d, c) \<in> set (po_overlay_edges po) \<union> set (po_installed_edges po)"
      "map_of (action_map pending) p = Some pa" "map_of (action_map pending) d = Some da" for p d c pa da
    using that parts(3,4)
    by (fastforce simp: refuse_mixed_direction_edges_def check_direction_def result_simps split: if_splits)
  have fwd: "\<exists>i<j. map_of (po_ranks po) p = Some i"
    if e: "(p, d, c) \<in> set (po_target_edges po)" and p: "map_of (action_map pending) p = Some pa"
      and d: "map_of (action_map pending) d = Some da" and "\<not> reverse_contract_action pa"
      "\<not> reverse_contract_action da" and j: "map_of (po_ranks po) d = Some j" for p d c pa da j
  proof (rule ranks_respect_precede [OF parts(8) action_map_keys _ in_action_keys [OF p] in_action_keys [OF d] j])
    have "(p, d) \<in> set (target_precede (action_map pending) (p, d, c))"
      using that by (simp add: target_precede_def)
    with e show "(p, d) \<in> set (concat (map (overlay_precede (action_map pending)) (po_overlay_edges po))
        @ concat (map (target_precede (action_map pending)) (po_target_edges po))
        @ concat (map (installed_precede (action_map pending)) (po_installed_edges po)))"
      by auto
  qed
  have rev: "\<exists>j<i. map_of (po_ranks po) d = Some j"
    if e: "(p, d, c) \<in> set (po_installed_edges po)" and p: "map_of (action_map pending) p = Some pa"
      and d: "map_of (action_map pending) d = Some da" and "reverse_contract_action pa"
      "reverse_contract_action da" and i: "map_of (po_ranks po) p = Some i" for p d c pa da i
  proof (rule ranks_respect_precede [OF parts(8) action_map_keys _ in_action_keys [OF d] in_action_keys [OF p] i])
    have "(d, p) \<in> set (installed_precede (action_map pending) (p, d, c))"
      using that by (auto simp: installed_precede_def reverse_contract_action_def)
    with e show "(d, p) \<in> set (concat (map (overlay_precede (action_map pending)) (po_overlay_edges po))
        @ concat (map (target_precede (action_map pending)) (po_target_edges po))
        @ concat (map (installed_precede (action_map pending)) (po_installed_edges po)))"
      by auto
  qed
  show ?thesis
    using refuse_cross_release_cycle_iff [of "po_overlay_edges po"] parts(2) dir fwd rev by blast
qed

theorem contract_plan_order_sound_witness:
  "\<exists>po. contract_plan_order triple_semver [(''api'', Install), (''db'', Install)]
       [(''api'', demo_profile), (''db'', database_profile)] [] = Inr po
     \<and> po_ranks po = [(''api'', 1), (''db'', 0)] \<and> acyclic (edges_rel (po_overlay_edges po))"
proof -
  let ?po = "\<lparr>po_ranks = [(''api'', 1), (''db'', 0)], po_target_edges = [(''db'', ''api'', ''sql'')],
    po_installed_edges = [], po_overlay_edges = [(''db'', ''api'', ''sql'')]\<rparr>"
  have "contract_plan_order triple_semver [(''api'', Install), (''db'', Install)]
       [(''api'', demo_profile), (''db'', database_profile)] [] = Inr ?po" by code_simp
  with contract_plan_order_sound [OF this] show ?thesis by auto
qed

end
