(* ===== verification/Dependency_Document.thy ===== *)
theory Dependency_Document
  imports Compat_Theorems
begin

text \<open>
  \<open>src/dependency_document.rs\<close>: the document an executor hands to a release that declares
  requirements, computed from the deployed releases.  JSON text and its digest are the parameter
  \<open>doc_digest\<close>; the stored profiles of an environment arrive as the map \<open>deployed\<close>.
\<close>

datatype DependencyContract = Present string string string | Absent

record DependencyDocument =
  dd_version :: u32
  dd_contracts :: "(string, DependencyContract) btree_map"

record MatchingProvider =
  mp_product :: string
  mp_release :: string
  mp_contract_version :: string

type_synonym deployed_set = "(string, string \<times> CompatibilityProfile) btree_map"

datatype document_error =
    Document_Version string
  | Document_Absent string string
  | Document_Ambiguous string string

definition all_requirements :: "CompatibilityProfile \<Rightarrow> (string, ContractRequirement) btree_map" where
  "all_requirements profile =
     fold (\<lambda>(_, component) m. fold (\<lambda>(contract, req) m. bt_insert contract req m)
        (cq_requires component) m) (cp_components profile) []"

fun first_satisfying ::
  "('v, 'z) semver_scheme \<Rightarrow> u32 \<Rightarrow> string \<Rightarrow> string \<Rightarrow> (string \<times> ComponentRequirement) list
     \<Rightarrow> document_error + string option" where
  "first_satisfying sv profile_version contract minimum [] = Inr None"
| "first_satisfying sv profile_version contract minimum ((_, component) # rest) =
     (case map_of (cq_provides component) contract of
        None \<Rightarrow> first_satisfying sv profile_version contract minimum rest
      | Some version \<Rightarrow>
          bind_r (ok_or (Document_Version version) (sv_parse sv version)) (\<lambda>actual.
          bind_r (ok_or (Document_Version minimum) (sv_parse sv minimum)) (\<lambda>least.
            if contract_satisfies sv profile_version actual least then Inr (Some version)
            else first_satisfying sv profile_version contract minimum rest)))"

definition self_satisfies ::
  "('v, 'z) semver_scheme \<Rightarrow> CompatibilityProfile \<Rightarrow> string \<Rightarrow> ContractRequirement
     \<Rightarrow> document_error + bool" where
  "self_satisfies sv profile contract req =
     bind_r (first_satisfying sv (cp_version profile) contract (req_minimum req)
               (cp_components profile)) (\<lambda>found. Inr (found \<noteq> None))"

definition match_provider ::
  "('v, 'z) semver_scheme \<Rightarrow> string \<Rightarrow> string \<Rightarrow> ContractRequirement \<Rightarrow> u32 \<Rightarrow> MatchingProvider list
     \<Rightarrow> string \<times> string \<times> CompatibilityProfile \<Rightarrow> document_error + MatchingProvider list" where
  "match_provider sv dependent contract req profile_version matching e =
     (case e of (provider, release, profile) \<Rightarrow>
        if provider = dependent then Inr matching
        else bind_r (first_satisfying sv profile_version contract (req_minimum req)
                       (cp_components profile)) (\<lambda>found. Inr (case found of
               None \<Rightarrow> matching
             | Some version \<Rightarrow> matching @ [\<lparr>mp_product = provider, mp_release = release,
                                            mp_contract_version = version\<rparr>])))"

fun dedup_by_product :: "MatchingProvider list \<Rightarrow> MatchingProvider list" where
  "dedup_by_product [] = []"
| "dedup_by_product [x] = [x]"
| "dedup_by_product (x # y # xs) =
     (if mp_product y = mp_product x then dedup_by_product (x # xs)
      else x # dedup_by_product (y # xs))"

definition matching_providers ::
  "('v, 'z) semver_scheme \<Rightarrow> string \<Rightarrow> string \<Rightarrow> ContractRequirement \<Rightarrow> u32 \<Rightarrow> deployed_set
     \<Rightarrow> document_error + MatchingProvider list" where
  "matching_providers sv dependent contract req profile_version deployed =
     bind_r (try_fold (match_provider sv dependent contract req profile_version) [] deployed)
       (\<lambda>matching. Inr (dedup_by_product (sort_key mp_product matching)))"

definition document_entry ::
  "('v, 'z) semver_scheme \<Rightarrow> string \<Rightarrow> CompatibilityProfile \<Rightarrow> deployed_set
     \<Rightarrow> (string, DependencyContract) btree_map \<Rightarrow> string \<times> ContractRequirement
     \<Rightarrow> document_error + (string, DependencyContract) btree_map" where
  "document_entry sv product profile deployed contracts e = (case e of (contract, req) \<Rightarrow>
     bind_r (self_satisfies sv profile contract req) (\<lambda>own.
     if own then Inr contracts
     else bind_r (matching_providers sv product contract req (cp_version profile) deployed)
       (\<lambda>matching. case matching of
          [] \<Rightarrow> if req_optional req then Inr (bt_insert contract Absent contracts)
                else Inl (Document_Absent contract product)
        | [provider] \<Rightarrow>
            Inr (bt_insert contract (Present (mp_product provider) (mp_release provider)
                   (mp_contract_version provider)) contracts)
        | _ \<Rightarrow> Inl (Document_Ambiguous contract product))))"

definition document_for ::
  "('v, 'z) semver_scheme \<Rightarrow> string \<Rightarrow> CompatibilityProfile \<Rightarrow> deployed_set
     \<Rightarrow> document_error + DependencyDocument option" where
  "document_for sv product profile deployed =
     (let requirements = all_requirements profile in
      if requirements = [] then Inr None
      else bind_r (try_fold (document_entry sv product profile deployed) [] requirements)
        (\<lambda>contracts. Inr (if contracts = [] then None
           else Some \<lparr>dd_version = 1, dd_contracts = contracts\<rparr>)))"

definition applied_digest :: "props \<Rightarrow> string \<Rightarrow> string" where
  "applied_digest properties product = prop_or_empty properties (''applied_dependencies.'' @ product)"

definition stamp ::
  "('v, 'z) semver_scheme \<Rightarrow> (DependencyDocument \<Rightarrow> string)
     \<Rightarrow> (string \<Rightarrow> string \<Rightarrow> document_error + CompatibilityProfile option)
     \<Rightarrow> deployed_set \<Rightarrow> props \<Rightarrow> string \<Rightarrow> document_error + props" where
  "stamp sv doc_digest stored_profile deployed properties product =
     (let key = ''applied_dependencies.'' @ product in
      case properties (''deployed.'' @ product) of
        None \<Rightarrow> Inr (remove_prop key properties)
      | Some version \<Rightarrow>
          bind_r (stored_profile product version) (\<lambda>found. case found of
            None \<Rightarrow> Inr (remove_prop key properties)
          | Some profile \<Rightarrow>
              bind_r (document_for sv product profile deployed) (\<lambda>doc. Inr (case doc of
                None \<Rightarrow> remove_prop key properties
              | Some document \<Rightarrow> properties(key \<mapsto> doc_digest document)))))"

section \<open>What the document says\<close>

definition offered_version ::
  "('v, 'z) semver_scheme \<Rightarrow> u32 \<Rightarrow> string \<Rightarrow> string \<Rightarrow> CompatibilityProfile \<Rightarrow> string \<Rightarrow> bool" where
  "offered_version sv v contract minimum profile version \<longleftrightarrow>
     (\<exists>c actual least. c \<in> set (cp_components profile)
        \<and> map_of (cq_provides (snd c)) contract = Some version
        \<and> sv_parse sv version = Some actual \<and> sv_parse sv minimum = Some least
        \<and> contract_satisfies sv v actual least)"

lemma first_satisfying_offers:
  "first_satisfying sv v contract minimum cs = Inr r \<Longrightarrow>
     (case r of
        None \<Rightarrow> \<forall>c\<in>set cs. \<not> component_offers sv v contract minimum (snd c)
      | Some version \<Rightarrow> \<exists>c actual least. c \<in> set cs
          \<and> map_of (cq_provides (snd c)) contract = Some version
          \<and> sv_parse sv version = Some actual \<and> sv_parse sv minimum = Some least
          \<and> contract_satisfies sv v actual least)"
proof (induction sv v contract minimum cs rule: first_satisfying.induct)
  case (2 sv v contract minimum n c rest)
  show ?case
  proof (cases "map_of (cq_provides c) contract")
    case None
    then have "\<not> component_offers sv v contract minimum c" by (simp add: component_offers_def)
    with 2 None show ?thesis by (fastforce split: option.splits)
  next
    case (Some version)
    then obtain a l where al: "sv_parse sv version = Some a" "sv_parse sv minimum = Some l"
      using 2(3) by (auto simp: result_simps)
    show ?thesis
    proof (cases "contract_satisfies sv v a l")
      case True
      with Some al 2(3) have "r = Some version" by simp
      with Some al True show ?thesis by (auto intro!: exI [of _ n] exI [of _ c])
    next
      case False
      then have n: "\<not> component_offers sv v contract minimum c"
        using Some al by (simp add: component_offers_def)
      have "first_satisfying sv v contract minimum rest = Inr r" using Some al 2(3) False by simp
      from 2(2) [OF Some False this] al n show ?thesis by (fastforce split: option.splits)
    qed
  qed
qed simp

definition provider_matches ::
  "('v, 'z) semver_scheme \<Rightarrow> string \<Rightarrow> string \<Rightarrow> ContractRequirement \<Rightarrow> u32 \<Rightarrow> deployed_set
     \<Rightarrow> MatchingProvider \<Rightarrow> bool" where
  "provider_matches sv dependent contract req v deployed m \<longleftrightarrow>
     mp_product m \<noteq> dependent \<and> (\<exists>profile. (mp_product m, mp_release m, profile) \<in> set deployed
        \<and> offered_version sv v contract (req_minimum req) profile (mp_contract_version m))"

definition matching_products ::
  "('v, 'z) semver_scheme \<Rightarrow> string \<Rightarrow> string \<Rightarrow> ContractRequirement \<Rightarrow> u32 \<Rightarrow> deployed_set
     \<Rightarrow> string set" where
  "matching_products sv dependent contract req v deployed =
     {q. q \<noteq> dependent \<and> (\<exists>release profile. (q, release, profile) \<in> set deployed
           \<and> provider_offers sv v contract (req_minimum req) profile)}"

lemma offered_version_offers:
  "offered_version sv v contract minimum profile version \<Longrightarrow> provider_offers sv v contract minimum profile"
  unfolding offered_version_def provider_offers_def component_offers_def by blast

lemma match_provider_step:
  assumes "match_provider sv dependent contract req v l (q, release, profile) = Inr l'"
  shows "mp_product ` set l' = mp_product ` set l
      \<union> matching_products sv dependent contract req v [(q, release, profile)]"
    and "set l' \<subseteq> set l \<union> {m. provider_matches sv dependent contract req v [(q, release, profile)] m}"
proof -
  have version: "\<And>version. r = Some version \<Longrightarrow>
      offered_version sv v contract (req_minimum req) profile version"
    and none: "r = None \<Longrightarrow> \<not> provider_offers sv v contract (req_minimum req) profile"
    if "first_satisfying sv v contract (req_minimum req) (cp_components profile) = Inr r" for r
    using first_satisfying_offers [OF that]
    unfolding offered_version_def provider_offers_def by (auto split: option.splits)
  then have offers: "r = None \<longleftrightarrow> \<not> provider_offers sv v contract (req_minimum req) profile"
    if "first_satisfying sv v contract (req_minimum req) (cp_components profile) = Inr r" for r
    using that offered_version_offers by (cases r) blast+
  show "mp_product ` set l' = mp_product ` set l
      \<union> matching_products sv dependent contract req v [(q, release, profile)]"
    using assms offers
    by (auto simp: match_provider_def matching_products_def result_simps split: if_splits option.splits)
  show "set l' \<subseteq> set l \<union> {m. provider_matches sv dependent contract req v [(q, release, profile)] m}"
    using assms version
    by (auto simp: match_provider_def provider_matches_def result_simps split: if_splits option.splits)
qed

lemma match_providers_fold:
  assumes "try_fold (match_provider sv dependent contract req v) l ds = Inr l'"
  shows "mp_product ` set l' = mp_product ` set l \<union> matching_products sv dependent contract req v ds
    \<and> set l' \<subseteq> set l \<union> {m. provider_matches sv dependent contract req v ds m}"
  using assms
proof (induction ds arbitrary: l)
  case Nil
  then show ?case by (simp add: matching_products_def)
next
  case (Cons x ds)
  obtain q r prof where x: "x = (q, r, prof)" by (cases x) auto
  obtain k where k: "match_provider sv dependent contract req v l (q, r, prof) = Inr k"
    and f: "try_fold (match_provider sv dependent contract req v) k ds = Inr l'"
    using Cons.prems by (auto simp: result_simps x)
  have mp: "matching_products sv dependent contract req v (x # ds)
      = matching_products sv dependent contract req v [(q, r, prof)]
        \<union> matching_products sv dependent contract req v ds"
    by (auto simp: matching_products_def x)
  have pm: "{m. provider_matches sv dependent contract req v [(q, r, prof)] m}
      \<union> {m. provider_matches sv dependent contract req v ds m}
      \<subseteq> {m. provider_matches sv dependent contract req v (x # ds) m}"
    by (auto simp: provider_matches_def x)
  have "mp_product ` set l' = mp_product ` set l \<union> matching_products sv dependent contract req v (x # ds)"
    using Cons.IH [OF f] match_provider_step(1) [OF k] unfolding mp by (simp add: Un_assoc)
  moreover have "set l' \<subseteq> set l \<union> {m. provider_matches sv dependent contract req v (x # ds) m}"
    using conjunct2 [OF Cons.IH [OF f]] match_provider_step(2) [OF k] pm by blast
  ultimately show ?case by blast
qed

lemma set_dedup_by_product: "set (dedup_by_product xs) \<subseteq> set xs"
  by (induction xs rule: dedup_by_product.induct) auto

lemma products_dedup_by_product: "mp_product ` set (dedup_by_product xs) = mp_product ` set xs"
  by (induction xs rule: dedup_by_product.induct) auto

lemma matching_providers_spec:
  assumes "matching_providers sv dependent contract req v deployed = Inr ms"
  shows "mp_product ` set ms = matching_products sv dependent contract req v deployed"
    and "m \<in> set ms \<Longrightarrow> provider_matches sv dependent contract req v deployed m"
proof -
  obtain l where l: "try_fold (match_provider sv dependent contract req v) [] deployed = Inr l"
    and ms: "ms = dedup_by_product (sort_key mp_product l)"
    using assms by (auto simp: matching_providers_def result_simps)
  note f = match_providers_fold [OF l]
  show "mp_product ` set ms = matching_products sv dependent contract req v deployed"
    unfolding ms products_dedup_by_product using f by simp
  show "m \<in> set ms \<Longrightarrow> provider_matches sv dependent contract req v deployed m"
    using f set_dedup_by_product [of "sort_key mp_product l"] unfolding ms by auto
qed

definition entry_right ::
  "('v, 'z) semver_scheme \<Rightarrow> string \<Rightarrow> CompatibilityProfile \<Rightarrow> deployed_set \<Rightarrow> string
     \<Rightarrow> ContractRequirement \<Rightarrow> DependencyContract \<Rightarrow> bool" where
  "entry_right sv product profile deployed contract req entry = (case entry of
     Absent \<Rightarrow> req_optional req
       \<and> matching_products sv product contract req (cp_version profile) deployed = {}
   | Present p r version \<Rightarrow>
       matching_products sv product contract req (cp_version profile) deployed = {p}
       \<and> (\<exists>q. (p, r, q) \<in> set deployed
            \<and> offered_version sv (cp_version profile) contract (req_minimum req) q version))"

lemma document_entry_right:
  assumes "document_entry sv product profile deployed contracts (contract, req) = Inr contracts'"
  shows "contracts' = contracts \<or> (\<exists>entry. contracts' = bt_insert contract entry contracts
    \<and> entry_right sv product profile deployed contract req entry)"
proof -
  obtain own where own: "self_satisfies sv profile contract req = Inr own"
    using assms by (auto simp: document_entry_def result_simps)
  show ?thesis
  proof (cases own)
    case True
    then show ?thesis using assms own by (simp add: document_entry_def)
  next
    case False
    then obtain ms where ms: "matching_providers sv product contract req (cp_version profile) deployed = Inr ms"
      using assms own by (auto simp: document_entry_def result_simps)
    note spec = matching_providers_spec [OF ms]
    consider "ms = []" | m where "ms = [m]" | x y zs where "ms = x # y # zs"
      by (metis list.exhaust)
    then show ?thesis
    proof cases
      case 1
      then have "contracts' = bt_insert contract Absent contracts"
        "entry_right sv product profile deployed contract req Absent"
        using assms own False ms spec(1)
        by (auto simp: document_entry_def entry_right_def split: if_splits)
      then show ?thesis by blast
    next
      case (2 m)
      let ?e = "Present (mp_product m) (mp_release m) (mp_contract_version m)"
      have "contracts' = bt_insert contract ?e contracts"
        using assms own False ms 2 by (simp add: document_entry_def)
      moreover have "entry_right sv product profile deployed contract req ?e"
        using spec(1) spec(2) [of m] 2 by (auto simp: entry_right_def provider_matches_def)
      ultimately show ?thesis by blast
    next
      case (3 x y zs)
      then show ?thesis using assms own False ms by (simp add: document_entry_def)
    qed
  qed
qed

lemma document_for_entries:
  assumes "document_for sv product profile deployed = Inr (Some doc)"
    and "map_of (dd_contracts doc) contract = Some entry"
  shows "\<exists>req. (contract, req) \<in> set (all_requirements profile)
    \<and> entry_right sv product profile deployed contract req entry"
proof -
  let ?P = "\<lambda>m. \<forall>c e. map_of m c = Some e \<longrightarrow> (\<exists>req. (c, req) \<in> set (all_requirements profile)
      \<and> entry_right sv product profile deployed c req e)"
  have "try_fold (document_entry sv product profile deployed) [] (all_requirements profile)
      = Inr (dd_contracts doc)"
    using assms(1) by (auto simp: document_for_def Let_def result_simps split: if_splits)
  then have "?P (dd_contracts doc)"
  proof (rule try_fold_invariant [where P = ?P])
    fix m x t assume P: "?P m" and x: "x \<in> set (all_requirements profile)"
      and t: "document_entry sv product profile deployed m x = Inr t"
    obtain c r where xe: "x = (c, r)" by fastforce
    show "?P t"
      using document_entry_right [OF t [unfolded xe]] P x xe by (auto split: if_splits)
  qed simp
  with assms(2) show ?thesis by blast
qed

section \<open>Properties\<close>

definition dependent_profile :: CompatibilityProfile where
  "dependent_profile = demo_profile\<lparr>cp_components := [(''api'', \<lparr>cq_pin = demo_pin,
     cq_requires = [(''cache'', Detailed ''1.0.0'' True), (''sql'', Minimum ''1.2.0'')],
     cq_provides = []\<rparr>)]\<rparr>"

definition conflicting_profile :: CompatibilityProfile where
  "conflicting_profile = demo_profile\<lparr>cp_components :=
     [(''a'', \<lparr>cq_pin = demo_pin, cq_requires = [(''sql'', Minimum ''1.2.0'')], cq_provides = []\<rparr>),
      (''b'', \<lparr>cq_pin = demo_pin, cq_requires = [(''sql'', Detailed ''1.2.0'' True)],
               cq_provides = []\<rparr>)]\<rparr>"



text \<open>The requirements of all components share one map in which the last component wins, so a
  contract that one component requires and a later one lists as optional is delivered as absent.\<close>

lemma required_contract_delivered_absent:
  "(''sql'', Minimum ''1.2.0'') \<in> set (cq_requires (snd (hd (cp_components conflicting_profile))))
   \<and> validate_profile triple_semver conflicting_profile = Inr ()
   \<and> document_for triple_semver ''api'' conflicting_profile []
       = Inr (Some \<lparr>dd_version = 1, dd_contracts = [(''sql'', Absent)]\<rparr>)"
proof (intro conjI)
  show "(''sql'', Minimum ''1.2.0'') \<in> set (cq_requires (snd (hd (cp_components conflicting_profile))))"
    by (simp add: conflicting_profile_def)
  show "validate_profile triple_semver conflicting_profile = Inr ()" by code_simp
  show "document_for triple_semver ''api'' conflicting_profile []
       = Inr (Some \<lparr>dd_version = 1, dd_contracts = [(''sql'', Absent)]\<rparr>)" by code_simp
qed

end
