(* ===== verification/Expiring_Claims.thy ===== *)
theory Expiring_Claims
  imports Prelude
begin

text \<open>
  Claims that expire: the contract between the parts that take turns over a shared resource (the
  reconcile fence, the leases of the catalog) and the parts that rely on it.  A step at some time may
  start, renew or release claims; a claim that is live at that time changes hands only through a
  moment at which nobody holds it.
\<close>

fun timed_run :: "(int \<Rightarrow> 's \<Rightarrow> 's \<Rightarrow> bool) \<Rightarrow> (int \<times> 's) list \<Rightarrow> bool" where
  "timed_run step [] = True"
| "timed_run step [x] = True"
| "timed_run step ((t, s) # (t', s') # xs) =
     (t \<le> t' \<and> step t' s s' \<and> timed_run step ((t', s') # xs))"

lemma timed_run_nth:
  assumes "timed_run step tr" and "Suc n < length tr"
  shows "fst (tr ! n) \<le> fst (tr ! Suc n)" and "step (fst (tr ! Suc n)) (snd (tr ! n)) (snd (tr ! Suc n))"
proof -
  have "fst (tr ! n) \<le> fst (tr ! Suc n) \<and> step (fst (tr ! Suc n)) (snd (tr ! n)) (snd (tr ! Suc n))"
    using assms
  proof (induction step tr arbitrary: n rule: timed_run.induct)
    case (3 step t s t' s' xs)
    then show ?case by (cases n) auto
  qed simp_all
  then show "fst (tr ! n) \<le> fst (tr ! Suc n)" "step (fst (tr ! Suc n)) (snd (tr ! n)) (snd (tr ! Suc n))"
    by simp_all
qed

definition unheld :: "('s \<Rightarrow> 'k \<Rightarrow> int \<Rightarrow> 'h option) \<Rightarrow> 'k \<Rightarrow> (int \<times> 's) list \<Rightarrow> nat \<Rightarrow> bool" where
  "unheld holder k tr m \<longleftrightarrow> holder (snd (tr ! (m - 1))) k (fst (tr ! m)) = None"

locale expiring_claims =
  fixes holder :: "'s \<Rightarrow> 'k \<Rightarrow> int \<Rightarrow> 'h option"
    and step :: "int \<Rightarrow> 's \<Rightarrow> 's \<Rightarrow> bool"
  assumes only_expires: "t \<le> t' \<Longrightarrow> holder s k t' = Some h \<Longrightarrow> holder s k t = Some h"
    and no_steal: "step t s s' \<Longrightarrow> holder s k t = Some h \<Longrightarrow> holder s' k t = Some h' \<Longrightarrow> h' = h"
begin

lemma kept_or_unheld:
  assumes run: "timed_run step tr" and start: "holder (snd (tr ! i)) k (fst (tr ! i)) = Some h"
    and "i \<le> j" and "j < length tr"
  shows "holder (snd (tr ! j)) k (fst (tr ! j)) = Some h \<or> holder (snd (tr ! j)) k (fst (tr ! j)) = None
    \<or> (\<exists>m. i < m \<and> m \<le> j \<and> unheld holder k tr m)"
  using assms(3,4)
proof (induction j rule: dec_induct)
  case base
  then show ?case using start by simp
next
  case (step j)
  let ?now = "fst (tr ! Suc j)"
  note next_step = timed_run_nth [OF run step.prems]
  from step.IH step.prems consider "\<exists>m. i < m \<and> m \<le> j \<and> unheld holder k tr m"
    | "holder (snd (tr ! j)) k ?now = None"
    | h2 where "holder (snd (tr ! j)) k ?now = Some h2" "holder (snd (tr ! j)) k (fst (tr ! j)) \<noteq> None"
        "holder (snd (tr ! j)) k (fst (tr ! j)) = Some h"
    using only_expires [OF next_step(1)] by fastforce
  then show ?case
  proof cases
    case 1
    then show ?thesis by (meson le_SucI)
  next
    case 2
    then have "unheld holder k tr (Suc j)" by (simp add: unheld_def)
    then show ?thesis using step.hyps by (meson le_refl less_Suc_eq_le)
  next
    case 3
    then have "h2 = h" using only_expires [OF next_step(1) 3(1)] by simp
    then show ?thesis using no_steal [OF next_step(2)] 3(1) by (metis not_None_eq)
  qed
qed

lemma handover_unheld:
  assumes "timed_run step tr" and "i \<le> j" and "j < length tr"
    and "holder (snd (tr ! i)) k (fst (tr ! i)) = Some h"
    and "holder (snd (tr ! j)) k (fst (tr ! j)) = Some h'" and "h \<noteq> h'"
  shows "\<exists>m. i < m \<and> m \<le> j \<and> unheld holder k tr m"
  using kept_or_unheld [OF assms(1,4,2,3)] assms(5,6) by simp

end

end
