(* ===== verification/Reconcile_Fence.thy ===== *)
theory Reconcile_Fence
  imports Expiring_Claims
begin

text \<open>
  \<open>src/reconcile_fence.rs\<close> and \<open>src/writer_fence.rs\<close>: the claims by which hosts take turns to tick an
  environment, and a process's view of its writer role.  The claims are the map of
  \<open>SharedReconcileFence\<close>; a poisoned mutex is the only failure that is left out.
\<close>

datatype FenceAdmission =
    Fence_Started u64
  | Fence_Busy string
  | Fence_Stale

record LiveClaim =
  lc_owner :: string
  lc_generation :: u64
  lc_expires_at :: int

datatype FenceError = InvalidIdentity | InvalidExpiry

type_synonym claims = "string \<Rightarrow> LiveClaim option"

definition fence_try_begin ::
  "claims \<Rightarrow> string \<Rightarrow> string \<Rightarrow> int \<Rightarrow> int \<Rightarrow> (FenceError + FenceAdmission) \<times> claims" where
  "fence_try_begin claims environment owner now ttl_ms =
     (if trim environment = [] \<or> trim owner = [] then (Inl InvalidIdentity, claims)
      else if ttl_ms \<le> 0 then (Inl InvalidExpiry, claims)
      else
        (let expires_at = i64_saturating_add now ttl_ms;
             claim = (\<lambda>generation. \<lparr>lc_owner = owner, lc_generation = generation, lc_expires_at = expires_at\<rparr>)
         in case claims environment of
              Some c \<Rightarrow>
                (if now < lc_expires_at c \<and> lc_owner c \<noteq> owner
                 then (Inr (Fence_Busy (lc_owner c)), claims)
                 else if now < lc_expires_at c \<and> lc_owner c = owner
                 then (Inr (Fence_Started (lc_generation c)),
                       claims(environment := Some (claim (lc_generation c))))
                 else (Inr (Fence_Started (saturating_succ (lc_generation c))),
                       claims(environment := Some (claim (saturating_succ (lc_generation c))))))
            | None \<Rightarrow> (Inr (Fence_Started 1), claims(environment := Some (claim 1)))))"

definition fence_release :: "claims \<Rightarrow> string \<Rightarrow> string \<Rightarrow> u64 \<Rightarrow> int \<Rightarrow> claims" where
  "fence_release claims environment owner generation now =
     (case claims environment of
        Some c \<Rightarrow>
          (if lc_owner c = owner \<and> lc_generation c = generation
           then claims(environment := Some (c\<lparr>lc_expires_at := min (lc_expires_at c) now\<rparr>))
           else claims)
      | None \<Rightarrow> claims)"

record FenceGuard =
  fg_environment :: string
  fg_owner :: string
  fg_generation :: u64
  fg_released :: bool

definition fence_guard_new :: "string \<Rightarrow> string \<Rightarrow> u64 \<Rightarrow> FenceGuard" where
  "fence_guard_new environment owner generation = \<lparr>fg_environment = environment, fg_owner = owner,
     fg_generation = generation, fg_released = False\<rparr>"

definition fence_guard_drop :: "FenceGuard \<Rightarrow> claims \<Rightarrow> int \<Rightarrow> claims" where
  "fence_guard_drop guard claims now =
     (if fg_released guard then claims
      else fence_release claims (fg_environment guard) (fg_owner guard) (fg_generation guard) now)"

definition release_now :: "FenceGuard \<Rightarrow> claims \<Rightarrow> int \<Rightarrow> int \<Rightarrow> claims" where
  "release_now guard claims now dropped_at =
     fence_guard_drop (guard\<lparr>fg_released := True\<rparr>)
       (fence_release claims (fg_environment guard) (fg_owner guard) (fg_generation guard) now) dropped_at"

section \<open>The writer role\<close>

datatype WriterRole = Leader string u64 | Standby

record WriterFence =
  wf_role :: WriterRole
  wf_deadline :: "int option"

definition writer_fence_default :: WriterFence where
  "writer_fence_default = \<lparr>wf_role = Standby, wf_deadline = None\<rparr>"

definition writer_role :: "WriterFence \<Rightarrow> int \<Rightarrow> WriterRole" where
  "writer_role fence now = (case wf_deadline fence of
     Some deadline \<Rightarrow> if deadline \<le> now then Standby else wf_role fence
   | None \<Rightarrow> wf_role fence)"

definition writer_set :: "WriterRole \<Rightarrow> WriterFence" where
  "writer_set role = \<lparr>wf_role = role, wf_deadline = None\<rparr>"

definition writer_set_until :: "WriterRole \<Rightarrow> int \<Rightarrow> WriterFence" where
  "writer_set_until role deadline = \<lparr>wf_role = role, wf_deadline = Some deadline\<rparr>"

definition is_leader :: "WriterFence \<Rightarrow> int \<Rightarrow> bool" where
  "is_leader fence now = (case writer_role fence now of Leader _ _ \<Rightarrow> True | Standby \<Rightarrow> False)"

section \<open>Hosts over time\<close>

inductive fence_step :: "int \<Rightarrow> claims \<Rightarrow> claims \<Rightarrow> bool" where
  fence_begin: "fence_step now claims (snd (fence_try_begin claims environment owner now ttl_ms))"
| fence_end: "fence_step now claims (fence_release claims environment owner generation now)"

definition fence_holder :: "claims \<Rightarrow> string \<Rightarrow> int \<Rightarrow> string option" where
  "fence_holder claims environment now = (case claims environment of
     Some c \<Rightarrow> if now < lc_expires_at c then Some (lc_owner c) else None
   | None \<Rightarrow> None)"

definition fence_generation :: "claims \<Rightarrow> string \<Rightarrow> u64" where
  "fence_generation claims environment = (case claims environment of
     Some c \<Rightarrow> lc_generation c | None \<Rightarrow> 0)"

lemma fence_begin_keeps_live:
  assumes "fence_holder claims k now = Some h"
    and "fence_holder (snd (fence_try_begin claims e o' now ttl)) k now = Some h'"
  shows "h' = h"
  using assms by (auto simp: fence_holder_def fence_try_begin_def Let_def split: option.splits if_splits)

lemma fence_end_keeps_live:
  assumes "fence_holder claims k now = Some h"
    and "fence_holder (fence_release claims e o' g now) k now = Some h'"
  shows "h' = h"
  using assms by (auto simp: fence_holder_def fence_release_def split: option.splits if_splits)

interpretation fence: expiring_claims fence_holder fence_step
proof
  show "fence_holder s k t = Some h" if "t \<le> t'" "fence_holder s k t' = Some h" for t t' s k h
    using that by (auto simp: fence_holder_def split: option.splits if_splits)
  show "h' = h" if "fence_step t s s'" "fence_holder s k t = Some h" "fence_holder s' k t = Some h'" for t s s' k h h'
    using that(1)
  proof cases
    case (fence_begin e o' ttl)
    then show ?thesis using fence_begin_keeps_live that(2,3) by simp
  next
    case (fence_end e o' g)
    then show ?thesis using fence_end_keeps_live that(2,3) by simp
  qed
qed

lemma fence_step_generation:
  assumes "fence_step now claims claims'"
  shows "fence_generation claims e \<le> fence_generation claims' e"
  using assms
  by cases (auto simp: fence_generation_def fence_try_begin_def fence_release_def Let_def arith_bounds
      split: option.splits)

lemma fence_run_generation:
  assumes "timed_run fence_step tr" and "i \<le> j" and "j < length tr"
  shows "fence_generation (snd (tr ! i)) e \<le> fence_generation (snd (tr ! j)) e"
  using assms(2,3)
proof (induction j rule: dec_induct)
  case (step j)
  then show ?case
    using fence_step_generation [OF timed_run_nth(2) [OF assms(1) step.prems], of e] by simp
qed simp

text \<open>C29. Hosts take turns: over any sequence of begins and releases at non-decreasing times, when an
  environment's claim is live for one host and later for another, there was a step in between at
  whose time no claim of the environment was live; and the generation never goes back.\<close>
theorem fence_hosts_take_turns:
  assumes "timed_run fence_step tr" and "i \<le> j" and "j < length tr"
    and "fence_holder (snd (tr ! i)) environment (fst (tr ! i)) = Some host"
    and "fence_holder (snd (tr ! j)) environment (fst (tr ! j)) = Some host'" and "host \<noteq> host'"
  shows "(\<exists>m. i < m \<and> m \<le> j \<and> unheld fence_holder environment tr m)
    \<and> fence_generation (snd (tr ! i)) environment \<le> fence_generation (snd (tr ! j)) environment"
  using fence.handover_unheld [OF assms] fence_run_generation [OF assms(1-3)] by blast

definition demo_claims :: "int \<Rightarrow> claims" where
  "demo_claims n = (if n \<le> 0 then (\<lambda>_. None)
     else if n = 1 then snd (fence_try_begin (\<lambda>_. None) ''prod'' ''a'' 10 50)
     else if n = 2 then fence_release (snd (fence_try_begin (\<lambda>_. None) ''prod'' ''a'' 10 50)) ''prod'' ''a'' 1 20
     else snd (fence_try_begin (fence_release (snd (fence_try_begin (\<lambda>_. None) ''prod'' ''a'' 10 50))
       ''prod'' ''a'' 1 20) ''prod'' ''b'' 30 50))"

theorem fence_hosts_take_turns_witness:
  "fence_holder (demo_claims 1) ''prod'' 10 = Some ''a'' \<and> fence_holder (demo_claims 3) ''prod'' 30 = Some ''b''
    \<and> fence_generation (demo_claims 1) ''prod'' \<le> fence_generation (demo_claims 3) ''prod''"
proof -
  let ?tr = "[(0, demo_claims 0), (10, demo_claims 1), (20, demo_claims 2), (30, demo_claims 3)]"
  have run: "timed_run fence_step ?tr"
    by (simp add: demo_claims_def fence_begin fence_end)
  have a: "fence_holder (demo_claims 1) ''prod'' 10 = Some ''a''"
    and b: "fence_holder (demo_claims 3) ''prod'' 30 = Some ''b''" by code_simp+
  have "fence_generation (demo_claims 1) ''prod'' \<le> fence_generation (demo_claims 3) ''prod''"
    using fence_hosts_take_turns [OF run, of 1 3 "''prod''" "''a''" "''b''"] a b by simp
  with a b show ?thesis by blast
qed

end
