(* ===== verification/Environment_Index.thy ===== *)
theory Environment_Index
  imports Store_Object
begin

text \<open>
  The environment-name index of \<open>src/reconciler/tick_admission.rs\<close>: two maps that the reconciler
  keeps between ticks instead of listing every environment object, and the retirement marker of
  \<open>src/environment.rs\<close> that takes an environment out of it.
\<close>

definition kind_environment :: string where "kind_environment = ''tenkai.environment''"
definition retirement_reason :: string where "retirement_reason = ''tenkai.retirement.reason''"
definition retirement_actor :: string where "retirement_actor = ''tenkai.retirement.actor''"
definition retirement_at :: string where "retirement_at = ''tenkai.retirement.at''"

record EnvironmentRetirement =
  er_reason :: string
  er_actor :: string
  er_retired_at :: int

definition retirement_from_properties :: "props \<Rightarrow> EnvironmentRetirement option" where
  "retirement_from_properties p =
     Option.bind (p retirement_reason) (\<lambda>reason.
     Option.bind (p retirement_actor) (\<lambda>actor.
     Option.bind (Option.bind (p retirement_at) parse_i64) (\<lambda>at.
     Some \<lparr>er_reason = reason, er_actor = actor, er_retired_at = at\<rparr>)))"

definition is_retired_object :: "Object \<Rightarrow> bool" where
  "is_retired_object o' = (retirement_from_properties (ob_properties o') \<noteq> None)"

record IndexEntry =
  ie_id :: string
  ie_updated :: int

record EnvironmentIndex =
  ei_initialized :: bool
  ei_by_name :: "(string, IndexEntry) btree_map"
  ei_by_id :: "(string, string) btree_map"

definition index_default :: EnvironmentIndex where
  "index_default = \<lparr>ei_initialized = False, ei_by_name = [], ei_by_id = []\<rparr>"

definition sorted_names :: "EnvironmentIndex \<Rightarrow> string list" where
  "sorted_names ix = bt_keys (ei_by_name ix)"

definition index_upsert :: "Object \<Rightarrow> EnvironmentIndex \<Rightarrow> EnvironmentIndex" where
  "index_upsert o' ix =
     (let by_name = (case bt_get (ei_by_id ix) (ob_id o') of
            Some previous \<Rightarrow> if previous \<noteq> ob_name o' then bt_remove previous (ei_by_name ix) else ei_by_name ix
          | None \<Rightarrow> ei_by_name ix);
          by_id = bt_insert (ob_id o') (ob_name o') (ei_by_id ix);
          by_id = (case bt_get by_name (ob_name o') of
            Some previous \<Rightarrow> if ie_id previous \<noteq> ob_id o' then bt_remove (ie_id previous) by_id else by_id
          | None \<Rightarrow> by_id)
      in ix\<lparr>ei_by_name := bt_insert (ob_name o') \<lparr>ie_id = ob_id o', ie_updated = ob_updated o'\<rparr> by_name,
            ei_by_id := by_id\<rparr>)"

definition index_remove_id :: "string \<Rightarrow> EnvironmentIndex \<Rightarrow> EnvironmentIndex" where
  "index_remove_id i ix = (case bt_get (ei_by_id ix) i of
     Some name \<Rightarrow> ix\<lparr>ei_by_name := bt_remove name (ei_by_name ix), ei_by_id := bt_remove i (ei_by_id ix)\<rparr>
   | None \<Rightarrow> ix)"

definition replace_from_objects :: "Object list \<Rightarrow> EnvironmentIndex \<Rightarrow> EnvironmentIndex" where
  "replace_from_objects objects ix =
     (fold index_upsert (filter (\<lambda>o'. \<not> is_retired_object o') objects)
        (ix\<lparr>ei_by_name := [], ei_by_id := []\<rparr>))\<lparr>ei_initialized := True\<rparr>"

definition membership_delta :: "EnvironmentIndex \<Rightarrow> string list \<Rightarrow> string list \<times> string list" where
  "membership_delta ix listed_ids =
     (filter (\<lambda>i. \<not> bt_contains (ei_by_id ix) i) listed_ids,
      filter (\<lambda>i. i \<notin> set listed_ids) (bt_keys (ei_by_id ix)))"

definition load_appeared :: "(string \<Rightarrow> Object option) \<Rightarrow> string list \<Rightarrow> Object list" where
  "load_appeared get appeared = List.map_filter (\<lambda>i. case get i of
       Some o' \<Rightarrow> if ob_kind o' = kind_environment \<and> \<not> is_retired_object o' then Some o' else None
     | None \<Rightarrow> None) appeared"

definition refresh_environment_index ::
  "bool \<Rightarrow> (string \<Rightarrow> Object option) \<Rightarrow> Object list \<Rightarrow> string list \<Rightarrow> EnvironmentIndex \<Rightarrow> EnvironmentIndex" where
  "refresh_environment_index embedded get objects listed_ids ix =
     (if \<not> ei_initialized ix \<or> \<not> embedded then replace_from_objects objects ix
      else
        (let (appeared, disappeared) = membership_delta ix listed_ids
         in fold index_remove_id disappeared
              (fold index_upsert (load_appeared get appeared) ix)))"

definition resolve_allowed_environments ::
  "(string \<Rightarrow> Object option) \<Rightarrow> string list \<Rightarrow> string list" where
  "resolve_allowed_environments get allowed =
     remdups_adj (sort (List.map_filter (\<lambda>name. case get (env_id name) of
        Some o' \<Rightarrow>
          if ob_kind o' = kind_environment \<and> ob_name o' \<in> set allowed \<and> \<not> is_retired_object o'
          then Some (ob_name o') else None
      | None \<Rightarrow> None) allowed))"

section \<open>Two maps, one relation\<close>

text \<open>The two maps are inverse to each other.\<close>

definition index_ok :: "EnvironmentIndex \<Rightarrow> bool" where
  "index_ok ix \<longleftrightarrow> bt_ok (ei_by_name ix) \<and> bt_ok (ei_by_id ix)
     \<and> (\<forall>i n. bt_get (ei_by_id ix) i = Some n \<longleftrightarrow> (\<exists>e. bt_get (ei_by_name ix) n = Some e \<and> ie_id e = i))"

abbreviation name_of :: "EnvironmentIndex \<Rightarrow> string \<Rightarrow> string option" where
  "name_of ix \<equiv> bt_get (ei_by_id ix)"

lemma index_ok_inverse:
  assumes "index_ok ix"
  shows "name_of ix i = Some n \<longleftrightarrow> (\<exists>e. bt_get (ei_by_name ix) n = Some e \<and> ie_id e = i)"
  using assms by (simp add: index_ok_def)

lemma index_ok_sorted: "index_ok ix \<Longrightarrow> bt_ok (ei_by_name ix)" "index_ok ix \<Longrightarrow> bt_ok (ei_by_id ix)"
  by (simp_all add: index_ok_def)

lemma index_ok_unique:
  assumes "index_ok ix" and "name_of ix i = Some n" and "name_of ix j = Some n"
  shows "i = j"
  using assms by (auto simp: index_ok_def)

lemma upsert_name_of:
  assumes ok: "index_ok ix"
  shows "name_of (index_upsert o' ix) j =
    (if j = ob_id o' then Some (ob_name o')
     else if name_of ix j = Some (ob_name o') then None else name_of ix j)"
proof -
  define by_name where "by_name = (case name_of ix (ob_id o') of
    Some previous \<Rightarrow> if previous \<noteq> ob_name o' then bt_remove previous (ei_by_name ix) else ei_by_name ix
  | None \<Rightarrow> ei_by_name ix)"
  have same: "bt_get by_name (ob_name o') = bt_get (ei_by_name ix) (ob_name o')"
    by (simp add: by_name_def split: option.splits)
  have eq: "ei_by_id (index_upsert o' ix) = (case bt_get by_name (ob_name o') of
      Some previous \<Rightarrow> if ie_id previous \<noteq> ob_id o'
        then bt_remove (ie_id previous) (bt_insert (ob_id o') (ob_name o') (ei_by_id ix))
        else bt_insert (ob_id o') (ob_name o') (ei_by_id ix)
    | None \<Rightarrow> bt_insert (ob_id o') (ob_name o') (ei_by_id ix))"
    by (simp add: index_upsert_def Let_def by_name_def)
  show ?thesis
  proof (cases "bt_get (ei_by_name ix) (ob_name o')")
    case None
    then have "name_of ix j \<noteq> Some (ob_name o')" using index_ok_inverse [OF ok] by simp
    then show ?thesis by (simp add: eq same None)
  next
    case (Some e)
    then have "name_of ix j = Some (ob_name o') \<longleftrightarrow> ie_id e = j" using index_ok_inverse [OF ok] by simp
    then show ?thesis by (auto simp: eq same Some)
  qed
qed

lemma upsert_by_name:
  assumes "index_ok ix"
  shows "bt_get (ei_by_name (index_upsert o' ix)) n =
    (if n = ob_name o' then Some \<lparr>ie_id = ob_id o', ie_updated = ob_updated o'\<rparr>
     else if name_of ix (ob_id o') = Some n then None else bt_get (ei_by_name ix) n)"
  by (auto simp: index_upsert_def Let_def split: option.splits)

lemma upsert_ok: "index_ok ix \<Longrightarrow> index_ok (index_upsert o' ix)"
proof -
  assume ok: "index_ok ix"
  have "bt_ok (ei_by_name (index_upsert o' ix))" "bt_ok (ei_by_id (index_upsert o' ix))"
    using ok by (auto simp: index_ok_def index_upsert_def Let_def split: option.splits)
  moreover have "name_of (index_upsert o' ix) i = Some n
      \<longleftrightarrow> (\<exists>e. bt_get (ei_by_name (index_upsert o' ix)) n = Some e \<and> ie_id e = i)" for i n
    using index_ok_inverse [OF ok, of i n] index_ok_inverse [OF ok, of "ob_id o'" n]
    by (auto simp: upsert_name_of [OF ok] upsert_by_name [OF ok])
  ultimately show ?thesis by (simp add: index_ok_def)
qed

lemma remove_name_of: "name_of (index_remove_id i ix) j = (if j = i then None else name_of ix j)"
  by (auto simp: index_remove_id_def split: option.splits)

lemma remove_ok:
  assumes ok: "index_ok ix"
  shows "index_ok (index_remove_id i ix)"
proof (cases "name_of ix i")
  case None
  then show ?thesis using ok by (simp add: index_remove_id_def)
next
  case (Some n)
  have "name_of (index_remove_id i ix) j = Some m
      \<longleftrightarrow> (\<exists>e. bt_get (ei_by_name (index_remove_id i ix)) m = Some e \<and> ie_id e = j)" for j m
  proof -
    have "j \<noteq> i \<longleftrightarrow> m \<noteq> n" if "name_of ix j = Some m"
      using that Some index_ok_unique [OF ok Some, of j] by auto
    then show ?thesis using index_ok_inverse [OF ok, of j m] Some by (auto simp: index_remove_id_def)
  qed
  moreover have "bt_ok (ei_by_name (index_remove_id i ix))" "bt_ok (ei_by_id (index_remove_id i ix))"
    using index_ok_sorted [OF ok] Some by (simp_all add: index_remove_id_def)
  ultimately show ?thesis by (simp add: index_ok_def)
qed

lemma fold_upsert:
  assumes "index_ok ix" and "distinct (map ob_id os)" and "distinct (map ob_name os)"
  shows "index_ok (fold index_upsert os ix)
    \<and> (\<forall>j. name_of (fold index_upsert os ix) j =
         (case map_of (map (\<lambda>o'. (ob_id o', ob_name o')) os) j of Some n \<Rightarrow> Some n
          | None \<Rightarrow> (case name_of ix j of None \<Rightarrow> None
              | Some n \<Rightarrow> if n \<in> ob_name ` set os then None else Some n)))"
  using assms
proof (induction os arbitrary: ix)
  case Nil
  then show ?case by (simp split: option.splits)
next
  case (Cons o' os)
  note ok = upsert_ok [OF Cons.prems(1), of o']
  have IH: "index_ok (fold index_upsert os (index_upsert o' ix))"
    "\<And>j. name_of (fold index_upsert os (index_upsert o' ix)) j =
       (case map_of (map (\<lambda>o'. (ob_id o', ob_name o')) os) j of Some n \<Rightarrow> Some n
        | None \<Rightarrow> (case name_of (index_upsert o' ix) j of None \<Rightarrow> None
            | Some n \<Rightarrow> if n \<in> ob_name ` set os then None else Some n))"
    using Cons.IH [OF ok] Cons.prems(2,3) by simp_all
  have new: "map_of (map (\<lambda>o'. (ob_id o', ob_name o')) os) (ob_id o') = None"
    using Cons.prems(2) by (auto simp: map_of_eq_None_iff)
  show ?case
    using IH new Cons.prems(3)
    by (auto simp: upsert_name_of [OF Cons.prems(1)] split: option.splits)
qed

lemma fold_remove:
  assumes "index_ok ix"
  shows "index_ok (fold index_remove_id is ix)
    \<and> (\<forall>j. name_of (fold index_remove_id is ix) j = (if j \<in> set is then None else name_of ix j))"
  using assms
proof (induction "is" arbitrary: ix)
  case (Cons i "is")
  then show ?case using remove_ok [OF Cons.prems, of i] by (simp add: remove_name_of)
qed simp

lemma index_names:
  assumes "index_ok ix"
  shows "set (sorted_names ix) = ran (name_of ix)"
proof -
  have "n \<in> ran (name_of ix) \<longleftrightarrow> bt_get (ei_by_name ix) n \<noteq> None" for n
    by (auto simp: ran_def index_ok_inverse [OF assms])
  then show ?thesis by (auto simp: sorted_names_def set_bt_keys dom_def)
qed

lemma same_names:
  assumes "index_ok ix" and "index_ok iy" and "name_of ix = name_of iy"
  shows "sorted_names ix = sorted_names iy"
proof -
  have "sorted_wrt (<) (sorted_names ix)" "sorted_wrt (<) (sorted_names iy)"
    using index_ok_sorted(1) [OF assms(1)] index_ok_sorted(1) [OF assms(2)]
    by (simp_all add: sorted_names_def bt_ok_def bt_keys_def)
  then show ?thesis
    using index_names [OF assms(1)] index_names [OF assms(2)] assms(3) by (simp add: strict_sorted_equal)
qed

section \<open>The incremental refresh\<close>

definition is_registered :: "Object \<Rightarrow> bool" where
  "is_registered o' \<longleftrightarrow> ob_kind o' = kind_environment \<and> ob_id o' = env_id (ob_name o')"

abbreviation active_objects :: "Object list \<Rightarrow> Object list" where
  "active_objects os \<equiv> filter (\<lambda>o'. \<not> is_retired_object o') os"

abbreviation id_names :: "Object list \<Rightarrow> (string \<times> string) list" where
  "id_names os \<equiv> map (\<lambda>o'. (ob_id o', ob_name o')) os"

lemma map_filter_fused:
  assumes "\<And>x. x \<in> set xs \<Longrightarrow> P (f x) \<Longrightarrow> g (f x) = Some x"
  shows "List.map_filter g (filter P (map f xs)) = filter (\<lambda>x. P (f x)) xs"
  using assms by (induction xs) (auto simp: map_filter_simps)

lemma registered_names:
  assumes "\<forall>o'\<in>set os. is_registered o'" and "distinct (map ob_id os)"
  shows "distinct (map ob_name os)"
  using assms by (auto simp: distinct_map inj_on_def is_registered_def env_id_def)

lemma id_names_Some:
  assumes "distinct (map ob_id os)" and "o' \<in> set os"
  shows "map_of (id_names os) (ob_id o') = Some (ob_name o')"
  using assms by (intro map_of_is_SomeI) (auto simp: comp_def)

lemma id_names_None: "j \<notin> ob_id ` set os \<Longrightarrow> map_of (id_names os) j = None"
  by (auto simp: map_of_eq_None_iff)

lemma empty_index_ok [simp]: "index_ok (ix\<lparr>ei_by_name := [], ei_by_id := []\<rparr>)"
  by (simp add: index_ok_def)

lemma replace_spec:
  assumes "\<forall>o'\<in>set os. is_registered o'" and "distinct (map ob_id os)"
  shows "index_ok (replace_from_objects os ix)
    \<and> name_of (replace_from_objects os ix) = map_of (id_names (active_objects os))"
proof -
  have d: "distinct (map ob_id (active_objects os))" "distinct (map ob_name (active_objects os))"
    using assms(2) registered_names [OF assms] by (simp_all add: distinct_map_filter)
  have flag: "index_ok (iz\<lparr>ei_initialized := True\<rparr>) = index_ok iz" for iz by (simp add: index_ok_def)
  note up = fold_upsert [OF empty_index_ok d, of ix]
  have "name_of (replace_from_objects os ix) j = map_of (id_names (active_objects os)) j" for j
    using conjunct2 [OF up] by (simp add: replace_from_objects_def split: option.splits)
  then show ?thesis using conjunct1 [OF up] by (auto simp: replace_from_objects_def flag)
qed

lemma refresh_spec:
  assumes ok: "index_ok ix" and ids: "\<forall>i n. name_of ix i = Some n \<longrightarrow> i = env_id n"
    and objects: "\<forall>o'\<in>set os. is_registered o' \<and> get (ob_id o') = Some o'"
    and "distinct (map ob_id os)" and init: "ei_initialized ix"
  shows "index_ok (refresh_environment_index True get os (map ob_id (active_objects os)) ix)
    \<and> name_of (refresh_environment_index True get os (map ob_id (active_objects os)) ix)
        = map_of (id_names (active_objects os))"
proof -
  define A where "A = active_objects os"
  define L where "L = filter (\<lambda>o'. \<not> bt_contains (ei_by_id ix) (ob_id o')) A"
  define D where "D = filter (\<lambda>i. i \<notin> ob_id ` set A) (bt_keys (ei_by_id ix))"
  have in_os: "o' \<in> set os \<and> \<not> is_retired_object o'" if "o' \<in> set A" for o' using that by (simp add: A_def)
  have inL: "o' \<in> set L \<longleftrightarrow> o' \<in> set A \<and> name_of ix (ob_id o') = None" for o'
    by (auto simp: L_def bt_contains_iff)
  have A: "distinct (map ob_id A)" "distinct (map ob_name A)"
    using registered_names [of os] objects assms(4) by (simp_all add: A_def distinct_map_filter)
  have L: "distinct (map ob_id L)" "distinct (map ob_name L)"
    unfolding L_def by (rule distinct_map_filter [OF A(1)], rule distinct_map_filter [OF A(2)])
  have load: "load_appeared get (filter (\<lambda>i. \<not> bt_contains (ei_by_id ix) i) (map ob_id A)) = L"
    unfolding load_appeared_def L_def
  proof (rule map_filter_fused)
    fix o' assume "o' \<in> set A"
    then have "get (ob_id o') = Some o'" "ob_kind o' = kind_environment" "\<not> is_retired_object o'"
      using objects in_os [of o'] unfolding is_registered_def by blast+
    then show "(case get (ob_id o') of None \<Rightarrow> None
        | Some o' \<Rightarrow> if ob_kind o' = kind_environment \<and> \<not> is_retired_object o' then Some o' else None) = Some o'"
      by simp
  qed
  have refresh: "refresh_environment_index True get os (map ob_id A) ix
      = fold index_remove_id D (fold index_upsert L ix)"
    by (simp only: refresh_environment_index_def membership_delta_def init load set_map simp_thms if_False
        Let_def prod.case D_def)
  note up = fold_upsert [OF ok L]
  note rm = fold_remove [OF conjunct1 [OF up], of D]
  have name: "name_of (fold index_remove_id D (fold index_upsert L ix)) j
      = (if j \<in> set D then None
         else case map_of (id_names L) j of Some n \<Rightarrow> Some n
           | None \<Rightarrow> (case name_of ix j of None \<Rightarrow> None | Some n \<Rightarrow> if n \<in> ob_name ` set L then None else Some n))" for j
    using rm up by simp
  have inD: "j \<in> set D \<longleftrightarrow> name_of ix j \<noteq> None \<and> j \<notin> ob_id ` set A" for j
    by (auto simp: D_def set_bt_keys dom_def)
  have "name_of (fold index_remove_id D (fold index_upsert L ix)) j = map_of (id_names A) j" for j
  proof (cases "j \<in> ob_id ` set A")
    case False
    then have "map_of (id_names A) j = None" "map_of (id_names L) j = None"
      by (intro id_names_None; auto simp: inL)+
    then show ?thesis using False inD [of j] by (auto simp: name split: option.splits)
  next
    case True
    then obtain o' where o: "o' \<in> set A" "j = ob_id o'" by blast
    have want: "map_of (id_names A) j = Some (ob_name o')" using id_names_Some [OF A(1) o(1)] o(2) by simp
    have notD: "j \<notin> set D" using True inD by blast
    show ?thesis
    proof (cases "name_of ix j")
      case None
      then have "o' \<in> set L" using o by (simp add: inL)
      then show ?thesis using id_names_Some [OF L(1)] o(2) want notD by (simp add: name)
    next
      case (Some n)
      have n: "n = ob_name o'" using ids Some objects in_os [OF o(1)] o(2) by (auto simp: is_registered_def env_id_def)
      have "j \<notin> ob_id ` set L" using Some by (auto simp: inL)
      moreover have "n \<notin> ob_name ` set L"
      proof
        assume "n \<in> ob_name ` set L"
        then obtain p where p: "p \<in> set L" "ob_name p = n" by auto
        then have "ob_id p = j" using objects in_os [of p] in_os [OF o(1)] o(2) n by (auto simp: inL is_registered_def)
        with p(1) Some show False by (simp add: inL)
      qed
      ultimately show ?thesis using id_names_None [of j L] Some n want notD by (simp add: name)
    qed
  qed
  then show ?thesis unfolding A_def [symmetric] refresh using rm by (auto intro: ext)
qed

text \<open>C30. The incremental index is the full listing: when the index is consistent, a refresh that
  loads only the environments that appeared and drops those that disappeared ends with exactly the
  sorted names that a rebuild from every environment object gives, and stays consistent.\<close>
theorem incremental_refresh_is_rebuild:
  assumes "index_ok ix" and "\<forall>i n. name_of ix i = Some n \<longrightarrow> i = env_id n"
    and "\<forall>o'\<in>set os. is_registered o' \<and> get (ob_id o') = Some o'" and "distinct (map ob_id os)"
    and "ei_initialized ix"
  shows "sorted_names (refresh_environment_index True get os (map ob_id (active_objects os)) ix)
      = sorted_names (replace_from_objects os index_default)
    \<and> set (sorted_names (replace_from_objects os index_default)) = ob_name ` set (active_objects os)
    \<and> index_ok (refresh_environment_index True get os (map ob_id (active_objects os)) ix)"
proof -
  note fresh = refresh_spec [OF assms]
  have rebuilt: "index_ok (replace_from_objects os index_default)
      \<and> name_of (replace_from_objects os index_default) = map_of (id_names (active_objects os))"
    using replace_spec [of os] assms(3,4) by blast
  have "ran (map_of (id_names (active_objects os))) = ob_name ` set (active_objects os)"
    using assms(4) by (subst ran_distinct) (auto simp: comp_def distinct_map_filter image_image)
  then show ?thesis
    using same_names [of _ "replace_from_objects os index_default"] fresh rebuilt
      index_names [OF conjunct1 [OF rebuilt]] by metis
qed

definition demo_environment :: "string \<Rightarrow> Object" where
  "demo_environment name = \<lparr>ob_id = env_id name, ob_kind = kind_environment, ob_name = name,
     ob_namespace = [], ob_external_id = [], ob_properties = Map.empty, ob_created = 0, ob_updated = 0\<rparr>"

theorem incremental_refresh_is_rebuild_witness:
  "sorted_names (refresh_environment_index True
       (\<lambda>i. if i = env_id ''prod'' then Some (demo_environment ''prod'')
            else if i = env_id ''dev'' then Some (demo_environment ''dev'') else None)
       [demo_environment ''prod'', demo_environment ''dev''] [env_id ''prod'', env_id ''dev'']
       (replace_from_objects [demo_environment ''prod'', demo_environment ''old''] index_default))
     = [''dev'', ''prod'']"
proof -
  let ?get = "\<lambda>i. if i = env_id ''prod'' then Some (demo_environment ''prod'')
            else if i = env_id ''dev'' then Some (demo_environment ''dev'') else None"
  let ?ix = "replace_from_objects [demo_environment ''prod'', demo_environment ''old''] index_default"
  let ?os = "[demo_environment ''prod'', demo_environment ''dev'']"
  have live: "\<not> is_retired_object (demo_environment n)" for n
    by (simp add: is_retired_object_def retirement_from_properties_def demo_environment_def)
  have reg: "is_registered (demo_environment n)" for n by (simp add: is_registered_def demo_environment_def)
  have old: "index_ok ?ix \<and> name_of ?ix = map_of (id_names (active_objects [demo_environment ''prod'', demo_environment ''old'']))"
    by (rule replace_spec) (simp_all add: reg, simp add: demo_environment_def env_id_def)
  have ids: "\<forall>i n. name_of ?ix i = Some n \<longrightarrow> i = env_id n"
    using old by (auto simp: live demo_environment_def split: if_splits)
  have init: "ei_initialized ?ix" by (simp add: replace_from_objects_def)
  have oid: "ob_id (demo_environment n) = env_id n" for n by (simp add: demo_environment_def)
  have os: "\<forall>o'\<in>set ?os. is_registered o' \<and> ?get (ob_id o') = Some o'" "distinct (map ob_id ?os)"
    by (simp_all add: reg oid env_id_def)
  have "sorted_names (replace_from_objects ?os index_default) = [''dev'', ''prod'']" by code_simp
  then show ?thesis
    using incremental_refresh_is_rebuild [OF conjunct1 [OF old] ids os init]
    by (simp add: live) (simp add: demo_environment_def)
qed

end
