(* ===== verification/Reconciler.thy ===== *)
theory Reconciler
  imports Reconcile_Fence Environment_Index "HOL-Library.Multiset"
begin

text \<open>
  The scheduler and the tick of \<open>src/reconciler/tick_admission.rs\<close>: which environments a tick admits,
  the backoff after a failure, the fence between hosts, and how every admitted job gives back what it
  took.  What reconciling an environment does is an argument: how each job ended.

  A duration is its number of nanoseconds.  The clock is an argument per environment and reading.
\<close>

section \<open>The scheduler\<close>

record RetryState =
  rt_failures :: u32
  rt_retry_at :: int

record SchedulerState =
  ss_in_flight :: "string set"
  ss_retries :: "string \<Rightarrow> RetryState option"

datatype TickAdmission = Tick_Started | Tick_Busy | Tick_Deferred int

record tick_config =
  tc_initial_backoff :: nat
  tc_max_backoff :: nat
  tc_max_concurrency :: nat
  tc_fence_ttl_ms :: int
  tc_instance_id :: string

definition reconciler_new :: "tick_config \<Rightarrow> string + tick_config" where
  "reconciler_new config =
     bind_r (ensure (tc_initial_backoff config \<noteq> 0) ''initial reconciler backoff must be greater than zero'') (\<lambda>_.
     bind_r (ensure (tc_initial_backoff config \<le> tc_max_backoff config)
       ''maximum reconciler backoff must not be smaller than the initial backoff'') (\<lambda>_.
     bind_r (ensure (tc_max_concurrency config \<noteq> 0)
       ''reconciler maximum concurrency must be greater than zero'') (\<lambda>_.
     bind_r (ensure (0 < tc_fence_ttl_ms config) ''reconciler fence TTL must be greater than zero'') (\<lambda>_.
     bind_r (ensure (trim (tc_instance_id config) \<noteq> []) ''reconciler instance_id must not be empty'') (\<lambda>_.
     Inr config)))))"

definition duration_max :: nat where
  "duration_max = (2 ^ 64 - 1) * 10 ^ 9 + 999999999"

definition duration_saturating_mul :: "nat \<Rightarrow> nat \<Rightarrow> nat" where
  "duration_saturating_mul d m = min (d * m) duration_max"

definition duration_millis :: "nat \<Rightarrow> int" where
  "duration_millis d = (let ms = int (d div 10 ^ 6) in if ms \<le> i64_max then ms else i64_max)"

definition scheduler_begin :: "string \<Rightarrow> int \<Rightarrow> SchedulerState \<Rightarrow> TickAdmission \<times> SchedulerState" where
  "scheduler_begin environment now s =
     (if environment \<in> ss_in_flight s then (Tick_Busy, s)
      else case ss_retries s environment of
        Some retry \<Rightarrow>
          (if now < rt_retry_at retry then (Tick_Deferred (rt_retry_at retry), s)
           else (Tick_Started, s\<lparr>ss_in_flight := insert environment (ss_in_flight s)\<rparr>))
      | None \<Rightarrow> (Tick_Started, s\<lparr>ss_in_flight := insert environment (ss_in_flight s)\<rparr>))"

definition backoff_delay :: "tick_config \<Rightarrow> u32 \<Rightarrow> int" where
  "backoff_delay config failures =
     (let multiplier = 2 ^ min (unat failures - 1) 31;
          delay = min (duration_saturating_mul (tc_initial_backoff config) multiplier) (tc_max_backoff config)
      in duration_millis delay)"

definition scheduler_finish ::
  "tick_config \<Rightarrow> string \<Rightarrow> bool \<Rightarrow> int \<Rightarrow> SchedulerState \<Rightarrow> SchedulerState" where
  "scheduler_finish config environment succeeded now s =
     (let s = s\<lparr>ss_in_flight := ss_in_flight s - {environment}\<rparr> in
      if succeeded then s\<lparr>ss_retries := (ss_retries s)(environment := None)\<rparr>
      else
        (let failures = (case ss_retries s environment of
               None \<Rightarrow> 1 | Some retry \<Rightarrow> saturating_succ (rt_failures retry));
             delay = backoff_delay config failures
         in s\<lparr>ss_retries := (ss_retries s)(environment :=
                Some \<lparr>rt_failures = failures, rt_retry_at = i64_saturating_add now delay\<rparr>)\<rparr>))"

section \<open>A tick\<close>

datatype EnvironmentStatus =
    Env_Current
  | Env_Applied string nat
  | Env_AwaitingRuntime string nat
  | Env_AwaitingApproval string nat
  | Env_Held string nat string string
  | Env_Failed string
  | Env_Deferred int
  | Env_Busy

record tick_state =
  tk_scheduler :: SchedulerState
  tk_claims :: claims

datatype tick_decision = Tick_Report EnvironmentStatus | Tick_Spawn "FenceGuard option"

type_synonym tick_clock = "string \<Rightarrow> nat \<Rightarrow> int"

fun fence_error_text :: "FenceError \<Rightarrow> string" where
  "fence_error_text InvalidIdentity = ''reconcile fence owner or environment must not be empty''"
| "fence_error_text InvalidExpiry = ''reconcile fence expiry must be in the future''"

definition tick_admit ::
  "tick_config \<Rightarrow> bool \<Rightarrow> tick_clock \<Rightarrow> string \<Rightarrow> tick_state \<Rightarrow> tick_decision \<times> tick_state" where
  "tick_admit config fenced clock name st =
     (case scheduler_begin name (clock name 0) (tk_scheduler st) of
        (Tick_Busy, s) \<Rightarrow> (Tick_Report Env_Busy, st\<lparr>tk_scheduler := s\<rparr>)
      | (Tick_Deferred retry_at, s) \<Rightarrow> (Tick_Report (Env_Deferred retry_at), st\<lparr>tk_scheduler := s\<rparr>)
      | (Tick_Started, s) \<Rightarrow>
          (if \<not> fenced then (Tick_Spawn None, st\<lparr>tk_scheduler := s\<rparr>)
           else case fence_try_begin (tk_claims st) name (tc_instance_id config) (clock name 1)
                  (tc_fence_ttl_ms config) of
             (Inr (Fence_Started generation), cl) \<Rightarrow>
               (Tick_Spawn (Some (fence_guard_new name (tc_instance_id config) generation)),
                st\<lparr>tk_scheduler := s, tk_claims := cl\<rparr>)
           | (Inl e, cl) \<Rightarrow>
               (Tick_Report (Env_Failed (''reconcile fence: '' @ fence_error_text e)),
                st\<lparr>tk_scheduler := scheduler_finish config name False (clock name 2) s, tk_claims := cl\<rparr>)
           | (Inr _, cl) \<Rightarrow>
               (Tick_Report Env_Busy,
                st\<lparr>tk_scheduler := scheduler_finish config name True (clock name 2) s, tk_claims := cl\<rparr>)))"

datatype job_end = Job_Ok EnvironmentStatus | Job_Err string | Job_Panicked string

definition job_succeeded :: "job_end \<Rightarrow> bool" where
  "job_succeeded e = (case e of Job_Ok _ \<Rightarrow> True | _ \<Rightarrow> False)"

definition tick_complete ::
  "tick_config \<Rightarrow> tick_clock \<Rightarrow> string \<Rightarrow> FenceGuard option \<Rightarrow> job_end \<Rightarrow> tick_state \<Rightarrow> tick_state" where
  "tick_complete config clock name guard e st =
     (let s = scheduler_finish config name (job_succeeded e) (clock name 3) (tk_scheduler st);
          cl = (case guard of None \<Rightarrow> tk_claims st
                | Some g \<Rightarrow> fence_guard_drop g (tk_claims st) (clock name 4))
      in st\<lparr>tk_scheduler := s, tk_claims := cl\<rparr>)"

definition job_result :: "string \<Rightarrow> job_end \<Rightarrow> string \<times> EnvironmentStatus" where
  "job_result name e = (case e of
     Job_Ok status \<Rightarrow> (name, status)
   | Job_Err error \<Rightarrow> (name, Env_Failed error)
   | Job_Panicked error \<Rightarrow>
       (''unknown'', Env_Failed (''reconciler environment task failed: '' @ error)))"

text \<open>
  A tick in progress: the environments still to admit, the jobs that run, what the admissions
  reported and what the finished jobs reported.  A job runs beside the admission loop, so a tick is
  any interleaving of the loop's iterations with the ends of jobs.
\<close>
record tick_run =
  tr_todo :: "string list"
  tr_jobs :: "(string \<times> FenceGuard option) list"
  tr_report :: "(string \<times> EnvironmentStatus) list"
  tr_joined :: "(string \<times> EnvironmentStatus) list"
  tr_state :: tick_state

definition tick_start :: "string list \<Rightarrow> tick_state \<Rightarrow> tick_run" where
  "tick_start names st = \<lparr>tr_todo = names, tr_jobs = [], tr_report = [], tr_joined = [], tr_state = st\<rparr>"

definition admit_next :: "tick_config \<Rightarrow> bool \<Rightarrow> tick_clock \<Rightarrow> tick_run \<Rightarrow> tick_run" where
  "admit_next config fenced clock r =
     (case tr_todo r of
        [] \<Rightarrow> r
      | name # names \<Rightarrow>
          (case tick_admit config fenced clock name (tr_state r) of
             (Tick_Report status, st) \<Rightarrow>
               r\<lparr>tr_todo := names, tr_report := tr_report r @ [(name, status)], tr_state := st\<rparr>
           | (Tick_Spawn guard, st) \<Rightarrow>
               r\<lparr>tr_todo := names, tr_jobs := tr_jobs r @ [(name, guard)], tr_state := st\<rparr>))"

definition job_finishes ::
  "tick_config \<Rightarrow> tick_clock \<Rightarrow> string \<Rightarrow> FenceGuard option \<Rightarrow> job_end \<Rightarrow> tick_run \<Rightarrow> tick_run" where
  "job_finishes config clock name guard e r =
     r\<lparr>tr_jobs := remove1 (name, guard) (tr_jobs r), tr_joined := tr_joined r @ [job_result name e],
       tr_state := tick_complete config clock name guard e (tr_state r)\<rparr>"

definition tick_finished :: "tick_run \<Rightarrow> bool" where
  "tick_finished r \<longleftrightarrow> tr_todo r = [] \<and> tr_jobs r = []"

definition tick_report :: "tick_run \<Rightarrow> (string \<times> EnvironmentStatus) list" where
  "tick_report r = sort_key fst (tr_report r @ tr_joined r)"

inductive tick_step ::
  "tick_config \<Rightarrow> bool \<Rightarrow> tick_clock \<Rightarrow> (string \<Rightarrow> job_end) \<Rightarrow> tick_run \<Rightarrow> tick_run \<Rightarrow> bool"
  for config fenced clock ends where
  step_admit: "tr_todo r \<noteq> [] \<Longrightarrow> tick_step config fenced clock ends r (admit_next config fenced clock r)"
| step_join: "(name, guard) \<in> set (tr_jobs r) \<Longrightarrow>
    tick_step config fenced clock ends r (job_finishes config clock name guard (ends name) r)"

text \<open>Between two steps of this host, others may change the shared claims in any way.\<close>
inductive tick_runs ::
  "tick_config \<Rightarrow> bool \<Rightarrow> tick_clock \<Rightarrow> (string \<Rightarrow> job_end) \<Rightarrow> tick_run \<Rightarrow> nat \<Rightarrow> tick_run \<Rightarrow> bool"
  for config fenced clock ends where
  runs_refl: "tick_runs config fenced clock ends r 0 r"
| runs_step: "tick_runs config fenced clock ends r n r' \<Longrightarrow> tick_step config fenced clock ends r' r''
    \<Longrightarrow> tick_runs config fenced clock ends r (Suc n) r''"
| runs_other: "tick_runs config fenced clock ends r n r' \<Longrightarrow>
    tick_runs config fenced clock ends r n (r'\<lparr>tr_state := (tr_state r')\<lparr>tk_claims := claims\<rparr>\<rparr>)"

section \<open>Reports and diagnostics\<close>

definition is_failed :: "EnvironmentStatus \<Rightarrow> bool" where
  "is_failed status = (case status of Env_Failed _ \<Rightarrow> True | _ \<Rightarrow> False)"

definition is_waiting :: "EnvironmentStatus \<Rightarrow> bool" where
  "is_waiting status = (case status of Env_Busy \<Rightarrow> True | Env_Deferred _ \<Rightarrow> True | Env_Held _ _ _ _ \<Rightarrow> True
     | _ \<Rightarrow> False)"

definition report_failures :: "(string \<times> EnvironmentStatus) list \<Rightarrow> nat" where
  "report_failures report = length (filter (\<lambda>result. is_failed (snd result)) report)"

definition report_successes :: "(string \<times> EnvironmentStatus) list \<Rightarrow> nat" where
  "report_successes report =
     length report - report_failures report - length (filter (\<lambda>result. is_waiting (snd result)) report)"

record TickDiagnostics =
  td_total :: nat
  td_failed :: nat
  td_busy :: nat
  td_deferred :: nat
  td_applied :: nat
  td_current :: nat
  td_awaiting_runtime :: nat
  td_awaiting_approval :: nat
  td_held :: nat
  td_outcome :: string

fun count_status :: "TickDiagnostics \<Rightarrow> EnvironmentStatus \<Rightarrow> TickDiagnostics" where
  "count_status d (Env_Failed _) = d\<lparr>td_failed := td_failed d + 1\<rparr>"
| "count_status d Env_Busy = d\<lparr>td_busy := td_busy d + 1\<rparr>"
| "count_status d (Env_Deferred _) = d\<lparr>td_deferred := td_deferred d + 1\<rparr>"
| "count_status d (Env_Applied _ _) = d\<lparr>td_applied := td_applied d + 1\<rparr>"
| "count_status d Env_Current = d\<lparr>td_current := td_current d + 1\<rparr>"
| "count_status d (Env_AwaitingRuntime _ _) = d\<lparr>td_awaiting_runtime := td_awaiting_runtime d + 1\<rparr>"
| "count_status d (Env_AwaitingApproval _ _) = d\<lparr>td_awaiting_approval := td_awaiting_approval d + 1\<rparr>"
| "count_status d (Env_Held _ _ _ _) = d\<lparr>td_held := td_held d + 1\<rparr>"

definition no_counts :: TickDiagnostics where
  "no_counts = \<lparr>td_total = 0, td_failed = 0, td_busy = 0, td_deferred = 0, td_applied = 0, td_current = 0,
     td_awaiting_runtime = 0, td_awaiting_approval = 0, td_held = 0, td_outcome = []\<rparr>"

definition tick_diagnostics :: "(string \<times> EnvironmentStatus) list \<Rightarrow> TickDiagnostics" where
  "tick_diagnostics report =
     (let d = foldl count_status no_counts (map snd report) in
      d\<lparr>td_total := length report, td_outcome := (if td_failed d = 0 then ''ok'' else ''degraded'')\<rparr>)"

record ReconcileDiagnostics =
  rd_ticks_total :: u64
  rd_ticks_failed :: u64
  rd_last_outcome :: string
  rd_last_total :: nat
  rd_last_failed :: nat
  rd_busy_total :: u64

definition u64_saturating_add :: "u64 \<Rightarrow> u64 \<Rightarrow> u64" where
  "u64_saturating_add a b = (if unat a + unat b < 2 ^ 64 then a + b else - 1)"

definition record_tick ::
  "(string \<times> EnvironmentStatus) list \<Rightarrow> ReconcileDiagnostics \<Rightarrow> ReconcileDiagnostics" where
  "record_tick report s =
     (let s = s\<lparr>rd_ticks_total := saturating_succ (rd_ticks_total s)\<rparr>;
          diag = tick_diagnostics report;
          s = (if 0 < td_failed diag then s\<lparr>rd_ticks_failed := saturating_succ (rd_ticks_failed s)\<rparr> else s)
      in s\<lparr>rd_last_outcome := td_outcome diag, rd_last_total := td_total diag,
           rd_last_failed := td_failed diag,
           rd_busy_total := u64_saturating_add (rd_busy_total s) (of_nat (td_busy diag))\<rparr>)"

definition record_tick_error :: "ReconcileDiagnostics \<Rightarrow> ReconcileDiagnostics" where
  "record_tick_error s =
     s\<lparr>rd_ticks_total := saturating_succ (rd_ticks_total s), rd_ticks_failed := saturating_succ (rd_ticks_failed s),
       rd_last_outcome := ''error''\<rparr>"

section \<open>Backoff\<close>

lemma duration_millis_mono: "d \<le> e \<Longrightarrow> duration_millis d \<le> duration_millis e"
  by (auto simp: duration_millis_def Let_def div_le_mono intro: order_trans)

lemma duration_millis_bound: "0 \<le> duration_millis d" "duration_millis d \<le> i64_max"
  "duration_millis d \<le> int (d div 10 ^ 6)"
  by (simp_all add: duration_millis_def Let_def i64_max_def)

lemma backoff_delay_mono:
  assumes "unat f \<le> unat g"
  shows "backoff_delay config f \<le> backoff_delay config g"
proof -
  have "(2 :: nat) ^ min (unat f - 1) 31 \<le> 2 ^ min (unat g - 1) 31"
    using assms by (intro power_increasing) auto
  then have "tc_initial_backoff config * 2 ^ min (unat f - 1) 31 \<le> tc_initial_backoff config * 2 ^ min (unat g - 1) 31"
    by (rule mult_le_mono2)
  then show ?thesis
    unfolding backoff_delay_def Let_def duration_saturating_mul_def
    by (intro duration_millis_mono min.mono) simp_all
qed

lemma backoff_delay_bounds:
  assumes "tc_initial_backoff config \<le> tc_max_backoff config" and "tc_max_backoff config \<le> duration_max"
  shows "duration_millis (tc_initial_backoff config) \<le> backoff_delay config f"
    and "backoff_delay config f \<le> duration_millis (tc_max_backoff config)"
proof -
  have "tc_initial_backoff config * 1 \<le> tc_initial_backoff config * 2 ^ min (unat f - 1) 31"
    by (rule mult_le_mono2) simp
  then show "duration_millis (tc_initial_backoff config) \<le> backoff_delay config f"
    using assms unfolding backoff_delay_def Let_def duration_saturating_mul_def
    by (intro duration_millis_mono) simp
  show "backoff_delay config f \<le> duration_millis (tc_max_backoff config)"
    unfolding backoff_delay_def Let_def by (intro duration_millis_mono) simp
qed

text \<open>Backoff is bounded and grows: with a configuration the reconciler accepts, after a
  failure the environment is retried no earlier than the initial backoff and no later than the maximal
  one after now, whatever the failure count, which saturates instead of wrapping, and the delay never
  shrinks from one failure to the next.\<close>
theorem backoff_bounded:
  assumes new: "reconciler_new settings = Inr config" and "tc_max_backoff config \<le> duration_max"
    and "is_i64 now" and "now + duration_millis (tc_max_backoff config) \<le> i64_max"
    and "ss_retries (scheduler_finish config e False now s) e = Some retry"
  shows "now + duration_millis (tc_initial_backoff config) \<le> rt_retry_at retry
    \<and> rt_retry_at retry \<le> now + duration_millis (tc_max_backoff config)
    \<and> (\<forall>before. ss_retries s e = Some before \<longrightarrow>
         rt_failures before \<le> rt_failures retry
         \<and> backoff_delay config (rt_failures before) \<le> backoff_delay config (rt_failures retry))"
proof -
  define f where "f = (case ss_retries s e of None \<Rightarrow> 1 | Some r \<Rightarrow> saturating_succ (rt_failures r))"
  have retry: "retry = \<lparr>rt_failures = f, rt_retry_at = i64_saturating_add now (backoff_delay config f)\<rparr>"
    using assms(5) by (simp add: scheduler_finish_def Let_def f_def)
  have "tc_initial_backoff config \<le> tc_max_backoff config"
    using new by (auto simp: reconciler_new_def result_simps)
  note b = backoff_delay_bounds [OF this assms(2), of f]
  have "0 \<le> backoff_delay config f" using b(1) duration_millis_bound(1) order_trans by blast
  then have "i64_saturating_add now (backoff_delay config f) = now + backoff_delay config f"
    using b(2) assms(3,4) by (simp add: i64_saturating_add_def clamp_i64_id is_i64_def)
  moreover have "rt_failures r \<le> f \<and> backoff_delay config (rt_failures r) \<le> backoff_delay config f"
    if "ss_retries s e = Some r" for r
    using that by (simp add: f_def arith_bounds backoff_delay_mono word_le_nat_alt [symmetric])
  ultimately show ?thesis using b by (simp add: retry)
qed

definition demo_config :: tick_config where
  "demo_config = \<lparr>tc_initial_backoff = 5 * 10 ^ 9, tc_max_backoff = 300 * 10 ^ 9, tc_max_concurrency = 8,
     tc_fence_ttl_ms = 30000, tc_instance_id = ''host-a''\<rparr>"

definition idle_tick :: tick_state where
  "idle_tick = \<lparr>tk_scheduler = \<lparr>ss_in_flight = {}, ss_retries = (\<lambda>_. None)\<rparr>, tk_claims = (\<lambda>_. None)\<rparr>"

theorem backoff_bounded_witness:
  "(let s = scheduler_finish demo_config ''prod'' False 1000 (tk_scheduler idle_tick);
        s' = scheduler_finish demo_config ''prod'' False 7000 s in
    rt_retry_at (the (ss_retries s ''prod'')) = 6000
    \<and> rt_retry_at (the (ss_retries s' ''prod'')) = 17000
    \<and> rt_failures (the (ss_retries s ''prod'')) \<le> rt_failures (the (ss_retries s' ''prod'')))"
proof -
  let ?s = "scheduler_finish demo_config ''prod'' False 1000 (tk_scheduler idle_tick)"
  let ?s' = "scheduler_finish demo_config ''prod'' False 7000 ?s"
  have mul: "duration_saturating_mul (5 * 10 ^ 9) 1 = 5 * 10 ^ 9" "duration_saturating_mul (5 * 10 ^ 9) 2 = 10 ^ 10"
    by (simp_all add: duration_saturating_mul_def duration_max_def)
  have ms: "duration_millis (5 * 10 ^ 9) = 5000" "duration_millis (10 ^ 10) = 10000"
    "duration_millis (300 * 10 ^ 9) = 300000"
    by (simp_all add: duration_millis_def i64_max_def)
  have pow: "2 ^ min (unat (1 :: u32) - 1) 31 = (1 :: nat)" "2 ^ min (unat (2 :: u32) - 1) 31 = (2 :: nat)"
    by simp_all
  have min: "min (5 * 10 ^ 9) (300 * 10 ^ 9) = (5 * 10 ^ 9 :: nat)" "min (10 ^ 10) (300 * 10 ^ 9) = (10 ^ 10 :: nat)"
    by simp_all
  have delay: "backoff_delay demo_config 1 = 5000" "backoff_delay demo_config 2 = 10000"
    unfolding backoff_delay_def Let_def pow by (simp_all only: demo_config_def tick_config.simps mul min ms)
  have s: "ss_retries ?s ''prod'' = Some \<lparr>rt_failures = 1, rt_retry_at = 6000\<rparr>"
    by (simp add: scheduler_finish_def Let_def idle_tick_def delay i64_saturating_add_def clamp_i64_def
        i64_max_def i64_min_def)
  have s': "ss_retries ?s' ''prod'' = Some \<lparr>rt_failures = 2, rt_retry_at = 17000\<rparr>"
    using s by (simp add: scheduler_finish_def [of _ _ _ 7000] Let_def delay saturating_succ_def
        i64_saturating_add_def clamp_i64_def i64_max_def i64_min_def)
  have h: "tc_max_backoff demo_config \<le> duration_max" "is_i64 7000"
      "7000 + duration_millis (tc_max_backoff demo_config) \<le> i64_max"
    by (simp_all add: demo_config_def duration_max_def is_i64_def i64_min_def i64_max_def duration_millis_def)
  have "trim ''host-a'' \<noteq> []" by code_simp
  then have n: "reconciler_new demo_config = Inr demo_config"
    by (simp add: reconciler_new_def demo_config_def result_simps)
  show ?thesis using backoff_bounded [OF n h s'] s s' by (simp add: Let_def)
qed

section \<open>What a tick takes it gives back\<close>

definition guard_ok :: "tick_config \<Rightarrow> bool \<Rightarrow> string \<times> FenceGuard option \<Rightarrow> bool" where
  "guard_ok config fenced job = (case snd job of
     None \<Rightarrow> \<not> fenced
   | Some g \<Rightarrow> fenced \<and> fg_environment g = fst job \<and> fg_owner g = tc_instance_id config \<and> \<not> fg_released g)"

definition panicked :: "(string \<Rightarrow> job_end) \<Rightarrow> string \<Rightarrow> bool" where
  "panicked ends name = (case ends name of Job_Panicked _ \<Rightarrow> True | _ \<Rightarrow> False)"

definition tick_inv ::
  "tick_config \<Rightarrow> bool \<Rightarrow> (string \<Rightarrow> job_end) \<Rightarrow> string list \<Rightarrow> string set \<Rightarrow> tick_run \<Rightarrow> bool" where
  "tick_inv config fenced ends names busy r \<longleftrightarrow>
     distinct (tr_todo r @ map fst (tr_jobs r))
     \<and> busy \<inter> set (map fst (tr_jobs r)) = {}
     \<and> ss_in_flight (tk_scheduler (tr_state r)) = busy \<union> set (map fst (tr_jobs r))
     \<and> set (map fst (tr_jobs r)) \<subseteq> set names \<and> set (tr_todo r) \<subseteq> set names
     \<and> length names = length (tr_todo r) + length (tr_jobs r) + length (tr_report r) + length (tr_joined r)
     \<and> list_all (guard_ok config fenced) (tr_jobs r)
     \<and> ((\<forall>name \<in> set names. \<not> panicked ends name) \<longrightarrow>
          mset names = mset (tr_todo r) + mset (map fst (tr_jobs r)) + mset (map fst (tr_report r))
            + mset (map fst (tr_joined r)))"

lemma scheduler_begin_cases:
  assumes "scheduler_begin e now s = (a, s')"
  obtains "a = Tick_Started" and "e \<notin> ss_in_flight s" and "s' = s\<lparr>ss_in_flight := insert e (ss_in_flight s)\<rparr>"
      and "\<forall>retry. ss_retries s e = Some retry \<longrightarrow> rt_retry_at retry \<le> now"
    | "a \<noteq> Tick_Started" and "s' = s"
  using assms by (auto simp: scheduler_begin_def split: if_splits option.splits)

lemma scheduler_finish_in_flight [simp]:
  "ss_in_flight (scheduler_finish config e ok now s) = ss_in_flight s - {e}"
  by (simp add: scheduler_finish_def Let_def)

lemma tick_admit_cases:
  assumes "tick_admit config fenced clock name st = (d, st')"
  obtains (spawn) g where "d = Tick_Spawn g" and "name \<notin> ss_in_flight (tk_scheduler st)"
      and "ss_in_flight (tk_scheduler st') = insert name (ss_in_flight (tk_scheduler st))"
      and "guard_ok config fenced (name, g)"
    | (report) status where "d = Tick_Report status"
      and "ss_in_flight (tk_scheduler st') = ss_in_flight (tk_scheduler st)"
proof -
  obtain a s where b: "scheduler_begin name (clock name 0) (tk_scheduler st) = (a, s)" by fastforce
  show thesis
  proof (rule scheduler_begin_cases [OF b])
    assume a: "a = Tick_Started" "name \<notin> ss_in_flight (tk_scheduler st)"
      "s = tk_scheduler st\<lparr>ss_in_flight := insert name (ss_in_flight (tk_scheduler st))\<rparr>"
    obtain o' cl where f: "fence_try_begin (tk_claims st) name (tc_instance_id config) (clock name (Suc 0))
        (tc_fence_ttl_ms config) = (o', cl)" by fastforce
    show thesis
    proof (cases "\<exists>generation. fenced \<longrightarrow> o' = Inr (Fence_Started generation)")
      case True
      then show thesis using spawn assms a
        by (cases fenced) (auto simp: tick_admit_def b f guard_ok_def fence_guard_new_def)
    next
      case False
      then have "\<exists>status. d = Tick_Report status"
        and "ss_in_flight (tk_scheduler st') = ss_in_flight (tk_scheduler st)"
        using assms a by (auto simp: tick_admit_def b f split: sum.splits FenceAdmission.splits)
      then show thesis using report by blast
    qed
  next
    assume "a \<noteq> Tick_Started" "s = tk_scheduler st"
    then show thesis using report assms by (cases a) (auto simp: tick_admit_def b)
  qed
qed

lemma admit_next_inv:
  assumes inv: "tick_inv config fenced ends names busy r" and todo: "tr_todo r = name # rest"
  shows "tick_inv config fenced ends names busy (admit_next config fenced clock r)"
proof -
  obtain d st where d: "tick_admit config fenced clock name (tr_state r) = (d, st)" by fastforce
  from d show ?thesis
  proof (cases rule: tick_admit_cases)
    case (spawn g)
    then show ?thesis using inv d todo by (auto simp: tick_inv_def admit_next_def)
  next
    case (report status)
    then show ?thesis using inv d todo by (auto simp: tick_inv_def admit_next_def)
  qed
qed

lemma map_fst_remove1:
  assumes "distinct (map fst xs)" and "(k, v) \<in> set xs"
  shows "map fst (remove1 (k, v) xs) = remove1 k (map fst xs)"
  using assms
proof (induction xs)
  case (Cons x xs)
  show ?case
  proof (cases "x = (k, v)")
    case False
    with Cons.prems have in_xs: "(k, v) \<in> set xs" by simp
    then have "k \<in> set (map fst xs)" by force
    with Cons.prems(1) have "fst x \<noteq> k" by auto
    with Cons False in_xs show ?thesis by simp
  qed simp
qed simp

lemma job_finishes_inv:
  assumes inv: "tick_inv config fenced ends names busy r" and job: "(name, guard) \<in> set (tr_jobs r)"
  shows "tick_inv config fenced ends names busy (job_finishes config clock name guard (ends name) r)"
proof -
  define jobs where "jobs = remove1 (name, guard) (tr_jobs r)"
  define ns where "ns = map fst (tr_jobs r)"
  have i: "distinct (tr_todo r @ ns)" "busy \<inter> set ns = {}"
    "ss_in_flight (tk_scheduler (tr_state r)) = busy \<union> set ns" "set ns \<subseteq> set names" "set (tr_todo r) \<subseteq> set names"
    "length names = length (tr_todo r) + length (tr_jobs r) + length (tr_report r) + length (tr_joined r)"
    "list_all (guard_ok config fenced) (tr_jobs r)"
    using inv unfolding tick_inv_def ns_def by blast+
  have n: "name \<in> set ns" using job by (force simp: ns_def)
  have m: "map fst jobs = remove1 name ns"
    using map_fst_remove1 [OF _ job] i(1) by (simp add: jobs_def ns_def)
  have set_m: "set (map fst jobs) = set ns - {name}" unfolding m using i(1) by (intro set_remove1_eq) simp
  have 1: "distinct (tr_todo r @ map fst jobs)"
    using i(1) set_m unfolding distinct_append by (auto simp: m)
  have 2: "length (tr_jobs r) = length jobs + 1"
    using job length_pos_if_in_set [OF job] by (simp add: jobs_def length_remove1)
  have 3: "list_all (guard_ok config fenced) jobs"
    using i(7) set_remove1_subset [of "(name, guard)" "tr_jobs r"] by (auto simp: list_all_iff jobs_def)
  have p: "fst (job_result name (ends name)) = name" if "\<not> panicked ends name"
    using that by (auto simp: panicked_def job_result_def split: job_end.splits)
  have ms: "mset ns = mset (map fst jobs) + {#name#}" using n by (simp add: m)
  have 4: "mset names = mset (tr_todo r) + mset (map fst jobs) + mset (map fst (tr_report r))
      + mset (map fst (tr_joined r @ [job_result name (ends name)]))"
    if np: "\<forall>name \<in> set names. \<not> panicked ends name"
  proof -
    have "mset names = mset (tr_todo r) + mset ns + mset (map fst (tr_report r)) + mset (map fst (tr_joined r))"
      using inv np unfolding tick_inv_def ns_def by blast
    moreover have "fst (job_result name (ends name)) = name" using np n i(4) p by blast
    ultimately show ?thesis by (simp add: ms)
  qed
  have 5: "ss_in_flight (tk_scheduler (tick_complete config clock name guard (ends name) (tr_state r)))
      = busy \<union> (set ns - {name})"
    using i(2,3) n by (auto simp: tick_complete_def Let_def)
  show ?thesis
    using 1 2 3 4 5 i(2,4,5,6) unfolding tick_inv_def job_finishes_def jobs_def [symmetric]
    by (simp add: set_m del: set_map) blast
qed


lemma tick_step_inv:
  assumes "tick_step config fenced clock ends r r'" and "tick_inv config fenced ends names busy r"
  shows "tick_inv config fenced ends names busy r'"
  using assms(1)
proof cases
  case step_admit
  then obtain name rest where "tr_todo r = name # rest" by (cases "tr_todo r") auto
  then show ?thesis using admit_next_inv [OF assms(2)] step_admit by simp
next
  case (step_join name guard)
  then show ?thesis using job_finishes_inv [OF assms(2)] by simp
qed

lemma tick_inv_claims:
  "tick_inv config fenced ends names busy (r\<lparr>tr_state := (tr_state r)\<lparr>tk_claims := claims\<rparr>\<rparr>)
     = tick_inv config fenced ends names busy r"
  by (simp add: tick_inv_def)

lemma tick_runs_inv:
  assumes "tick_runs config fenced clock ends r n r'" and "tick_inv config fenced ends names busy r"
  shows "tick_inv config fenced ends names busy r'"
  using assms by induction (simp_all add: tick_inv_claims tick_step_inv)

lemma tick_start_inv:
  "distinct names \<Longrightarrow>
     tick_inv config fenced ends names (ss_in_flight (tk_scheduler st)) (tick_start names st)"
  by (simp add: tick_inv_def tick_start_def)

definition tick_measure :: "tick_run \<Rightarrow> nat" where
  "tick_measure r = 2 * length (tr_todo r) + length (tr_jobs r)"

lemma tick_step_measure:
  assumes "tick_step config fenced clock ends r r'"
  shows "tick_measure r' < tick_measure r"
  using assms
proof cases
  case step_admit
  then obtain name rest where t: "tr_todo r = name # rest" by (cases "tr_todo r") auto
  obtain d st where "tick_admit config fenced clock name (tr_state r) = (d, st)" by fastforce
  then show ?thesis using step_admit(1) t by (cases d) (simp_all add: admit_next_def tick_measure_def)
next
  case (step_join name guard)
  then show ?thesis using length_pos_if_in_set [OF step_join(2)]
    by (simp add: job_finishes_def tick_measure_def length_remove1)
qed

lemma tick_runs_measure:
  assumes "tick_runs config fenced clock ends r n r'"
  shows "n + tick_measure r' \<le> tick_measure r"
  using assms
proof induction
  case (runs_step r n r' r'')
  then show ?case using tick_step_measure [OF runs_step.hyps(2)] by simp
qed (simp_all add: tick_measure_def)

lemma tick_step_enabled:
  assumes "\<not> tick_finished r"
  shows "\<exists>r'. tick_step config fenced clock ends r r'"
proof (cases "tr_todo r")
  case Nil
  with assms obtain job jobs where "tr_jobs r = job # jobs" by (cases "tr_jobs r") (auto simp: tick_finished_def)
  then have "(fst job, snd job) \<in> set (tr_jobs r)" by simp
  then show ?thesis by (blast intro: step_join)
next
  case Cons
  then have "tr_todo r \<noteq> []" by simp
  then show ?thesis using step_admit by blast
qed

lemma tick_reaches_end:
  assumes "tick_runs config fenced clock ends r n r'"
  shows "\<exists>m r''. tick_runs config fenced clock ends r m r'' \<and> tick_finished r''"
  using assms
proof (induction "tick_measure r'" arbitrary: n r' rule: less_induct)
  case less
  show ?case
  proof (cases "tick_finished r'")
    case False
    then obtain r'' where s: "tick_step config fenced clock ends r' r''" using tick_step_enabled by blast
    show ?thesis by (rule less.hyps [OF tick_step_measure [OF s] runs_step [OF less.prems s]])
  qed (use less.prems in blast)
qed

text \<open>C9. A tick takes nothing that it does not give back: however its admissions, the ends of its jobs
  and the other hosts' use of the fence interleave, and whether jobs succeed, fail or panic, when it is
  over exactly the environments in flight before it are in flight, it reports one result per
  environment it was given, and when no job panicked the report names those environments in order.\<close>
theorem tick_gives_back:
  assumes "distinct names" and "tick_runs config fenced clock ends (tick_start names st) n r" and "tick_finished r"
  shows "ss_in_flight (tk_scheduler (tr_state r)) = ss_in_flight (tk_scheduler st)
    \<and> length (tick_report r) = length names
    \<and> ((\<forall>name \<in> set names. \<not> panicked ends name) \<longrightarrow> map fst (tick_report r) = sort names)"
proof -
  have inv: "tick_inv config fenced ends names (ss_in_flight (tk_scheduler st)) r"
    using tick_runs_inv [OF assms(2) tick_start_inv [OF assms(1)]] .
  have e: "tr_todo r = []" "tr_jobs r = []" using assms(3) by (simp_all add: tick_finished_def)
  have "map fst (tick_report r) = sort names" if "\<forall>name \<in> set names. \<not> panicked ends name"
  proof (rule properties_for_sort [symmetric])
    show "mset (map fst (tick_report r)) = mset names"
      using inv that e by (simp add: tick_inv_def tick_report_def)
    show "sorted (map fst (tick_report r))" by (simp add: tick_report_def)
  qed
  with inv e show ?thesis by (simp add: tick_inv_def tick_report_def)
qed



definition small_config :: tick_config where
  "small_config = \<lparr>tc_initial_backoff = 5, tc_max_backoff = 10, tc_max_concurrency = 8,
     tc_fence_ttl_ms = 30000, tc_instance_id = ''host-a''\<rparr>"

definition demo_clock :: tick_clock where "demo_clock name n = 1000 + int n"

definition demo_ends :: "string \<Rightarrow> job_end" where
  "demo_ends name = (if name = ''blue'' then Job_Err ''unreachable'' else Job_Ok Env_Current)"

definition demo_admitted :: tick_run where
  "demo_admitted = admit_next small_config True demo_clock
     (admit_next small_config True demo_clock (tick_start [''blue'', ''green''] idle_tick))"

definition demo_joined :: "tick_run" where
  "demo_joined = (let guard = (\<lambda>name. Some (fence_guard_new name ''host-a'' 1)) in
     job_finishes small_config demo_clock ''blue'' (guard ''blue'') (demo_ends ''blue'')
       (job_finishes small_config demo_clock ''green'' (guard ''green'') (demo_ends ''green'') demo_admitted))"

lemma demo_admitted_parts:
  "tr_todo demo_admitted = []"
  "tr_jobs demo_admitted = [(''blue'', Some (fence_guard_new ''blue'' ''host-a'' 1)),
     (''green'', Some (fence_guard_new ''green'' ''host-a'' 1))]"
  by code_simp+

lemma demo_tick_run:
  "tick_runs small_config True demo_clock demo_ends (tick_start [''blue'', ''green''] idle_tick) 2 demo_admitted"
  "tick_runs small_config True demo_clock demo_ends (tick_start [''blue'', ''green''] idle_tick) 4 demo_joined"
proof -
  let ?start = "tick_start [''blue'', ''green''] idle_tick"
  let ?runs = "tick_runs small_config True demo_clock demo_ends ?start"
  let ?g = "\<lambda>name. Some (fence_guard_new name ''host-a'' 1)"
  let ?mid = "job_finishes small_config demo_clock ''green'' (?g ''green'') (demo_ends ''green'') demo_admitted"
  have t: "tr_todo ?start \<noteq> []" "tr_todo (admit_next small_config True demo_clock ?start) \<noteq> []" by code_simp+
  have "?runs (Suc (Suc 0)) demo_admitted" unfolding demo_admitted_def
    by (rule runs_step [OF runs_step [OF runs_refl step_admit [OF t(1)]] step_admit [OF t(2)]])
  then have 2: "?runs 2 demo_admitted" by (simp add: numeral_2_eq_2)
  have a: "(''green'', ?g ''green'') \<in> set (tr_jobs demo_admitted)" by (simp add: demo_admitted_parts)
  have b: "(''blue'', ?g ''blue'') \<in> set (tr_jobs ?mid)" by (simp add: job_finishes_def demo_admitted_parts)
  have "?runs (Suc (Suc 2)) demo_joined" unfolding demo_joined_def Let_def
    by (rule runs_step [OF runs_step [OF 2 step_join [OF a]] step_join [OF b]])
  then show "?runs 2 demo_admitted" "?runs 4 demo_joined" using 2 by (simp_all add: eval_nat_numeral)
qed

theorem tick_gives_back_witness:
  "tick_finished demo_joined \<and> ss_in_flight (tk_scheduler (tr_state demo_joined)) = {}
    \<and> length (tick_report demo_joined) = 2"
proof -
  have "tick_finished demo_joined" 
    by (simp add: tick_finished_def demo_joined_def Let_def job_finishes_def demo_admitted_parts)
  moreover have "ss_in_flight (tk_scheduler idle_tick) = {}" by (simp add: idle_tick_def)
  ultimately show ?thesis using tick_gives_back [OF _ demo_tick_run(2)] by simp
qed


end
