(* ===== verification/Catalog_Graph.thy ===== *)
theory Catalog_Graph
  imports Expiring_Claims Store_Object Decimal
begin

text \<open>
  The catalog object graph of \<open>src/storage/catalog_graph.rs\<close>: the tenant-partitioned in-memory graph
  with its objects, links, leases, change history, actions and provider events.

  Every operation returns its result with the graph it leaves.  What an operation reads from its surroundings is the argument \<open>ambient\<close>: the clock when it
  tests a lease, the clock when it records the changes of an object, and the identifiers it draws.
  A poisoned mutex is the only failure that is left out.
\<close>

section \<open>Data\<close>

record StoredObject =
  so_id :: string
  so_kind :: string
  so_name :: string
  so_namespace :: string
  so_external_id :: string
  so_properties :: "(string, string) btree_map"
  so_created :: int
  so_updated :: int

record Link =
  ln_id :: string
  ln_from_id :: string
  ln_to_id :: string
  ln_relation :: string
  ln_created :: int

record Lease =
  le_namespace :: string
  le_key :: string
  le_generation :: u64
  le_fencing_token :: string
  le_owner :: string
  le_status :: string
  le_acquired_at_ms :: int
  le_refreshed_at_ms :: int
  le_expires_at_ms :: int
  le_released_at_ms :: int
  le_site_id :: string

record ObjectChange =
  ch_id :: string
  ch_object_id :: string
  ch_field :: string
  ch_old_value :: string
  ch_new_value :: string
  ch_changed_by :: string
  ch_timestamp :: int

record ActionOp =
  ao_op :: string
  ao_property :: string
  ao_value_from :: string
  ao_relation :: string

record ActionTypeDef =
  at_name :: string
  at_description :: string
  at_ops :: "ActionOp list"
  at_target_kind :: string
  at_created :: int
  at_required_purpose :: string

record ActionResult =
  ac_action :: string
  ac_message :: string
  ac_dry_run :: bool
  ac_planned_ops :: "string list"
  ac_decision :: string
  ac_approval_id :: string

record Decision =
  de_id :: string
  de_timestamp :: int
  de_actor :: string
  de_action :: string
  de_reason :: string
  de_evidence :: "string \<Rightarrow> string option"
  de_target_id :: string
  de_outcome :: string

record ProviderEventRecord =
  pe_id :: string
  pe_provider_kind :: string
  pe_binding_digest :: string
  pe_payload_json :: string
  pe_attempts :: u32
  pe_next_attempt_at :: int
  pe_delivered_at :: "int option"
  pe_last_error :: string
  pe_claim_token :: "string option"
  pe_claim_until :: "int option"

record FeedbackObservation =
  fo_id :: string
  fo_environment :: string
  fo_observed_at_ms :: int
  fo_content :: string

record ObjectType =
  ot_kind :: string
  ot_content :: string

record Partition =
  pt_objects :: "(string, StoredObject) btree_map"
  pt_links :: "(string, Link) btree_map"
  pt_leases :: "string \<times> string \<Rightarrow> Lease option"
  pt_schemas :: "(string, ObjectType) btree_map"
  pt_actions :: "string \<Rightarrow> ActionTypeDef option"
  pt_decisions :: "Decision list"
  pt_changes :: "string \<Rightarrow> ObjectChange list option"
  pt_events :: "string \<times> string \<Rightarrow> ProviderEventRecord option"
  pt_observations :: "(string, FeedbackObservation) btree_map"

record MemoryCatalogGraph =
  mg_partitions :: "string \<Rightarrow> Partition option"
  mg_principal :: string

record ambient =
  am_now :: int
  am_stamp :: "string \<Rightarrow> int"
  am_uuid :: "string \<Rightarrow> string \<Rightarrow> string"

datatype catalog_error =
    Already_Exists string string
  | Object_Does_Not_Exist string
  | Lease_Does_Not_Exist string string
  | Not_The_Fenced_Holder string string
  | Lease_Ttl_Not_Positive
  | Takeover_Precondition_Failed
  | Update_Is_Empty
  | Duplicate_Identities
  | Find_Needs_Kind_And_Key
  | Unsupported_Direction string
  | Linked_Object_Missing string
  | Action_Not_Registered string
  | Action_Requires string string
  | Action_Target_Missing string
  | Unsupported_Operation string
  | Event_Not_Pristine
  | Event_Conflict string
  | Tenant_Binding_Failed

definition partition_default :: Partition where
  "partition_default = \<lparr>pt_objects = [], pt_links = [], pt_leases = (\<lambda>_. None), pt_schemas = [],
     pt_actions = (\<lambda>_. None), pt_decisions = [], pt_changes = (\<lambda>_. None), pt_events = (\<lambda>_. None),
     pt_observations = []\<rparr>"

definition memory_new :: MemoryCatalogGraph where
  "memory_new = \<lparr>mg_partitions = (\<lambda>_. None), mg_principal = ''tenkai''\<rparr>"

definition tenant_key :: "string option \<Rightarrow> string" where
  "tenant_key tenant = (case tenant of None \<Rightarrow> [] | Some t \<Rightarrow> t)"

definition partition_of :: "MemoryCatalogGraph \<Rightarrow> string option \<Rightarrow> Partition" where
  "partition_of g tenant = (case mg_partitions g (tenant_key tenant) of
     None \<Rightarrow> partition_default | Some p \<Rightarrow> p)"

definition set_partition :: "MemoryCatalogGraph \<Rightarrow> string option \<Rightarrow> Partition \<Rightarrow> MemoryCatalogGraph" where
  "set_partition g tenant p = g\<lparr>mg_partitions := (mg_partitions g)(tenant_key tenant := Some p)\<rparr>"

section \<open>Change history\<close>

definition kind_environment_execution :: string where
  "kind_environment_execution = ''tenkai.environment_execution''"

definition catalog_history_retention_ms :: int where
  "catalog_history_retention_ms = 7 * 24 * 60 * 60 * 1000"

definition property_keys :: "StoredObject \<Rightarrow> StoredObject \<Rightarrow> string list" where
  "property_keys previous object = bs_of_list (bt_keys (so_properties previous) @ bt_keys (so_properties object))"

definition skip_execution_claim_heartbeat :: "StoredObject \<Rightarrow> StoredObject \<Rightarrow> bool" where
  "skip_execution_claim_heartbeat previous object \<longleftrightarrow>
     so_kind object = kind_environment_execution
     \<and> list_all (\<lambda>key. key = ''expires_at''
          \<or> bt_get (so_properties previous) key = bt_get (so_properties object) key)
        (property_keys previous object)"

definition prune_changes :: "int \<Rightarrow> string \<Rightarrow> Partition \<Rightarrow> Partition" where
  "prune_changes cutoff oid p = (case pt_changes p oid of
     None \<Rightarrow> p
   | Some changes \<Rightarrow>
       (let kept = filter (\<lambda>change. cutoff \<le> ch_timestamp change) changes in
        p\<lparr>pt_changes := (pt_changes p)(oid := (if kept = [] then None else Some kept))\<rparr>))"

definition prune_memory_execution_claim_history :: "int \<Rightarrow> Partition \<Rightarrow> Partition" where
  "prune_memory_execution_claim_history now p =
     (let cutoff = i64_saturating_sub now catalog_history_retention_ms;
          claim_ids = map so_id (filter (\<lambda>object. so_kind object = kind_environment_execution)
            (map snd (pt_objects p)))
      in fold (prune_changes cutoff) claim_ids p)"

definition value_or_empty :: "StoredObject \<Rightarrow> string \<Rightarrow> string" where
  "value_or_empty object key = (case bt_get (so_properties object) key of None \<Rightarrow> [] | Some v \<Rightarrow> v)"

definition object_changes ::
  "ambient \<Rightarrow> string \<Rightarrow> StoredObject \<Rightarrow> StoredObject \<Rightarrow> ObjectChange list" where
  "object_changes amb author previous object =
     map (\<lambda>key. \<lparr>ch_id = am_uuid amb (so_id object) key, ch_object_id = so_id object,
            ch_field = ''properties.'' @ key, ch_old_value = value_or_empty previous key,
            ch_new_value = value_or_empty object key, ch_changed_by = author,
            ch_timestamp = am_stamp amb (so_id object)\<rparr>)
       (filter (\<lambda>key. value_or_empty previous key \<noteq> value_or_empty object key)
          (property_keys previous object))"

definition push_changes :: "string \<Rightarrow> ObjectChange list \<Rightarrow> Partition \<Rightarrow> Partition" where
  "push_changes oid changes p =
     (if changes = [] then p
      else p\<lparr>pt_changes := (pt_changes p)(oid :=
             Some ((case pt_changes p oid of None \<Rightarrow> [] | Some old \<Rightarrow> old) @ changes))\<rparr>)"

definition record_memory_changes ::
  "ambient \<Rightarrow> string \<Rightarrow> StoredObject \<Rightarrow> StoredObject \<Rightarrow> Partition \<Rightarrow> Partition" where
  "record_memory_changes amb author previous object p =
     (let p = prune_memory_execution_claim_history (am_stamp amb (so_id object)) p in
      if skip_execution_claim_heartbeat previous object then p
      else push_changes (so_id object) (object_changes amb author previous object) p)"

section \<open>Objects and links\<close>

definition memory_get :: "MemoryCatalogGraph \<Rightarrow> string option \<Rightarrow> string \<Rightarrow> StoredObject option" where
  "memory_get g tenant oid = bt_get (pt_objects (partition_of g tenant)) oid"

definition insert_object :: "StoredObject \<Rightarrow> Partition \<Rightarrow> Partition" where
  "insert_object object p = p\<lparr>pt_objects := bt_insert (so_id object) object (pt_objects p)\<rparr>"

definition memory_create ::
  "string option \<Rightarrow> StoredObject \<Rightarrow> MemoryCatalogGraph \<Rightarrow> (catalog_error + StoredObject) \<times> MemoryCatalogGraph" where
  "memory_create tenant object g =
     (let p = partition_of g tenant in
      if bt_contains (pt_objects p) (so_id object) then (Inl (Already_Exists ''object'' (so_id object)), g)
      else (Inr object, set_partition g tenant (insert_object object p)))"

text \<open>The put reads the previous object and only then takes the lock, so another call may come between.\<close>
definition put_after ::
  "ambient \<Rightarrow> string option \<Rightarrow> StoredObject option \<Rightarrow> StoredObject \<Rightarrow> MemoryCatalogGraph \<Rightarrow> MemoryCatalogGraph" where
  "put_after amb tenant previous object g =
     (let p = partition_of g tenant;
          p = (case previous of None \<Rightarrow> p
               | Some previous \<Rightarrow> record_memory_changes amb (mg_principal g) previous object p)
      in set_partition g tenant (insert_object object p))"

definition memory_put ::
  "ambient \<Rightarrow> string option \<Rightarrow> StoredObject \<Rightarrow> MemoryCatalogGraph \<Rightarrow> StoredObject \<times> MemoryCatalogGraph" where
  "memory_put amb tenant object g = (object, put_after amb tenant (memory_get g tenant (so_id object)) object g)"

definition memory_delete :: "string option \<Rightarrow> string \<Rightarrow> MemoryCatalogGraph \<Rightarrow> MemoryCatalogGraph" where
  "memory_delete tenant oid g =
     (case mg_partitions g (tenant_key tenant) of
        None \<Rightarrow> g
      | Some p \<Rightarrow>
          set_partition g tenant (p\<lparr>pt_objects := bt_remove oid (pt_objects p),
            pt_links := filter (\<lambda>(_, link). ln_from_id link \<noteq> oid \<and> ln_to_id link \<noteq> oid) (pt_links p),
            pt_changes := (pt_changes p)(oid := None)\<rparr>))"

definition memory_list_kind :: "MemoryCatalogGraph \<Rightarrow> string option \<Rightarrow> string \<Rightarrow> StoredObject list" where
  "memory_list_kind g tenant kind =
     sort_key so_id (filter (\<lambda>object. so_kind object = kind) (map snd (pt_objects (partition_of g tenant))))"

definition memory_list_kind_ids :: "MemoryCatalogGraph \<Rightarrow> string option \<Rightarrow> string \<Rightarrow> string list" where
  "memory_list_kind_ids g tenant kind = map so_id (memory_list_kind g tenant kind)"

definition memory_find_by_property ::
  "MemoryCatalogGraph \<Rightarrow> string option \<Rightarrow> string \<Rightarrow> string \<Rightarrow> string \<Rightarrow> catalog_error + StoredObject list" where
  "memory_find_by_property g tenant kind key val =
     bind_r (ensure (trim kind \<noteq> [] \<and> trim key \<noteq> []) Find_Needs_Kind_And_Key) (\<lambda>_.
     Inr (filter (\<lambda>object. bt_get (so_properties object) key = Some val) (memory_list_kind g tenant kind)))"

definition memory_create_link ::
  "string option \<Rightarrow> Link \<Rightarrow> bool \<Rightarrow> MemoryCatalogGraph \<Rightarrow> (catalog_error + unit) \<times> MemoryCatalogGraph" where
  "memory_create_link tenant link fail_if_exists g =
     (let p = partition_of g tenant in
      if bt_contains (pt_links p) (ln_id link)
      then (if fail_if_exists then Inl (Already_Exists ''link'' (ln_id link)) else Inr (), g)
      else (Inr (), set_partition g tenant (p\<lparr>pt_links := bt_insert (ln_id link) link (pt_links p)\<rparr>)))"

definition memory_unlink :: "string option \<Rightarrow> string \<Rightarrow> MemoryCatalogGraph \<Rightarrow> MemoryCatalogGraph" where
  "memory_unlink tenant oid g =
     (case mg_partitions g (tenant_key tenant) of
        None \<Rightarrow> g
      | Some p \<Rightarrow> set_partition g tenant (p\<lparr>pt_links := bt_remove oid (pt_links p)\<rparr>))"

definition memory_links ::
  "MemoryCatalogGraph \<Rightarrow> string option \<Rightarrow> string \<Rightarrow> string \<Rightarrow> string \<Rightarrow> catalog_error + Link list" where
  "memory_links g tenant object_id relation direction =
     (case mg_partitions g (tenant_key tenant) of
        None \<Rightarrow> Inr []
      | Some p \<Rightarrow>
          bind_r (ensure (direction = ''out'' \<or> direction = ''in'') (Unsupported_Direction direction)) (\<lambda>_.
          Inr (sort_key ln_id (filter (\<lambda>link. ln_relation link = relation
                 \<and> (if direction = ''out'' then ln_from_id link = object_id else ln_to_id link = object_id))
               (map snd (pt_links p))))))"

definition memory_linked ::
  "MemoryCatalogGraph \<Rightarrow> string option \<Rightarrow> string \<Rightarrow> string \<Rightarrow> string \<Rightarrow> catalog_error + StoredObject list" where
  "memory_linked g tenant object_id relation direction =
     bind_r (memory_links g tenant object_id relation direction) (\<lambda>links.
     try_map (\<lambda>link.
        let oid = (if direction = ''in'' then ln_from_id link else ln_to_id link) in
        ok_or (Linked_Object_Missing oid) (memory_get g tenant oid)) links)"

section \<open>Leases\<close>

text \<open>\<open>entry(key).or_default()\<close>: an operation that fails after it leaves an empty partition behind.\<close>
definition touch :: "string option \<Rightarrow> MemoryCatalogGraph \<Rightarrow> MemoryCatalogGraph" where
  "touch tenant g = set_partition g tenant (partition_of g tenant)"

definition require_memory_lease ::
  "Partition \<Rightarrow> string \<Rightarrow> string \<Rightarrow> string \<Rightarrow> int \<Rightarrow> catalog_error + Lease" where
  "require_memory_lease p namespace key fencing_token now =
     bind_r (ok_or (Lease_Does_Not_Exist namespace key) (pt_leases p (namespace, key))) (\<lambda>lease.
     bind_r (ensure (le_status lease = ''active'' \<and> le_fencing_token lease = fencing_token
         \<and> now < le_expires_at_ms lease) (Not_The_Fenced_Holder namespace key)) (\<lambda>_.
     Inr lease))"

definition new_lease :: "string \<Rightarrow> string \<Rightarrow> u64 \<Rightarrow> string \<Rightarrow> string \<Rightarrow> int \<Rightarrow> int \<Rightarrow> Lease" where
  "new_lease namespace key generation token owner now ttl_ms =
     \<lparr>le_namespace = namespace, le_key = key, le_generation = generation, le_fencing_token = token,
      le_owner = owner, le_status = ''active'', le_acquired_at_ms = now, le_refreshed_at_ms = now,
      le_expires_at_ms = i64_saturating_add now ttl_ms, le_released_at_ms = 0, le_site_id = []\<rparr>"

definition save_lease :: "string \<Rightarrow> string \<Rightarrow> Lease \<Rightarrow> Partition \<Rightarrow> Partition" where
  "save_lease namespace key lease p = p\<lparr>pt_leases := (pt_leases p)((namespace, key) := Some lease)\<rparr>"

definition memory_acquire_lease ::
  "int \<Rightarrow> string \<Rightarrow> string option \<Rightarrow> string \<Rightarrow> string \<Rightarrow> string \<Rightarrow> int \<Rightarrow> MemoryCatalogGraph
     \<Rightarrow> (catalog_error + Lease) \<times> MemoryCatalogGraph" where
  "memory_acquire_lease now token tenant namespace key owner ttl_ms g =
     (if ttl_ms \<le> 0 then (Inl Lease_Ttl_Not_Positive, g)
      else
        (let p = partition_of g tenant;
             held = (case pt_leases p (namespace, key) of None \<Rightarrow> False
               | Some lease \<Rightarrow> le_status lease = ''active'' \<and> now < le_expires_at_ms lease);
             generation = (case pt_leases p (namespace, key) of None \<Rightarrow> 1
               | Some lease \<Rightarrow> saturating_succ (le_generation lease));
             lease = new_lease namespace key generation token owner now ttl_ms
         in if held then (Inl (Already_Exists ''lease'' (namespace @ ''/'' @ key)), touch tenant g)
            else (Inr lease, set_partition g tenant (save_lease namespace key lease p))))"

definition memory_get_lease ::
  "MemoryCatalogGraph \<Rightarrow> string option \<Rightarrow> string \<Rightarrow> string \<Rightarrow> Lease option" where
  "memory_get_lease g tenant namespace key = pt_leases (partition_of g tenant) (namespace, key)"

definition memory_refresh_lease ::
  "int \<Rightarrow> int \<Rightarrow> string option \<Rightarrow> string \<Rightarrow> string \<Rightarrow> string \<Rightarrow> int \<Rightarrow> MemoryCatalogGraph
     \<Rightarrow> (catalog_error + Lease) \<times> MemoryCatalogGraph" where
  "memory_refresh_lease checked_at now tenant namespace key fencing_token ttl_ms g =
     (if ttl_ms \<le> 0 then (Inl Lease_Ttl_Not_Positive, g)
      else
        (let p = partition_of g tenant in
         case require_memory_lease p namespace key fencing_token checked_at of
           Inl e \<Rightarrow> (Inl e, touch tenant g)
         | Inr lease \<Rightarrow>
             (let lease = lease\<lparr>le_refreshed_at_ms := now, le_expires_at_ms := i64_saturating_add now ttl_ms\<rparr>
              in (Inr lease, set_partition g tenant (save_lease namespace key lease p)))))"

definition memory_release_lease ::
  "int \<Rightarrow> int \<Rightarrow> string option \<Rightarrow> string \<Rightarrow> string \<Rightarrow> string \<Rightarrow> MemoryCatalogGraph
     \<Rightarrow> (catalog_error + Lease) \<times> MemoryCatalogGraph" where
  "memory_release_lease checked_at now tenant namespace key fencing_token g =
     (let p = partition_of g tenant in
      case require_memory_lease p namespace key fencing_token checked_at of
        Inl e \<Rightarrow> (Inl e, touch tenant g)
      | Inr lease \<Rightarrow>
          (let lease = lease\<lparr>le_status := ''released'', le_released_at_ms := now\<rparr>
           in (Inr lease, set_partition g tenant (save_lease namespace key lease p))))"

definition memory_takeover_lease ::
  "int \<Rightarrow> int \<Rightarrow> string \<Rightarrow> string option \<Rightarrow> string \<Rightarrow> string \<Rightarrow> string \<Rightarrow> string \<Rightarrow> int \<Rightarrow> int
     \<Rightarrow> MemoryCatalogGraph \<Rightarrow> (catalog_error + Lease) \<times> MemoryCatalogGraph" where
  "memory_takeover_lease checked_at now token tenant namespace key owner expected_token expected_expires_at
       ttl_ms g =
     (if ttl_ms \<le> 0 then (Inl Lease_Ttl_Not_Positive, g)
      else
        (let p = partition_of g tenant in
         case pt_leases p (namespace, key) of
           None \<Rightarrow> (Inl (Lease_Does_Not_Exist namespace key), touch tenant g)
         | Some current \<Rightarrow>
             (if le_fencing_token current = expected_token \<and> le_expires_at_ms current = expected_expires_at
                 \<and> le_expires_at_ms current \<le> checked_at
              then
                (let lease = new_lease namespace key (saturating_succ (le_generation current)) token owner
                       now ttl_ms
                 in (Inr lease, set_partition g tenant (save_lease namespace key lease p)))
              else (Inl Takeover_Precondition_Failed, touch tenant g))))"

section \<open>Guarded writes\<close>

definition memory_guarded_put ::
  "ambient \<Rightarrow> string option \<Rightarrow> StoredObject \<Rightarrow> string \<Rightarrow> string \<Rightarrow> string \<Rightarrow> bool \<Rightarrow> MemoryCatalogGraph
     \<Rightarrow> (catalog_error + StoredObject) \<times> MemoryCatalogGraph" where
  "memory_guarded_put amb tenant object namespace key fencing_token create g =
     (let p = partition_of g tenant in
      case require_memory_lease p namespace key fencing_token (am_now amb) of
        Inl e \<Rightarrow> (Inl e, touch tenant g)
      | Inr _ \<Rightarrow>
          (let previous = bt_get (pt_objects p) (so_id object) in
           if create \<and> previous \<noteq> None
           then (Inl (Already_Exists ''object'' (so_id object)), touch tenant g)
           else if \<not> create \<and> previous = None
           then (Inl (Object_Does_Not_Exist (so_id object)), touch tenant g)
           else
             (let p = (case previous of None \<Rightarrow> p
                | Some previous \<Rightarrow> record_memory_changes amb (mg_principal g) previous object p)
              in (Inr object, set_partition g tenant (insert_object object p)))))"

definition validate_new_provider_event :: "ProviderEventRecord \<Rightarrow> catalog_error + unit" where
  "validate_new_provider_event event =
     ensure (\<not> (trim (pe_id event) = [] \<or> trim (pe_provider_kind event) = []
       \<or> trim (pe_binding_digest event) = [] \<or> pe_payload_json event = [] \<or> pe_attempts event \<noteq> 0
       \<or> pe_delivered_at event \<noteq> None \<or> pe_last_error event \<noteq> [] \<or> pe_claim_token event \<noteq> None
       \<or> pe_claim_until event \<noteq> None)) Event_Not_Pristine"

text \<open>
  Provider events carry JSON.  Whether two payloads match and how events are bound to a tenant are
  arguments.
\<close>
record event_ports =
  ep_payloads_match :: "string \<Rightarrow> string \<Rightarrow> bool"
  ep_bind_tenant :: "string option \<Rightarrow> ProviderEventRecord list \<Rightarrow> ProviderEventRecord list option"

definition enqueue_memory_provider_event ::
  "event_ports \<Rightarrow> Partition \<Rightarrow> ProviderEventRecord \<Rightarrow> catalog_error + Partition" where
  "enqueue_memory_provider_event ports p event =
     bind_r (validate_new_provider_event event) (\<lambda>_.
     let key = (pe_provider_kind event, pe_id event) in
     case pt_events p key of
       Some existing \<Rightarrow>
         (if pe_provider_kind existing \<noteq> pe_provider_kind event
             \<or> pe_binding_digest existing \<noteq> pe_binding_digest event
             \<or> \<not> ep_payloads_match ports (pe_payload_json existing) (pe_payload_json event)
          then Inl (Event_Conflict (pe_id event)) else Inr p)
     | None \<Rightarrow> Inr (p\<lparr>pt_events := (pt_events p)(key := Some event)\<rparr>))"

definition keep_observation :: "FeedbackObservation \<Rightarrow> Partition \<Rightarrow> Partition" where
  "keep_observation observation p =
     (if bt_contains (pt_observations p) (fo_id observation) then p
      else p\<lparr>pt_observations := bt_insert (fo_id observation) observation (pt_observations p)\<rparr>)"

definition write_over :: "ambient \<Rightarrow> string \<Rightarrow> StoredObject \<times> StoredObject \<Rightarrow> Partition \<Rightarrow> Partition" where
  "write_over amb author pair p = (case pair of (object, previous) \<Rightarrow>
     insert_object object (record_memory_changes amb author previous object p))"

definition apply_objects ::
  "ambient \<Rightarrow> event_ports \<Rightarrow> string option \<Rightarrow> StoredObject list \<Rightarrow> ProviderEventRecord list
     \<Rightarrow> FeedbackObservation list \<Rightarrow> (string \<times> string \<times> string) option \<Rightarrow> MemoryCatalogGraph
     \<Rightarrow> catalog_error + Partition" where
  "apply_objects amb ports tenant objects events observations lease g =
     bind_r (ensure (objects \<noteq> []) Update_Is_Empty) (\<lambda>_.
     bind_r (ensure (length (bs_of_list (map so_id objects)) = length objects) Duplicate_Identities) (\<lambda>_.
     bind_r (ok_or Tenant_Binding_Failed (ep_bind_tenant ports tenant events)) (\<lambda>events.
     let p = partition_of g tenant in
     bind_r (case lease of None \<Rightarrow> Inr ()
        | Some (namespace, key, token) \<Rightarrow>
            bind_r (require_memory_lease p namespace key token (am_now amb)) (\<lambda>_. Inr ())) (\<lambda>_.
     bind_r (try_map (\<lambda>object. ok_or (Object_Does_Not_Exist (so_id object))
          (bt_get (pt_objects p) (so_id object))) objects) (\<lambda>previous.
     let p = fold (write_over amb (mg_principal g)) (zip objects previous) p in
     bind_r (try_fold (enqueue_memory_provider_event ports) p events) (\<lambda>p.
     Inr (fold keep_observation observations p)))))))"

definition apply_objects_with_provider_events ::
  "ambient \<Rightarrow> event_ports \<Rightarrow> string option \<Rightarrow> StoredObject list \<Rightarrow> ProviderEventRecord list
     \<Rightarrow> FeedbackObservation list \<Rightarrow> (string \<times> string \<times> string) option \<Rightarrow> MemoryCatalogGraph
     \<Rightarrow> (catalog_error + unit) \<times> MemoryCatalogGraph" where
  "apply_objects_with_provider_events amb ports tenant objects events observations lease g =
     (case apply_objects amb ports tenant objects events observations lease g of
        Inl e \<Rightarrow> (Inl e, g)
      | Inr p \<Rightarrow> (Inr (), set_partition g tenant p))"

definition memory_put_objects_with_provider_events ::
  "ambient \<Rightarrow> event_ports \<Rightarrow> string option \<Rightarrow> StoredObject list \<Rightarrow> ProviderEventRecord list
     \<Rightarrow> FeedbackObservation list \<Rightarrow> MemoryCatalogGraph \<Rightarrow> (catalog_error + unit) \<times> MemoryCatalogGraph" where
  "memory_put_objects_with_provider_events amb ports tenant objects events observations =
     apply_objects_with_provider_events amb ports tenant objects events observations None"

definition memory_put_with_provider_events ::
  "ambient \<Rightarrow> event_ports \<Rightarrow> string option \<Rightarrow> StoredObject \<Rightarrow> ProviderEventRecord list
     \<Rightarrow> FeedbackObservation list \<Rightarrow> MemoryCatalogGraph
     \<Rightarrow> (catalog_error + StoredObject) \<times> MemoryCatalogGraph" where
  "memory_put_with_provider_events amb ports tenant object events observations g =
     (case memory_put_objects_with_provider_events amb ports tenant [object] events observations g of
        (Inl e, g) \<Rightarrow> (Inl e, g) | (Inr _, g) \<Rightarrow> (Inr object, g))"

definition memory_guarded_put_objects_with_provider_events ::
  "ambient \<Rightarrow> event_ports \<Rightarrow> string option \<Rightarrow> StoredObject list \<Rightarrow> string \<Rightarrow> string \<Rightarrow> string
     \<Rightarrow> ProviderEventRecord list \<Rightarrow> FeedbackObservation list \<Rightarrow> MemoryCatalogGraph
     \<Rightarrow> (catalog_error + unit) \<times> MemoryCatalogGraph" where
  "memory_guarded_put_objects_with_provider_events amb ports tenant objects namespace key fencing_token
       events observations =
     apply_objects_with_provider_events amb ports tenant objects events observations
       (Some (namespace, key, fencing_token))"

definition memory_guarded_put_many ::
  "ambient \<Rightarrow> event_ports \<Rightarrow> string option \<Rightarrow> StoredObject list \<Rightarrow> string \<Rightarrow> string \<Rightarrow> string
     \<Rightarrow> MemoryCatalogGraph \<Rightarrow> (catalog_error + unit) \<times> MemoryCatalogGraph" where
  "memory_guarded_put_many amb ports tenant objects namespace key fencing_token =
     memory_guarded_put_objects_with_provider_events amb ports tenant objects namespace key fencing_token [] []"

definition stamp_claim_expiry :: "StoredObject \<Rightarrow> Lease list \<Rightarrow> string \<Rightarrow> string \<Rightarrow> StoredObject" where
  "stamp_claim_expiry object leases namespace key =
     (case find (\<lambda>lease. le_namespace lease = namespace \<and> le_key lease = key) leases of
        None \<Rightarrow> object
      | Some lease \<Rightarrow>
          object\<lparr>so_properties := bt_insert ''expires_at'' (show_int (le_expires_at_ms lease)) (so_properties object),
                 so_updated := le_refreshed_at_ms lease\<rparr>)"

record LeaseRefresh =
  lr_namespace :: string
  lr_key :: string
  lr_fencing_token :: string
  lr_ttl_ms :: int
  lr_extend :: bool

fun refresh_each ::
  "int \<Rightarrow> string option \<Rightarrow> LeaseRefresh list \<Rightarrow> MemoryCatalogGraph \<Rightarrow> (catalog_error + Lease list) \<times> MemoryCatalogGraph" where
  "refresh_each now tenant [] g = (Inr [], g)"
| "refresh_each now tenant (r # rs) g =
     (case (if lr_extend r
            then memory_refresh_lease now now tenant (lr_namespace r) (lr_key r) (lr_fencing_token r) (lr_ttl_ms r) g
            else (bind_r (ok_or (Lease_Does_Not_Exist (lr_namespace r) (lr_key r))
                     (memory_get_lease g tenant (lr_namespace r) (lr_key r))) (\<lambda>lease.
                   bind_r (ensure (le_status lease = ''active'' \<and> le_fencing_token lease = lr_fencing_token r
                       \<and> now < le_expires_at_ms lease) (Not_The_Fenced_Holder (lr_namespace r) (lr_key r)))
                     (\<lambda>_. Inr lease)), g)) of
        (Inl e, g) \<Rightarrow> (Inl e, g)
      | (Inr lease, g) \<Rightarrow>
          (case refresh_each now tenant rs g of
             (Inl e, g) \<Rightarrow> (Inl e, g)
           | (Inr leases, g) \<Rightarrow> (Inr (lease # leases), g)))"

definition refresh_leases_and_guarded_put ::
  "ambient \<Rightarrow> string option \<Rightarrow> LeaseRefresh list \<Rightarrow> StoredObject \<Rightarrow> string \<Rightarrow> string \<Rightarrow> string
     \<Rightarrow> MemoryCatalogGraph \<Rightarrow> (catalog_error + Lease list \<times> StoredObject) \<times> MemoryCatalogGraph" where
  "refresh_leases_and_guarded_put amb tenant refreshes object object_namespace object_key object_fencing_token g =
     (case refresh_each (am_now amb) tenant refreshes g of
        (Inl e, g) \<Rightarrow> (Inl e, g)
      | (Inr leases, g) \<Rightarrow>
          (let object = stamp_claim_expiry object leases object_namespace object_key in
           case memory_guarded_put amb tenant object object_namespace object_key object_fencing_token False g of
             (Inl e, g) \<Rightarrow> (Inl e, g)
           | (Inr object, g) \<Rightarrow> (Inr (leases, object), g)))"


section \<open>Schemas, actions, decisions and history\<close>

definition memory_feedback_observations ::
  "MemoryCatalogGraph \<Rightarrow> string option \<Rightarrow> string \<Rightarrow> FeedbackObservation list" where
  "memory_feedback_observations g tenant environment =
     sort_key fo_observed_at_ms (sort_key fo_id
       (filter (\<lambda>observation. fo_environment observation = environment)
          (map snd (pt_observations (partition_of g tenant)))))"

definition memory_register_schema :: "string option \<Rightarrow> ObjectType \<Rightarrow> MemoryCatalogGraph \<Rightarrow> MemoryCatalogGraph" where
  "memory_register_schema tenant schema g =
     (let p = partition_of g tenant in
      set_partition g tenant (p\<lparr>pt_schemas := bt_insert (ot_kind schema) schema (pt_schemas p)\<rparr>))"

definition memory_schemas :: "MemoryCatalogGraph \<Rightarrow> string option \<Rightarrow> ObjectType list" where
  "memory_schemas g tenant = map snd (pt_schemas (partition_of g tenant))"

definition memory_register_action :: "string option \<Rightarrow> ActionTypeDef \<Rightarrow> MemoryCatalogGraph \<Rightarrow> MemoryCatalogGraph" where
  "memory_register_action tenant action g =
     (let p = partition_of g tenant in
      set_partition g tenant (p\<lparr>pt_actions := (pt_actions p)(at_name action := Some action)\<rparr>))"

definition action_param ::
  "string \<Rightarrow> (string \<Rightarrow> string option) \<Rightarrow> string \<Rightarrow> catalog_error + string" where
  "action_param action_name params name = ok_or (Action_Requires action_name name) (params name)"

definition execute_op ::
  "int \<Rightarrow> string option \<Rightarrow> string \<Rightarrow> (string \<Rightarrow> string option) \<Rightarrow> string \<Rightarrow> ActionOp
     \<Rightarrow> StoredObject \<Rightarrow> MemoryCatalogGraph \<Rightarrow> (catalog_error + StoredObject) \<times> MemoryCatalogGraph" where
  "execute_op now tenant action_name params target_id op target g =
     (if ao_op op = ''set_property'' then
        (case action_param action_name params (ao_value_from op) of
           Inl e \<Rightarrow> (Inl e, g)
         | Inr v \<Rightarrow> (Inr (target\<lparr>so_properties := bt_insert (ao_property op) v (so_properties target)\<rparr>), g))
      else if ao_op op = ''create_link'' then
        (case action_param action_name params (ao_property op) of
           Inl e \<Rightarrow> (Inl e, g)
         | Inr to_id \<Rightarrow>
             (case memory_create_link tenant
                 \<lparr>ln_id = target_id @ ''--'' @ ao_relation op @ ''--'' @ to_id, ln_from_id = target_id,
                  ln_to_id = to_id, ln_relation = ao_relation op, ln_created = now\<rparr> False g of
                (Inl e, g) \<Rightarrow> (Inl e, g) | (Inr _, g) \<Rightarrow> (Inr target, g)))
      else if ao_op op = ''delete_link'' then
        (case action_param action_name params (ao_value_from op) of
           Inl e \<Rightarrow> (Inl e, g)
         | Inr link_id \<Rightarrow> (Inr target, memory_unlink tenant link_id g))
      else (Inl (Unsupported_Operation (ao_op op)), g))"

fun execute_ops ::
  "int \<Rightarrow> string option \<Rightarrow> string \<Rightarrow> (string \<Rightarrow> string option) \<Rightarrow> string \<Rightarrow> ActionOp list
     \<Rightarrow> StoredObject \<Rightarrow> MemoryCatalogGraph \<Rightarrow> (catalog_error + StoredObject) \<times> MemoryCatalogGraph" where
  "execute_ops now tenant action_name params target_id [] target g = (Inr target, g)"
| "execute_ops now tenant action_name params target_id (op # ops) target g =
     (case execute_op now tenant action_name params target_id op target g of
        (Inl e, g) \<Rightarrow> (Inl e, g)
      | (Inr target, g) \<Rightarrow> execute_ops now tenant action_name params target_id ops target g)"

definition record_decision ::
  "ambient \<Rightarrow> string option \<Rightarrow> string \<Rightarrow> string \<Rightarrow> string \<Rightarrow> (string \<Rightarrow> string option) \<Rightarrow> MemoryCatalogGraph
     \<Rightarrow> MemoryCatalogGraph" where
  "record_decision amb tenant action target_id outcome params g =
     (let p = partition_of g tenant;
          decision = \<lparr>de_id = am_uuid amb action target_id, de_timestamp = am_now amb, de_actor = mg_principal g,
            de_action = action, de_reason = ''execute_action'', de_evidence = params(''decision'' := Some outcome),
            de_target_id = target_id, de_outcome = outcome\<rparr>
      in set_partition g tenant (p\<lparr>pt_decisions := pt_decisions p @ [decision]\<rparr>))"

definition memory_execute_action ::
  "ambient \<Rightarrow> string option \<Rightarrow> string \<Rightarrow> (string \<Rightarrow> string option) \<Rightarrow> bool \<Rightarrow> MemoryCatalogGraph
     \<Rightarrow> (catalog_error + ActionResult) \<times> MemoryCatalogGraph" where
  "memory_execute_action amb tenant action_name params dry_run g =
     (case bind_r (ok_or (Action_Not_Registered action_name) (pt_actions (partition_of g tenant) action_name)) (\<lambda>action.
           bind_r (action_param action_name params ''id'') (\<lambda>target_id.
           bind_r (ok_or (Action_Target_Missing target_id) (memory_get g tenant target_id)) (\<lambda>target.
           Inr (action, target_id, target)))) of
        Inl e \<Rightarrow> (Inl e, g)
      | Inr (action, target_id, target) \<Rightarrow>
          (let result = \<lparr>ac_action = action_name, ac_message = ''allowed by embedded host policy'',
                 ac_dry_run = dry_run, ac_planned_ops = map ao_op (at_ops action), ac_decision = ''allow'',
                 ac_approval_id = []\<rparr> in
           if dry_run then (Inr result, g)
           else
             (case execute_ops (am_now amb) tenant action_name params target_id (at_ops action) target g of
                (Inl e, g) \<Rightarrow> (Inl e, g)
              | (Inr target, g) \<Rightarrow>
                  (let target = target\<lparr>so_updated := am_now amb\<rparr>;
                       g = snd (memory_put amb tenant target g)
                   in (Inr result, record_decision amb tenant action_name target_id ''allow'' params g)))))"

definition memory_decisions ::
  "MemoryCatalogGraph \<Rightarrow> string option \<Rightarrow> string \<Rightarrow> string \<Rightarrow> int \<Rightarrow> Decision list" where
  "memory_decisions g tenant actor action after =
     filter (\<lambda>decision. (actor = [] \<or> de_actor decision = actor) \<and> (action = [] \<or> de_action decision = action)
          \<and> after < de_timestamp decision)
       (pt_decisions (partition_of g tenant))"

definition memory_changes :: "MemoryCatalogGraph \<Rightarrow> string option \<Rightarrow> string \<Rightarrow> ObjectChange list" where
  "memory_changes g tenant object_id =
     (case pt_changes (partition_of g tenant) object_id of None \<Rightarrow> [] | Some changes \<Rightarrow> changes)"

section \<open>Operations in sequence\<close>

text \<open>The state-changing operations, one step each, at a time that the lease tests read.\<close>
inductive catalog_step :: "event_ports \<Rightarrow> string \<Rightarrow> int \<Rightarrow> MemoryCatalogGraph \<Rightarrow> MemoryCatalogGraph \<Rightarrow> bool"
  for ports where
  c_create: "catalog_step ports token now g (snd (memory_create tenant object g))"
| c_put: "catalog_step ports token now g (put_after amb tenant previous object g)"
| c_delete: "catalog_step ports token now g (memory_delete tenant oid g)"
| c_create_link: "catalog_step ports token now g (snd (memory_create_link tenant link fail_if_exists g))"
| c_unlink: "catalog_step ports token now g (memory_unlink tenant oid g)"
| c_acquire: "catalog_step ports token now g (snd (memory_acquire_lease now token tenant namespace key owner ttl g))"
| c_refresh: "now \<le> later \<Longrightarrow>
    catalog_step ports token now g (snd (memory_refresh_lease now later tenant namespace key fencing ttl g))"
| c_release: "catalog_step ports token now g (snd (memory_release_lease now later tenant namespace key fencing g))"
| c_takeover: "now \<le> later \<Longrightarrow>
    catalog_step ports token now g
      (snd (memory_takeover_lease now later token tenant namespace key owner fencing expires ttl g))"
| c_guarded_put: "am_now amb = now \<Longrightarrow>
    catalog_step ports token now g (snd (memory_guarded_put amb tenant object namespace key fencing create g))"
| c_apply: "am_now amb = now \<Longrightarrow>
    catalog_step ports token now g
      (snd (apply_objects_with_provider_events amb ports tenant objects events observations lease g))"
| c_schema: "catalog_step ports token now g (memory_register_schema tenant schema g)"
| c_action: "catalog_step ports token now g (memory_register_action tenant action g)"
| c_execute: "catalog_step ports token now g (snd (memory_execute_action amb tenant name params dry_run g))"

end
