(* ===== verification/Catalog_Leases.thy ===== *)
theory Catalog_Leases
  imports Catalog_Graph
begin

text \<open>
  What the leases and guarded writes of the catalog promise: how one operation may change one lease,
  that a superseded fencing token never writes again, that an update of several objects is all or
  nothing, and that the recorded history replays.
\<close>

section \<open>Partitions and lease slots\<close>

definition lease_slot :: "MemoryCatalogGraph \<Rightarrow> string \<times> string \<times> string \<Rightarrow> Lease option" where
  "lease_slot g k = pt_leases (partition_of g (Some (fst k))) (snd k)"

lemma partition_of_set [simp]:
  "partition_of (set_partition g tenant p) tenant'
     = (if tenant_key tenant' = tenant_key tenant then p else partition_of g tenant')"
  by (simp add: partition_of_def set_partition_def)

lemma partition_of_touch [simp]: "partition_of (touch tenant g) tenant' = partition_of g tenant'"
  by (simp add: touch_def) (simp add: partition_of_def)

lemma partition_of_key: "partition_of g (Some (tenant_key tenant)) = partition_of g tenant"
  by (simp add: partition_of_def tenant_key_def)

lemma tenant_key_Some [simp]: "tenant_key (Some t) = t"
  by (simp add: tenant_key_def)

lemma lease_slot_set:
  "lease_slot (set_partition g tenant p) k
     = (if fst k = tenant_key tenant then pt_leases p (snd k) else lease_slot g k)"
  by (simp add: lease_slot_def)

lemma lease_slot_touch [simp]: "lease_slot (touch tenant g) k = lease_slot g k"
  by (simp add: lease_slot_def)

lemma lease_slot_of: "lease_slot g (tenant_key tenant, nk) = pt_leases (partition_of g tenant) nk"
  by (simp add: lease_slot_def partition_of_key)

section \<open>What leaves leases alone\<close>

lemma prune_changes_keeps [simp]:
  "pt_leases (prune_changes c oid p) = pt_leases p" "pt_objects (prune_changes c oid p) = pt_objects p"
  by (simp_all add: prune_changes_def Let_def split: option.split)

lemma fold_prune_keeps:
  "pt_leases (fold (prune_changes c) ids p) = pt_leases p"
  "pt_objects (fold (prune_changes c) ids p) = pt_objects p"
  by (induction ids arbitrary: p) simp_all

lemma record_memory_changes_keeps [simp]:
  "pt_leases (record_memory_changes amb author previous object p) = pt_leases p"
  "pt_objects (record_memory_changes amb author previous object p) = pt_objects p"
  by (simp_all add: record_memory_changes_def Let_def push_changes_def fold_prune_keeps
      prune_memory_execution_claim_history_def)

lemma insert_object_keeps [simp]:
  "pt_leases (insert_object object p) = pt_leases p" "pt_changes (insert_object object p) = pt_changes p"
  by (simp_all add: insert_object_def)

lemma insert_object_get [simp]:
  "bt_get (pt_objects (insert_object object p)) oid
     = (if oid = so_id object then Some object else bt_get (pt_objects p) oid)"
  by (simp add: insert_object_def)

lemma memory_put_get:
  "memory_get (snd (memory_put amb tenant object g)) tenant oid
     = (if oid = so_id object then Some object else memory_get g tenant oid)"
  by (simp add: memory_put_def put_after_def memory_get_def Let_def split: option.split)

lemma fold_write_over_keeps [simp]:
  "pt_leases (fold (write_over amb author) pairs p) = pt_leases p"
  by (induction pairs arbitrary: p) (simp_all add: write_over_def split: prod.splits)

lemma keep_observation_keeps:
  "pt_leases (fold keep_observation obs p) = pt_leases p" "pt_objects (fold keep_observation obs p) = pt_objects p"
  by (induction obs arbitrary: p) (simp_all add: keep_observation_def)

lemma enqueue_keeps:
  assumes "enqueue_memory_provider_event ports p event = Inr p'"
  shows "pt_leases p' = pt_leases p" and "pt_objects p' = pt_objects p"
  using assms
  by (auto simp: enqueue_memory_provider_event_def Let_def result_simps split: option.splits if_splits)

lemma enqueue_all_keeps:
  assumes "try_fold (enqueue_memory_provider_event ports) p events = Inr p'"
  shows "pt_leases p' = pt_leases p \<and> pt_objects p' = pt_objects p"
  using assms
proof (induction events arbitrary: p)
  case (Cons event events)
  then obtain q where q: "enqueue_memory_provider_event ports p event = Inr q"
      "try_fold (enqueue_memory_provider_event ports) q events = Inr p'"
    by (auto simp: result_simps)
  show ?case using Cons.IH [OF q(2)] enqueue_keeps [OF q(1)] by simp
qed simp

lemma apply_objects_cases:
  assumes "apply_objects amb ports tenant objects events observations lease g = Inr p"
  obtains previous where "objects \<noteq> []" and "length (bs_of_list (map so_id objects)) = length objects"
    and "case lease of None \<Rightarrow> True | Some (namespace, key, token) \<Rightarrow>
        \<exists>l. require_memory_lease (partition_of g tenant) namespace key token (am_now amb) = Inr l"
    and "try_map (\<lambda>object. ok_or (Object_Does_Not_Exist (so_id object))
          (bt_get (pt_objects (partition_of g tenant)) (so_id object))) objects = Inr previous"
    and "pt_objects p = pt_objects (fold (write_over amb (mg_principal g)) (zip objects previous) (partition_of g tenant))"
    and "pt_leases p = pt_leases (partition_of g tenant)"
proof -
  from assms obtain events' previous q where
    a: "objects \<noteq> []" "length (bs_of_list (map so_id objects)) = length objects"
    and l: "(case lease of None \<Rightarrow> Inr () | Some (namespace, key, token) \<Rightarrow>
        bind_r (require_memory_lease (partition_of g tenant) namespace key token (am_now amb)) (\<lambda>_. Inr ())) = Inr ()"
    and b: "try_map (\<lambda>object. ok_or (Object_Does_Not_Exist (so_id object))
          (bt_get (pt_objects (partition_of g tenant)) (so_id object))) objects = Inr previous"
    and q: "try_fold (enqueue_memory_provider_event ports)
        (fold (write_over amb (mg_principal g)) (zip objects previous) (partition_of g tenant)) events' = Inr q"
    and p: "p = fold keep_observation observations q"
    by (auto simp: apply_objects_def Let_def result_simps)
  have "case lease of None \<Rightarrow> True | Some (namespace, key, token) \<Rightarrow>
        \<exists>l. require_memory_lease (partition_of g tenant) namespace key token (am_now amb) = Inr l"
    using l by (auto simp: result_simps split: option.splits)
  with a b show thesis using enqueue_all_keeps [OF q] by (intro that) (simp_all add: p keep_observation_keeps)
qed

lemma lease_slot_same:
  assumes "pt_leases p = pt_leases (partition_of g tenant)"
  shows "lease_slot (set_partition g tenant p) k = lease_slot g k"
  using assms by (simp add: lease_slot_def partition_of_key)

lemma partition_of_Some: "mg_partitions g (tenant_key tenant) = Some p \<Longrightarrow> partition_of g tenant = p"
  by (simp add: partition_of_def)

lemma link_ops_slot [simp]:
  "lease_slot (snd (memory_create_link tenant link f g)) k = lease_slot g k"
  "lease_slot (memory_unlink tenant oid g) k = lease_slot g k"
  by (simp_all add: memory_create_link_def memory_unlink_def Let_def lease_slot_same partition_of_Some
      split: option.split)

lemma object_ops_slot [simp]:
  "lease_slot (snd (memory_create tenant object g)) k = lease_slot g k"
  "lease_slot (put_after amb tenant previous object g) k = lease_slot g k"
  "lease_slot (memory_delete tenant oid g) k = lease_slot g k"
  by (simp_all add: memory_create_def put_after_def memory_delete_def Let_def lease_slot_same partition_of_Some
      split: option.split)

lemma registry_ops_slot [simp]:
  "lease_slot (memory_register_schema tenant schema g) k = lease_slot g k"
  "lease_slot (memory_register_action tenant action g) k = lease_slot g k"
  "lease_slot (record_decision amb tenant a t out params g) k = lease_slot g k"
  by (simp_all add: memory_register_schema_def memory_register_action_def record_decision_def Let_def lease_slot_same)

lemma execute_op_slot [simp]:
  "lease_slot (snd (execute_op now tenant name params tid op target g)) k = lease_slot g k"
proof -
  have "lease_slot (snd (case memory_create_link tenant link False g of
      (Inl e, g) \<Rightarrow> (Inl e, g) | (Inr _, g) \<Rightarrow> (Inr target, g))) k = lease_slot g k" for link
  proof -
    obtain r g' where e: "memory_create_link tenant link False g = (r, g')" by fastforce
    then have "lease_slot g' k = lease_slot g k" using link_ops_slot(1) [of tenant link False g k] by simp
    then show ?thesis by (cases r) (simp_all add: e)
  qed
  then show ?thesis by (simp add: execute_op_def split: sum.split)
qed

lemma execute_ops_slot [simp]:
  "lease_slot (snd (execute_ops now tenant name params tid ops target g)) k = lease_slot g k"
proof (induction ops arbitrary: target g)
  case (Cons op ops)
  obtain r g' where e: "execute_op now tenant name params tid op target g = (r, g')" by fastforce
  then have "lease_slot g' k = lease_slot g k" using execute_op_slot [of now tenant name params tid op target g k] by simp
  then show ?case using Cons by (cases r) (simp_all add: e)
qed simp

lemma execute_ops_slot_result:
  "execute_ops now tenant name params tid ops target g = (r, g') \<Longrightarrow> lease_slot g' k = lease_slot g k"
  using execute_ops_slot [of now tenant name params tid ops target g k] by simp

lemma execute_action_slot [simp]:
  "lease_slot (snd (memory_execute_action amb tenant name params dry g)) k = lease_slot g k"
  by (auto simp: memory_execute_action_def Let_def memory_put_def split: sum.split prod.split
      dest: execute_ops_slot_result)

lemma guarded_put_slot [simp]:
  "lease_slot (snd (memory_guarded_put amb tenant object ns key token create g)) k = lease_slot g k"
  by (simp add: memory_guarded_put_def Let_def lease_slot_same split: sum.split option.split)

lemma apply_slot [simp]:
  "lease_slot (snd (apply_objects_with_provider_events amb ports tenant objects events observations lease g)) k
     = lease_slot g k"
proof (cases "apply_objects amb ports tenant objects events observations lease g")
  case (Inr p)
  then have "pt_leases p = pt_leases (partition_of g tenant)" by (elim apply_objects_cases)
  with Inr show ?thesis by (simp add: apply_objects_with_provider_events_def lease_slot_same)
qed (simp add: apply_objects_with_provider_events_def)

section \<open>How an operation may change a lease\<close>

definition lease_live :: "Lease \<Rightarrow> int \<Rightarrow> bool" where
  "lease_live lease now \<longleftrightarrow> le_status lease = ''active'' \<and> now < le_expires_at_ms lease"

definition generation_of :: "Lease option \<Rightarrow> u64" where
  "generation_of slot = (case slot of None \<Rightarrow> 0 | Some lease \<Rightarrow> le_generation lease)"

definition slot_granted :: "string \<Rightarrow> int \<Rightarrow> Lease option \<Rightarrow> Lease option \<Rightarrow> bool" where
  "slot_granted token now old new \<longleftrightarrow>
     (\<forall>lease. old = Some lease \<longrightarrow> \<not> lease_live lease now)
     \<and> (\<exists>lease. new = Some lease \<and> le_fencing_token lease = token
          \<and> le_generation lease = saturating_succ (generation_of old))"

definition slot_kept :: "int \<Rightarrow> Lease option \<Rightarrow> Lease option \<Rightarrow> bool" where
  "slot_kept now old new \<longleftrightarrow>
     (\<exists>lease lease'. old = Some lease \<and> new = Some lease' \<and> lease_live lease now
        \<and> le_fencing_token lease' = le_fencing_token lease \<and> le_generation lease' = le_generation lease)"

lemma require_memory_lease_iff:
  "require_memory_lease p ns key token now = Inr lease
     \<longleftrightarrow> pt_leases p (ns, key) = Some lease \<and> lease_live lease now \<and> le_fencing_token lease = token"
  by (auto simp: require_memory_lease_def lease_live_def result_simps)

lemma acquire_slot:
  "lease_slot (snd (memory_acquire_lease now token tenant ns key owner ttl g)) k = lease_slot g k
     \<or> slot_granted token now (lease_slot g k) (lease_slot (snd (memory_acquire_lease now token tenant ns key owner ttl g)) k)"
  by (cases k) (auto simp: memory_acquire_lease_def Let_def slot_granted_def lease_live_def save_lease_def
      new_lease_def generation_of_def saturating_succ_def lease_slot_of lease_slot_set split: option.splits)

lemma takeover_slot:
  "lease_slot (snd (memory_takeover_lease now later token tenant ns key owner fencing expires ttl g)) k = lease_slot g k
     \<or> slot_granted token now (lease_slot g k)
         (lease_slot (snd (memory_takeover_lease now later token tenant ns key owner fencing expires ttl g)) k)"
  by (cases k) (auto simp: memory_takeover_lease_def Let_def slot_granted_def lease_live_def save_lease_def
      new_lease_def generation_of_def lease_slot_of lease_slot_set split: option.splits)

lemma refresh_slot:
  "lease_slot (snd (memory_refresh_lease now later tenant ns key token ttl g)) k = lease_slot g k
     \<or> slot_kept now (lease_slot g k) (lease_slot (snd (memory_refresh_lease now later tenant ns key token ttl g)) k)"
  by (cases k) (auto simp: memory_refresh_lease_def Let_def slot_kept_def save_lease_def require_memory_lease_iff
      lease_slot_of lease_slot_set split: sum.splits)

lemma release_slot:
  "lease_slot (snd (memory_release_lease now later tenant ns key token g)) k = lease_slot g k
     \<or> slot_kept now (lease_slot g k) (lease_slot (snd (memory_release_lease now later tenant ns key token g)) k)"
  by (cases k) (auto simp: memory_release_lease_def Let_def slot_kept_def save_lease_def require_memory_lease_iff
      lease_slot_of lease_slot_set split: sum.splits)

lemma catalog_step_slot:
  assumes "catalog_step ports token now g g'"
  shows "lease_slot g' k = lease_slot g k \<or> slot_granted token now (lease_slot g k) (lease_slot g' k)
    \<or> slot_kept now (lease_slot g k) (lease_slot g' k)"
  using assms
proof cases
  case (c_acquire tenant namespace key owner ttl)
  then show ?thesis using acquire_slot [of now token tenant namespace key owner ttl g k] by auto
next
  case (c_takeover later tenant namespace key owner fencing expires ttl)
  then show ?thesis
    using takeover_slot [of now later token tenant namespace key owner fencing expires ttl g k] by auto
next
  case (c_refresh later tenant namespace key fencing ttl)
  then show ?thesis using refresh_slot [of now later tenant namespace key fencing ttl g k] by auto
next
  case (c_release later tenant namespace key fencing)
  then show ?thesis using release_slot [of now later tenant namespace key fencing g k] by auto
qed simp_all


section \<open>Holders take turns\<close>

definition lease_holder :: "MemoryCatalogGraph \<Rightarrow> string \<times> string \<times> string \<Rightarrow> int \<Rightarrow> string option" where
  "lease_holder g k now = (case lease_slot g k of
     Some lease \<Rightarrow> if lease_live lease now then Some (le_fencing_token lease) else None
   | None \<Rightarrow> None)"

definition catalog_moves :: "int \<Rightarrow> MemoryCatalogGraph \<Rightarrow> MemoryCatalogGraph \<Rightarrow> bool" where
  "catalog_moves now g g' \<longleftrightarrow> (\<exists>ports token. catalog_step ports token now g g')"

interpretation leases: expiring_claims lease_holder catalog_moves
proof
  show "lease_holder s k t = Some h" if "t \<le> t'" "lease_holder s k t' = Some h" for t t' s k h
    using that by (auto simp: lease_holder_def lease_live_def split: option.splits if_splits)
  show "h' = h" if "catalog_moves t s s'" "lease_holder s k t = Some h" "lease_holder s' k t = Some h'"
    for t s s' k h h'
  proof -
    from that(1) obtain ports token where "catalog_step ports token t s s'" by (auto simp: catalog_moves_def)
    from catalog_step_slot [OF this, of k] show ?thesis
      using that(2,3)
      by (auto simp: lease_holder_def slot_granted_def slot_kept_def split: option.splits if_splits)
  qed
qed

section \<open>A superseded token\<close>

text \<open>A run of operations: the tokens drawn so far, and that a drawn token is new.\<close>
inductive catalog_run ::
  "string set \<Rightarrow> MemoryCatalogGraph \<Rightarrow> string set \<Rightarrow> MemoryCatalogGraph \<Rightarrow> bool" where
  run_refl: "catalog_run drawn g drawn g"
| run_step: "catalog_run drawn g drawn' g' \<Longrightarrow> token \<notin> drawn' \<Longrightarrow> catalog_step ports token now g' g''
    \<Longrightarrow> catalog_run drawn g (insert token drawn') g''"

definition tokens_drawn :: "string set \<Rightarrow> MemoryCatalogGraph \<Rightarrow> bool" where
  "tokens_drawn drawn g \<longleftrightarrow> (\<forall>k lease. lease_slot g k = Some lease \<longrightarrow> le_fencing_token lease \<in> drawn)"

lemma catalog_step_drawn:
  assumes "catalog_step ports token now g g'" and "tokens_drawn drawn g"
  shows "tokens_drawn (insert token drawn) g'"
  unfolding tokens_drawn_def
proof (intro allI impI)
  fix k lease
  assume "lease_slot g' k = Some lease"
  moreover have "\<forall>lease. lease_slot g k = Some lease \<longrightarrow> le_fencing_token lease \<in> drawn"
    using assms(2) unfolding tokens_drawn_def by blast
  ultimately show "le_fencing_token lease \<in> insert token drawn"
    using catalog_step_slot [OF assms(1), of k] unfolding slot_granted_def slot_kept_def by auto
qed

lemma catalog_run_drawn:
  assumes "catalog_run drawn g drawn' g'" and "tokens_drawn drawn g"
  shows "tokens_drawn drawn' g' \<and> drawn \<subseteq> drawn'"
  using assms
proof induction
  case (run_step drawn g drawn' g' token ports now g'')
  then show ?case using catalog_step_drawn by blast
qed simp

lemma superseded_stays:
  assumes "catalog_run drawn g drawn' g'" and "old \<in> drawn"
    and "lease_slot g k = Some lease" and "le_fencing_token lease \<noteq> old"
  shows "\<exists>lease'. lease_slot g' k = Some lease' \<and> le_fencing_token lease' \<noteq> old \<and> old \<in> drawn'"
  using assms
proof induction
  case (run_step drawn g drawn' g' token ports now g'')
  then obtain lease' where l: "lease_slot g' k = Some lease'" "le_fencing_token lease' \<noteq> old" "old \<in> drawn'" by blast
  moreover have "token \<noteq> old" using l(3) run_step.hyps(2) by blast
  ultimately show ?case
    using catalog_step_slot [OF run_step.hyps(3), of k] unfolding slot_granted_def slot_kept_def by auto
qed blast

lemma catalog_step_generation:
  assumes "catalog_step ports token now g g'"
  shows "generation_of (lease_slot g k) \<le> generation_of (lease_slot g' k)"
  using catalog_step_slot [OF assms, of k]
  by (auto simp: slot_granted_def slot_kept_def generation_of_def arith_bounds split: option.splits)

lemma catalog_run_generation:
  assumes "catalog_run drawn g drawn' g'"
  shows "generation_of (lease_slot g k) \<le> generation_of (lease_slot g' k)"
  using assms by induction (auto intro: order_trans catalog_step_generation)

lemma superseded_refused:
  assumes "catalog_run {} memory_new drawn g" and "lease_slot g (tenant_key tenant, ns, key) = Some lease"
    and "catalog_run drawn g drawn1 g1" and "lease_slot g1 (tenant_key tenant, ns, key) = Some lease1"
    and "le_fencing_token lease1 \<noteq> le_fencing_token lease"
    and "catalog_run drawn1 g1 drawn2 g2"
  obtains e where "require_memory_lease (partition_of g2 tenant) ns key (le_fencing_token lease) now = Inl e"
proof -
  let ?old = "le_fencing_token lease"
  have "tokens_drawn {} memory_new"
    by (simp add: tokens_drawn_def lease_slot_def partition_of_def memory_new_def partition_default_def)
  then have "?old \<in> drawn" using catalog_run_drawn [OF assms(1)] assms(2) unfolding tokens_drawn_def by blast
  then have "?old \<in> drawn1"
    using catalog_run_drawn [OF assms(1)] \<open>tokens_drawn {} memory_new\<close> catalog_run_drawn [OF assms(3)] by blast
  then obtain lease2 where l2: "lease_slot g2 (tenant_key tenant, ns, key) = Some lease2"
      "le_fencing_token lease2 \<noteq> ?old"
    using superseded_stays [OF assms(6) _ assms(4,5)] by blast
  then have "\<not> (\<exists>l. require_memory_lease (partition_of g2 tenant) ns key ?old now = Inr l)"
    by (simp add: require_memory_lease_iff lease_slot_of)
  then show thesis
    using that by (cases "require_memory_lease (partition_of g2 tenant) ns key ?old now") auto
qed

lemma guarded_put_refused:
  assumes "require_memory_lease (partition_of g tenant) ns key token (am_now amb) = Inl e"
  shows "memory_guarded_put amb tenant object ns key token create g = (Inl e, touch tenant g)"
  using assms by (simp add: memory_guarded_put_def Let_def)

text \<open>C5. A superseded fencing token never writes again: once a lease of some tenant, namespace and
  key has passed to another token, every later guarded write with the old token is refused and writes
  no object, whatever operations run in between, and the lease's generation has not gone back.\<close>
theorem superseded_token_never_writes:
  assumes "catalog_run {} memory_new drawn g" and "lease_slot g (tenant_key tenant, ns, key) = Some lease"
    and "catalog_run drawn g drawn1 g1" and "lease_slot g1 (tenant_key tenant, ns, key) = Some lease1"
    and "le_fencing_token lease1 \<noteq> le_fencing_token lease"
    and "catalog_run drawn1 g1 drawn2 g2"
  shows "(\<exists>e. fst (memory_guarded_put amb tenant object ns key (le_fencing_token lease) create g2) = Inl e)
    \<and> memory_get (snd (memory_guarded_put amb tenant object ns key (le_fencing_token lease) create g2)) t oid
        = memory_get g2 t oid
    \<and> (\<exists>e. fst (memory_guarded_put_many amb ports tenant objects ns key (le_fencing_token lease) g2) = Inl e)
    \<and> snd (memory_guarded_put_many amb ports tenant objects ns key (le_fencing_token lease) g2) = g2
    \<and> le_generation lease \<le> le_generation lease1"
proof -
  let ?old = "le_fencing_token lease"
  obtain e where r: "require_memory_lease (partition_of g2 tenant) ns key ?old (am_now amb) = Inl e"
    by (rule superseded_refused [OF assms])
  note put = guarded_put_refused [OF r, of object create]
  obtain e' where many: "apply_objects amb ports tenant objects [] [] (Some (ns, key, ?old)) g2 = Inl e'"
    using r by (cases "apply_objects amb ports tenant objects [] [] (Some (ns, key, ?old)) g2")
      (auto elim!: apply_objects_cases)
  have "generation_of (lease_slot g (tenant_key tenant, ns, key)) \<le> generation_of (lease_slot g1 (tenant_key tenant, ns, key))"
    by (rule catalog_run_generation [OF assms(3)])
  then show ?thesis
    using many put assms(2,4)
    by (simp add: memory_get_def memory_guarded_put_many_def memory_guarded_put_objects_with_provider_events_def
        apply_objects_with_provider_events_def generation_of_def)
qed


definition demo_leased :: MemoryCatalogGraph where
  "demo_leased = snd (memory_acquire_lease 0 ''t1'' None ''env'' ''prod'' ''a'' 10 memory_new)"

definition demo_taken :: MemoryCatalogGraph where
  "demo_taken = snd (memory_takeover_lease 20 21 ''t2'' None ''env'' ''prod'' ''b'' ''t1'' 10 30 demo_leased)"

definition demo_object :: "string \<Rightarrow> StoredObject" where
  "demo_object v = \<lparr>so_id = ''o'', so_kind = ''k'', so_name = ''o'', so_namespace = [], so_external_id = [],
     so_properties = [(''v'', v)], so_created = 0, so_updated = 0\<rparr>"

definition demo_ambient :: "int \<Rightarrow> ambient" where
  "demo_ambient now = \<lparr>am_now = now, am_stamp = (\<lambda>_. now), am_uuid = (\<lambda>a b. a @ b)\<rparr>"

definition demo_ports :: event_ports where
  "demo_ports = \<lparr>ep_payloads_match = (=), ep_bind_tenant = (\<lambda>_. Some)\<rparr>"

lemma demo_catalog_runs:
  "catalog_run {} memory_new {''t1''} demo_leased"
  "catalog_run {''t1''} demo_leased {''t2'', ''t1''} demo_taken"
proof -
  have "catalog_run {} memory_new (insert ''t1'' {}) demo_leased"
    unfolding demo_leased_def by (rule run_step [OF run_refl _ c_acquire]) simp
  then show "catalog_run {} memory_new {''t1''} demo_leased" by simp
  show "catalog_run {''t1''} demo_leased {''t2'', ''t1''} demo_taken"
    unfolding demo_taken_def by (rule run_step [OF run_refl _ c_takeover]) simp_all
qed

lemma demo_slots:
  "lease_slot demo_leased ([], ''env'', ''prod'') = Some (new_lease ''env'' ''prod'' 1 ''t1'' ''a'' 0 10)"
  "lease_slot demo_taken ([], ''env'', ''prod'') = Some (new_lease ''env'' ''prod'' 2 ''t2'' ''b'' 21 30)"
  by code_simp+

theorem superseded_token_never_writes_witness:
  "\<exists>e. fst (memory_guarded_put (demo_ambient 25) None (demo_object ''x'') ''env'' ''prod'' ''t1'' True demo_taken) = Inl e"
proof -
  have k: "tenant_key None = []" by (simp add: tenant_key_def)
  have t: "le_fencing_token (new_lease ns key gen token owner now ttl) = token" for ns key gen token owner now ttl
    by (simp add: new_lease_def)
  show ?thesis
    using superseded_token_never_writes [OF demo_catalog_runs(1) _ demo_catalog_runs(2) _ _ run_refl,
        of None "''env''" "''prod''", unfolded k, OF demo_slots, of "demo_ambient 25" "demo_object ''x''" True]
    by (simp add: t)
qed

text \<open>Holders take turns: over any sequence of catalog operations at non-decreasing times, when a
  lease is held live under one fencing token and later under another, there was an operation in
  between at whose time the lease was not held live by anyone.\<close>
theorem lease_holders_take_turns:
  assumes "timed_run catalog_moves tr" and "i \<le> j" and "j < length tr"
    and "lease_holder (snd (tr ! i)) k (fst (tr ! i)) = Some token"
    and "lease_holder (snd (tr ! j)) k (fst (tr ! j)) = Some token'" and "token \<noteq> token'"
  shows "\<exists>m. i < m \<and> m \<le> j \<and> unheld lease_holder k tr m"
  by (rule leases.handover_unheld [OF assms])

theorem lease_holders_take_turns_witness:
  "unheld lease_holder ([], ''env'', ''prod'') [(0, demo_leased), (20, demo_taken)] 1"
proof -
  let ?k = "([], ''env'', ''prod'')" and ?tr = "[(0, demo_leased), (20, demo_taken)]"
  have "catalog_step demo_ports ''t2'' 20 demo_leased demo_taken"
    unfolding demo_taken_def by (rule c_takeover) simp
  then have run: "timed_run catalog_moves ?tr" by (auto simp: catalog_moves_def)
  have a: "lease_holder demo_leased ?k 0 = Some ''t1''" and b: "lease_holder demo_taken ?k 20 = Some ''t2''"
    by (simp_all add: lease_holder_def demo_slots, code_simp+)
  obtain m where "0 < m" "m \<le> 1" "unheld lease_holder ?k ?tr m"
    using lease_holders_take_turns [OF run, of 0 1 ?k "''t1''" "''t2''"] a b by auto
  moreover from this have "m = 1" by simp
  ultimately show ?thesis by simp
qed

section \<open>An update of several objects\<close>

lemma try_map_ok_or:
  assumes "try_map (\<lambda>x. ok_or (e x) (f x)) xs = Inr ys"
  shows "length ys = length xs"
  using assms by (induction xs arbitrary: ys) (auto simp: result_simps)

lemma try_map_ok_or_all:
  assumes "try_map (\<lambda>x. ok_or (e x) (f x)) xs = Inr ys"
  shows "list_all (\<lambda>x. f x \<noteq> None) xs"
  using assms by (induction xs arbitrary: ys) (auto simp: result_simps)

lemma fold_write_over_get:
  assumes "distinct (map (so_id \<circ> fst) pairs)"
  shows "bt_get (pt_objects (fold (write_over amb author) pairs p)) oid
    = (case find (\<lambda>pair. so_id (fst pair) = oid) pairs of Some pair \<Rightarrow> Some (fst pair) | None \<Rightarrow> bt_get (pt_objects p) oid)"
  using assms
proof (induction pairs arbitrary: p)
  case (Cons pair pairs)
  have "so_id (fst q) \<noteq> so_id (fst pair)" if "q \<in> set pairs" for q
  proof -
    have "(so_id \<circ> fst) q \<in> set (map (so_id \<circ> fst) pairs)" using that by (simp only: set_map imageI)
    with Cons.prems show ?thesis by (simp only: list.map distinct.simps) (metis comp_apply)
  qed
  then have "find (\<lambda>q. so_id (fst q) = so_id (fst pair)) pairs = None" unfolding find_None_iff by blast
  with Cons show ?case by (cases "find (\<lambda>q. so_id (fst q) = oid) pairs") (auto simp: write_over_def split: prod.splits)
qed simp

lemma distinct_of_bs:
  assumes "length (bs_of_list xs) = length (xs :: string list)"
  shows "distinct xs"
proof -
  have "length (bs_of_list xs) = card (set (bs_of_list xs))"
    using distinct_card [OF bs_ok_distinct [OF bs_of_list_ok], of xs] by simp
  then show ?thesis using assms by (simp add: card_distinct)
qed


definition object_named :: "StoredObject list \<Rightarrow> string \<Rightarrow> StoredObject option" where
  "object_named objects oid = find (\<lambda>object. so_id object = oid) objects"

lemma find_zip_fst:
  assumes "length ys = length xs"
  shows "map_option fst (find (\<lambda>pair. P (fst pair)) (zip xs ys)) = find P xs"
  using assms by (induction ys xs rule: list_induct2) auto

lemma apply_objects_get:
  assumes "apply_objects amb ports tenant objects events observations lease g = Inr p"
  shows "bt_get (pt_objects p) oid
    = (case object_named objects oid of Some object \<Rightarrow> Some object | None \<Rightarrow> memory_get g tenant oid)"
  using assms
proof (cases rule: apply_objects_cases)
  case (1 previous)
  have len: "length previous = length objects" using try_map_ok_or [OF 1(4)] by simp
  then have "map (so_id \<circ> fst) (zip objects previous) = map so_id objects"
    by (metis map_fst_zip map_map)
  then have d: "distinct (map (so_id \<circ> fst) (zip objects previous))" using distinct_of_bs 1(2) by (metis length_map)
  show ?thesis
    unfolding 1(5) fold_write_over_get [OF d] object_named_def memory_get_def
    using find_zip_fst [OF len, of "\<lambda>object. so_id object = oid"]
    by (cases "find (\<lambda>pair. so_id (fst pair) = oid) (zip objects previous)") (auto split: option.splits)
qed

text \<open>C32. An update of several objects with its provider events is all or nothing: when it fails, for
  whatever reason, the graph is as before; when it succeeds, the lease it named was held live under its
  token, every object it names existed and now is the one given, every other object and every lease is
  untouched, and no other tenant sees any difference.\<close>
theorem update_all_or_nothing:
  assumes "apply_objects_with_provider_events amb ports tenant objects events observations lease g = (r, g')"
  shows "(case r of
      Inl _ \<Rightarrow> g' = g
    | Inr _ \<Rightarrow>
        (case lease of None \<Rightarrow> True
         | Some (ns, key, token) \<Rightarrow> lease_holder g (tenant_key tenant, ns, key) (am_now amb) = Some token)
        \<and> (\<forall>oid. memory_get g' tenant oid
             = (case object_named objects oid of Some object \<Rightarrow> Some object | None \<Rightarrow> memory_get g tenant oid))
        \<and> list_all (\<lambda>object. memory_get g tenant (so_id object) \<noteq> None) objects
        \<and> lease_slot g' = lease_slot g
        \<and> (\<forall>other. tenant_key other \<noteq> tenant_key tenant \<longrightarrow> partition_of g' other = partition_of g other))"
proof (cases "apply_objects amb ports tenant objects events observations lease g")
  case (Inl e)
  with assms show ?thesis by (auto simp: apply_objects_with_provider_events_def)
next
  case (Inr p)
  then have g': "r = Inr ()" "g' = set_partition g tenant p"
    using assms by (simp_all add: apply_objects_with_provider_events_def)
  from Inr have "case lease of None \<Rightarrow> True
      | Some (ns, key, token) \<Rightarrow> lease_holder g (tenant_key tenant, ns, key) (am_now amb) = Some token"
    by (rule apply_objects_cases) (auto simp: require_memory_lease_iff lease_holder_def lease_slot_of split: option.splits)
  moreover from Inr have "list_all (\<lambda>object. memory_get g tenant (so_id object) \<noteq> None) objects"
  proof (rule apply_objects_cases)
    fix previous
    assume "try_map (\<lambda>object. ok_or (Object_Does_Not_Exist (so_id object))
          (bt_get (pt_objects (partition_of g tenant)) (so_id object))) objects = Inr previous"
    from try_map_ok_or_all [OF this] show ?thesis by (simp only: memory_get_def)
  qed
  moreover have "lease_slot g' k = lease_slot g k" for k
    using apply_slot [of amb ports tenant objects events observations lease g k] assms by simp
  moreover have "memory_get g' tenant oid
      = (case object_named objects oid of Some object \<Rightarrow> Some object | None \<Rightarrow> memory_get g tenant oid)" for oid
    using apply_objects_get [OF Inr] by (simp add: memory_get_def g')
  ultimately show ?thesis by (auto simp: g' fun_eq_iff)
qed

definition demo_stored :: MemoryCatalogGraph where
  "demo_stored = snd (memory_create None (demo_object ''x'') demo_leased)"

theorem update_all_or_nothing_witness:
  "memory_get (snd (apply_objects_with_provider_events (demo_ambient 5) demo_ports None [demo_object ''y''] [] []
      (Some (''env'', ''prod'', ''t1'')) demo_stored)) None ''o'' = Some (demo_object ''y'')"
proof -
  let ?a = "apply_objects_with_provider_events (demo_ambient 5) demo_ports None [demo_object ''y''] [] []
      (Some (''env'', ''prod'', ''t1'')) demo_stored"
  have ok: "fst ?a = Inr ()" by code_simp
  have "?a = (Inr (), snd ?a)" using ok by (metis prod.collapse)
  moreover have "object_named [demo_object ''y''] ''o'' = Some (demo_object ''y'')" by code_simp
  ultimately show ?thesis
    using update_all_or_nothing [of "demo_ambient 5" demo_ports None "[demo_object ''y'']" "[]" "[]"
        "Some (''env'', ''prod'', ''t1'')" demo_stored "Inr ()" "snd ?a"] by simp
qed


section \<open>History\<close>

definition replay :: "ObjectChange list \<Rightarrow> (string \<Rightarrow> string) \<Rightarrow> string \<Rightarrow> string" where
  "replay changes = fold (\<lambda>change values. \<lambda>key.
     if ch_field change = ''properties.'' @ key then ch_new_value change else values key) changes"

definition changes_in :: "Partition \<Rightarrow> string \<Rightarrow> ObjectChange list" where
  "changes_in p oid = (case pt_changes p oid of None \<Rightarrow> [] | Some changes \<Rightarrow> changes)"

lemma prune_changes_in:
  "changes_in (prune_changes c i p) oid
     = (if oid = i then filter (\<lambda>change. c \<le> ch_timestamp change) (changes_in p oid) else changes_in p oid)"
  by (auto simp: prune_changes_def changes_in_def Let_def split: option.splits)

lemma fold_prune_changes_in:
  "changes_in (fold (prune_changes c) ids p) oid
     = (if oid \<in> set ids then filter (\<lambda>change. c \<le> ch_timestamp change) (changes_in p oid) else changes_in p oid)"
  by (induction ids arbitrary: p) (simp_all add: prune_changes_in)

lemma fold_replay_keys:
  "fold (\<lambda>change values. \<lambda>key. if ch_field change = ''properties.'' @ key then ch_new_value change else values key)
     (map (\<lambda>k. change k) ks) values key
   = (if key \<in> set ks then w key else values key)"
  if "\<And>k. ch_field (change k) = ''properties.'' @ k" "\<And>k. ch_new_value (change k) = w k"
  using that by (induction ks arbitrary: "values") auto

lemma value_outside_keys:
  assumes "key \<notin> set (property_keys previous object)"
  shows "value_or_empty previous key = [] \<and> value_or_empty object key = []"
proof -
  have "key \<notin> fst ` set (so_properties previous)" "key \<notin> fst ` set (so_properties object)"
    using assms by (simp_all add: property_keys_def bt_keys_def)
  then have "map_of (so_properties previous) key = None" "map_of (so_properties object) key = None"
    by (simp_all only: map_of_eq_None_iff not_False_eq_True)
  then show ?thesis by (simp add: value_or_empty_def)
qed

lemma replay_object_changes:
  "replay (object_changes amb author previous object) (value_or_empty previous) key = value_or_empty object key"
proof (cases "key \<in> set (filter (\<lambda>key. value_or_empty previous key \<noteq> value_or_empty object key)
    (property_keys previous object))")
  case True
  then show ?thesis unfolding replay_def object_changes_def
    by (subst fold_replay_keys [where w = "value_or_empty object"]) simp_all
next
  case False
  then have "value_or_empty previous key = value_or_empty object key"
    using value_outside_keys [of key previous object] by auto
  with False show ?thesis unfolding replay_def object_changes_def
    by (subst fold_replay_keys [where w = "value_or_empty object"]) simp_all
qed

lemma heartbeat_values:
  assumes "skip_execution_claim_heartbeat previous object" and "key \<noteq> ''expires_at''"
  shows "value_or_empty previous key = value_or_empty object key"
proof (cases "key \<in> set (property_keys previous object)")
  case True
  then show ?thesis using assms
    by (auto simp: skip_execution_claim_heartbeat_def list_all_iff value_or_empty_def)
qed (use value_outside_keys in simp)

lemma record_memory_changes_in:
  "\<exists>kept. changes_in (record_memory_changes amb author previous object p) (so_id object)
     = kept @ (if skip_execution_claim_heartbeat previous object then [] else object_changes amb author previous object)
     \<and> (kept = changes_in p (so_id object)
        \<or> kept = filter (\<lambda>change. i64_saturating_sub (am_stamp amb (so_id object)) catalog_history_retention_ms
                        \<le> ch_timestamp change) (changes_in p (so_id object)))"
proof -
  define q where "q = prune_memory_execution_claim_history (am_stamp amb (so_id object)) p"
  have q: "changes_in q (so_id object) = changes_in p (so_id object)
      \<or> changes_in q (so_id object) = filter (\<lambda>change.
          i64_saturating_sub (am_stamp amb (so_id object)) catalog_history_retention_ms \<le> ch_timestamp change)
          (changes_in p (so_id object))"
    unfolding q_def prune_memory_execution_claim_history_def Let_def fold_prune_changes_in by simp
  have "changes_in (record_memory_changes amb author previous object p) (so_id object)
     = changes_in q (so_id object) @ (if skip_execution_claim_heartbeat previous object then []
         else object_changes amb author previous object)"
    unfolding record_memory_changes_def Let_def q_def [symmetric]
    by (simp add: push_changes_def changes_in_def)
  with q show ?thesis by blast
qed

text \<open>C33. History replays: a guarded write over an existing object appends to the object's history
  exactly the changes that turn the old property values into the new ones, after at most dropping
  entries older than the retention; a lease heartbeat appends nothing and changes no value but the
  expiry.\<close>
theorem history_replays:
  assumes "memory_guarded_put amb tenant object ns key token create g = (Inr object', g')"
    and "memory_get g tenant (so_id object) = Some previous"
  shows "\<exists>kept delta. memory_changes g' tenant (so_id object) = kept @ delta
    \<and> (kept = memory_changes g tenant (so_id object)
       \<or> kept = filter (\<lambda>change. i64_saturating_sub (am_stamp amb (so_id object)) catalog_history_retention_ms
            \<le> ch_timestamp change) (memory_changes g tenant (so_id object)))
    \<and> memory_get g' tenant (so_id object) = Some object
    \<and> (if skip_execution_claim_heartbeat previous object
       then delta = [] \<and> (\<forall>name. name \<noteq> ''expires_at'' \<longrightarrow> value_or_empty previous name = value_or_empty object name)
       else \<forall>name. replay delta (value_or_empty previous) name = value_or_empty object name)"
proof -
  define p where "p = partition_of g tenant"
  have g': "g' = set_partition g tenant (insert_object object
      (record_memory_changes amb (mg_principal g) previous object p))"
    using assms by (auto simp: memory_guarded_put_def Let_def memory_get_def p_def split: sum.splits if_splits)
  define delta where "delta = (if skip_execution_claim_heartbeat previous object then []
    else object_changes amb (mg_principal g) previous object)"
  obtain kept where k: "changes_in (record_memory_changes amb (mg_principal g) previous object p) (so_id object)
      = kept @ delta" and kept: "kept = changes_in p (so_id object)
        \<or> kept = filter (\<lambda>change. i64_saturating_sub (am_stamp amb (so_id object)) catalog_history_retention_ms
                        \<le> ch_timestamp change) (changes_in p (so_id object))"
    using record_memory_changes_in [of amb "mg_principal g" previous object p] unfolding delta_def by blast
  have c: "memory_changes g' tenant (so_id object) = kept @ delta"
    using k by (simp add: memory_changes_def changes_in_def g')
  have old: "memory_changes g tenant (so_id object) = changes_in p (so_id object)"
    by (simp add: memory_changes_def changes_in_def p_def)
  have "if skip_execution_claim_heartbeat previous object
       then delta = [] \<and> (\<forall>name. name \<noteq> ''expires_at'' \<longrightarrow> value_or_empty previous name = value_or_empty object name)
       else \<forall>name. replay delta (value_or_empty previous) name = value_or_empty object name"
    using heartbeat_values [of previous object] by (simp add: delta_def replay_object_changes)
  moreover have "memory_get g' tenant (so_id object) = Some object" by (simp add: memory_get_def g')
  ultimately show ?thesis
    using c kept unfolding old by (intro exI [of _ kept] exI [of _ delta] conjI)
qed

theorem history_replays_witness:
  "\<exists>delta. memory_changes (snd (memory_guarded_put (demo_ambient 5) None (demo_object ''y'') ''env'' ''prod'' ''t1''
      False demo_stored)) None ''o'' = delta
    \<and> replay delta (value_or_empty (demo_object ''x'')) ''v'' = ''y''"
proof -
  let ?a = "memory_guarded_put (demo_ambient 5) None (demo_object ''y'') ''env'' ''prod'' ''t1'' False demo_stored"
  have "fst ?a = Inr (demo_object ''y'')" by code_simp
  then have a: "?a = (Inr (demo_object ''y''), snd ?a)" by (metis prod.collapse)
  have i: "so_id (demo_object ''y'') = ''o''" and m: "memory_get demo_stored None ''o'' = Some (demo_object ''x'')"
    and n: "memory_changes demo_stored None ''o'' = []" and v: "value_or_empty (demo_object ''y'') ''v'' = ''y''"
    and h: "\<not> skip_execution_claim_heartbeat (demo_object ''x'') (demo_object ''y'')"
    by code_simp+
  from history_replays [OF a, unfolded i, OF m] h n v show ?thesis by auto
qed

section \<open>Refresh and write\<close>

definition demo_refresh :: "LeaseRefresh list" where
  "demo_refresh = [\<lparr>lr_namespace = ''env'', lr_key = ''prod'', lr_fencing_token = ''t1'', lr_ttl_ms = 10,
     lr_extend = True\<rparr>]"


end
