(* ===== verification/Preview.thy ===== *)
theory Preview
  imports Catalog_Leases Signed_Format Environment_Index
begin

text \<open>
  Preview environments, \<open>src/preview.rs\<close>: an environment object that is bound to the pin of a
  governance branch, expires, and is torn down once.  JSON of a pin and SHA-256 are the fields of
  \<open>pin_codec\<close>; \<open>maintenance::ensure_configuration\<close>, which claims the environment and writes its
  maintenance configuration, is the argument \<open>configure\<close>.  Other calls may run between the read and the
  creation of an environment: \<open>between\<close> is what they do to the graph.
\<close>

abbreviation pin_contract :: string where "pin_contract \<equiv> ''tenkai.branch_pin.v1''"
abbreviation environment_kind_preview :: string where "environment_kind_preview \<equiv> ''preview''"
abbreviation status_active :: string where "status_active \<equiv> ''active''"
abbreviation status_torn_down :: string where "status_torn_down \<equiv> ''torn_down''"
abbreviation teardown_expired :: string where "teardown_expired \<equiv> ''expired''"
abbreviation teardown_branch_closed :: string where "teardown_branch_closed \<equiv> ''branch_closed''"

record BranchPin =
  bp_contract :: string
  bp_namespace :: string
  bp_branch_id :: string
  bp_head_revision :: string
  bp_pin_digest :: string

record PreviewInspect =
  pi_pin_digest :: string
  pi_plan_digest :: string
  pi_expires_at :: int
  pi_status :: string
  pi_teardown_reason :: "string option"
  pi_teardown_at :: "int option"

record TeardownEvidence =
  te_environment :: string
  te_pin_digest :: string
  te_plan_digest :: string
  te_reason :: string
  te_torn_down_at :: int

record pin_codec =
  pin_encode :: "BranchPin \<Rightarrow> string option"
  pin_decode :: "string \<Rightarrow> BranchPin option"
  pin_sha256 :: "bytes \<Rightarrow> string"

datatype preview_error =
    Bad_Environment_Name ontology_error
  | Unknown_Pin_Contract string
  | Bad_Pin_Text ontology_error
  | Bad_Pin_Digest format_error
  | Pin_Not_Encoded
  | Expiry_Not_In_Future string
  | Object_Is_Not_Environment string string
  | Environment_Is_Not_Preview string
  | Other_Branch_Pin string
  | Preview_Torn_Down string string
  | Other_Expiry string
  | Missing_Preview_Property string string
  | Unreadable_Pin string
  | Pin_Digest_Differs string
  | Plan_Digest_Differs string
  | Malformed_Expiry string
  | Unknown_Preview_Status string string
  | Malformed_Teardown_Time string
  | Preview_Expired string int
  | Preview_Disappeared string
  | Environment_Not_Registered string
  | Preview_Promotion_Refused string
  | Preview_Store catalog_error
  | Configuration_Failed

definition pin_validate :: "BranchPin \<Rightarrow> preview_error + unit" where
  "pin_validate pin =
     bind_r (ensure (bp_contract pin = pin_contract) (Unknown_Pin_Contract (bp_contract pin))) (\<lambda>_.
     bind_r (map_err Bad_Pin_Text (validate_opaque_identifier ''branch pin namespace'' (bp_namespace pin))) (\<lambda>_.
     bind_r (map_err Bad_Pin_Text (validate_opaque_identifier ''branch pin branch_id'' (bp_branch_id pin))) (\<lambda>_.
     bind_r (map_err Bad_Pin_Text (validate_opaque_identifier ''branch pin head_revision'' (bp_head_revision pin))) (\<lambda>_.
     map_err Bad_Pin_Digest (validate_prefixed_digest ''branch pin pin_digest'' (bp_pin_digest pin))))))"

definition pin_bytes :: "BranchPin \<Rightarrow> bytes" where
  "pin_bytes pin = foldl push_len_prefixed (''TENKAI-PREVIEW-PLAN-V1'' @ [CHR 0x00])
     [bp_contract pin, bp_namespace pin, bp_branch_id pin, bp_head_revision pin, bp_pin_digest pin]"

definition pin_plan_digest :: "pin_codec \<Rightarrow> BranchPin \<Rightarrow> preview_error + string" where
  "pin_plan_digest c pin = bind_r (pin_validate pin) (\<lambda>_. Inr (''sha256:'' @ pin_sha256 c (pin_bytes pin)))"

definition pin_canonical_json :: "pin_codec \<Rightarrow> BranchPin \<Rightarrow> preview_error + string" where
  "pin_canonical_json c pin = bind_r (pin_validate pin) (\<lambda>_. ok_or Pin_Not_Encoded (pin_encode c pin))"

definition is_preview :: "StoredObject \<Rightarrow> bool" where
  "is_preview object \<longleftrightarrow> bt_get (so_properties object) ''environment_kind'' = Some environment_kind_preview"

definition refuse_channel_promotion :: "StoredObject \<Rightarrow> preview_error + unit" where
  "refuse_channel_promotion object =
     ensure (\<not> is_preview object) (Preview_Promotion_Refused (so_name object))"

definition required_prop :: "StoredObject \<Rightarrow> string \<Rightarrow> preview_error + string" where
  "required_prop object key =
     ok_or (Missing_Preview_Property (so_name object) key) (bt_get (so_properties object) key)"

definition stored_inspect :: "pin_codec \<Rightarrow> StoredObject \<Rightarrow> preview_error + PreviewInspect" where
  "stored_inspect c object =
     bind_r (required_prop object ''preview_pin'') (\<lambda>raw.
     bind_r (ok_or (Unreadable_Pin (so_name object)) (pin_decode c raw)) (\<lambda>pin.
     bind_r (pin_validate pin) (\<lambda>_.
     bind_r (required_prop object ''preview_pin_digest'') (\<lambda>pin_digest.
     bind_r (ensure (pin_digest = bp_pin_digest pin) (Pin_Digest_Differs (so_name object))) (\<lambda>_.
     bind_r (required_prop object ''preview_plan_digest'') (\<lambda>plan_digest.
     bind_r (pin_plan_digest c pin) (\<lambda>expected.
     bind_r (ensure (plan_digest = expected) (Plan_Digest_Differs (so_name object))) (\<lambda>_.
     bind_r (required_prop object ''preview_expires_at'') (\<lambda>expiry.
     bind_r (ok_or (Malformed_Expiry (so_name object)) (parse_i64 expiry)) (\<lambda>expires_at.
     bind_r (required_prop object ''preview_status'') (\<lambda>status.
     bind_r (ensure (status = status_active \<or> status = status_torn_down)
         (Unknown_Preview_Status (so_name object) status)) (\<lambda>_.
     bind_r (case bt_get (so_properties object) ''preview_teardown_at'' of
          None \<Rightarrow> Inr None
        | Some value \<Rightarrow> bind_r (ok_or (Malformed_Teardown_Time (so_name object)) (parse_i64 value)) (\<lambda>at. Inr (Some at)))
       (\<lambda>teardown_at.
     Inr \<lparr>pi_pin_digest = pin_digest, pi_plan_digest = plan_digest, pi_expires_at = expires_at, pi_status = status,
          pi_teardown_reason = bt_get (so_properties object) ''preview_teardown_reason'',
          pi_teardown_at = teardown_at\<rparr>)))))))))))))"

definition inspect_from_object :: "pin_codec \<Rightarrow> StoredObject \<Rightarrow> preview_error + PreviewInspect option" where
  "inspect_from_object c object =
     (if \<not> is_preview object then Inr None
      else bind_r (stored_inspect c object) (\<lambda>preview. Inr (Some preview)))"

definition teardown_reason_or :: "string \<Rightarrow> PreviewInspect \<Rightarrow> string" where
  "teardown_reason_or fallback preview = (case pi_teardown_reason preview of Some reason \<Rightarrow> reason | None \<Rightarrow> fallback)"

definition admit_plan :: "pin_codec \<Rightarrow> StoredObject \<Rightarrow> int \<Rightarrow> preview_error + unit" where
  "admit_plan c object now =
     bind_r (inspect_from_object c object) (\<lambda>inspected. case inspected of
       None \<Rightarrow> Inr ()
     | Some preview \<Rightarrow>
         (if pi_status preview = status_torn_down
          then Inl (Preview_Torn_Down (so_name object) (teardown_reason_or ''recorded teardown'' preview))
          else if pi_status preview = status_active
          then ensure (now < pi_expires_at preview) (Preview_Expired (so_name object) (pi_expires_at preview))
          else Inl (Unknown_Preview_Status (so_name object) (pi_status preview))))"

definition cleared_at_teardown :: "string \<Rightarrow> bool" where
  "cleared_at_teardown key \<longleftrightarrow> starts_with key ''deployed.'' \<or> starts_with key ''deployed_release.''
     \<or> starts_with key ''deployed_prev.'' \<or> starts_with key ''deployment_''"

definition torn_down_object :: "string \<Rightarrow> int \<Rightarrow> StoredObject \<Rightarrow> StoredObject" where
  "torn_down_object reason now object = object\<lparr>so_properties :=
       bt_insert ''preview_teardown_at'' (show_int now)
         (bt_insert ''preview_teardown_reason'' reason
           (bt_insert ''preview_status'' status_torn_down
             (filter (\<lambda>(key, _). \<not> cleared_at_teardown key) (so_properties object)))),
     so_updated := now\<rparr>"

definition persist_teardown ::
  "pin_codec \<Rightarrow> ambient \<Rightarrow> string \<Rightarrow> StoredObject \<Rightarrow> string \<Rightarrow> int \<Rightarrow> MemoryCatalogGraph
     \<Rightarrow> (preview_error + TeardownEvidence) \<times> MemoryCatalogGraph" where
  "persist_teardown c amb tenant object reason now g =
     (if \<not> is_preview object then (Inl (Environment_Is_Not_Preview (so_name object)), g)
      else case stored_inspect c object of
        Inl e \<Rightarrow> (Inl e, g)
      | Inr preview \<Rightarrow>
          (Inr \<lparr>te_environment = so_name object, te_pin_digest = pi_pin_digest preview,
             te_plan_digest = pi_plan_digest preview, te_reason = reason, te_torn_down_at = now\<rparr>,
           snd (memory_put amb (Some tenant) (torn_down_object reason now object) g)))"

definition replay_or_conflict ::
  "pin_codec \<Rightarrow> StoredObject \<Rightarrow> string \<Rightarrow> BranchPin \<Rightarrow> string \<Rightarrow> int \<Rightarrow> preview_error + unit" where
  "replay_or_conflict c existing name pin plan_digest expires_at =
     bind_r (ensure (so_kind existing = kind_environment)
         (Object_Is_Not_Environment (so_id existing) (so_kind existing))) (\<lambda>_.
     bind_r (ensure (is_preview existing) (Environment_Is_Not_Preview name)) (\<lambda>_.
     bind_r (stored_inspect c existing) (\<lambda>stored.
     bind_r (ensure (pi_pin_digest stored = bp_pin_digest pin \<and> pi_plan_digest stored = plan_digest)
         (Other_Branch_Pin name)) (\<lambda>_.
     bind_r (ensure (pi_status stored \<noteq> status_torn_down)
         (Preview_Torn_Down name (teardown_reason_or ''recorded teardown'' stored))) (\<lambda>_.
     ensure (pi_expires_at stored = expires_at) (Other_Expiry name))))))"

definition preview_object :: "string \<Rightarrow> BranchPin \<Rightarrow> string \<Rightarrow> string \<Rightarrow> int \<Rightarrow> string \<Rightarrow> int \<Rightarrow> StoredObject" where
  "preview_object name pin pin_json plan_digest expires_at description now =
     \<lparr>so_id = env_id name, so_kind = kind_environment, so_name = name, so_namespace = ''tenkai'', so_external_id = [],
      so_properties = bt_of_list [
        (''description'', if description = [] then ''preview environment bound to '' @ bp_pin_digest pin else description),
        (''environment_kind'', environment_kind_preview),
        (''preview_pin'', pin_json),
        (''preview_pin_digest'', bp_pin_digest pin),
        (''preview_plan_digest'', plan_digest),
        (''preview_expires_at'', show_int expires_at),
        (''preview_status'', status_active)],
      so_created = now, so_updated = now\<rparr>"

definition provision ::
  "pin_codec \<Rightarrow> (MemoryCatalogGraph \<Rightarrow> MemoryCatalogGraph)
     \<Rightarrow> (MemoryCatalogGraph \<Rightarrow> (preview_error + unit) \<times> MemoryCatalogGraph)
     \<Rightarrow> string \<Rightarrow> string \<Rightarrow> BranchPin \<Rightarrow> int \<Rightarrow> string \<Rightarrow> int \<Rightarrow> MemoryCatalogGraph
     \<Rightarrow> (preview_error + unit) \<times> MemoryCatalogGraph" where
  "provision c between configure tenant name pin expires_at description now g =
     (case bind_r (map_err Bad_Environment_Name (validate_identifier ''environment'' name)) (\<lambda>_.
           bind_r (pin_validate pin) (\<lambda>_.
           bind_r (ensure (now < expires_at) (Expiry_Not_In_Future name)) (\<lambda>_.
           bind_r (pin_plan_digest c pin) (\<lambda>plan_digest.
           bind_r (pin_canonical_json c pin) (\<lambda>pin_json. Inr (plan_digest, pin_json)))))) of
        Inl e \<Rightarrow> (Inl e, g)
      | Inr (plan_digest, pin_json) \<Rightarrow>
          (case memory_get g (Some tenant) (env_id name) of
             Some existing \<Rightarrow> (replay_or_conflict c existing name pin plan_digest expires_at, g)
           | None \<Rightarrow>
               (case memory_create (Some tenant) (preview_object name pin pin_json plan_digest expires_at description now)
                   (between g) of
                  (Inr _, g) \<Rightarrow> configure g
                | (Inl (Already_Exists _ _), g) \<Rightarrow>
                    (case memory_get g (Some tenant) (env_id name) of
                       None \<Rightarrow> (Inl (Preview_Disappeared name), g)
                     | Some existing \<Rightarrow> (replay_or_conflict c existing name pin plan_digest expires_at, g))
                | (Inl e, g) \<Rightarrow> (Inl (Preview_Store e), g))))"

text \<open>The shared body of \<open>teardown_due\<close> and \<open>is_terminal_residue\<close>: whether the environment is torn down,
  and the evidence when this call recorded it.\<close>
definition expire_preview ::
  "pin_codec \<Rightarrow> ambient \<Rightarrow> string \<Rightarrow> string \<Rightarrow> int \<Rightarrow> MemoryCatalogGraph
     \<Rightarrow> (preview_error + bool \<times> TeardownEvidence option) \<times> MemoryCatalogGraph" where
  "expire_preview c amb tenant env now g =
     (case validate_identifier ''environment'' env of
        Inl e \<Rightarrow> (Inl (Bad_Environment_Name e), g)
      | Inr _ \<Rightarrow>
          (case memory_get g (Some tenant) (env_id env) of
             None \<Rightarrow> (Inr (False, None), g)
           | Some object \<Rightarrow>
               (if \<not> is_preview object then (Inr (False, None), g)
                else case stored_inspect c object of
                  Inl e \<Rightarrow> (Inl e, g)
                | Inr preview \<Rightarrow>
                    (if pi_status preview = status_torn_down then (Inr (True, None), g)
                     else if now < pi_expires_at preview then (Inr (False, None), g)
                     else case persist_teardown c amb tenant object teardown_expired now g of
                       (Inl e, g) \<Rightarrow> (Inl e, g)
                     | (Inr evidence, g) \<Rightarrow> (Inr (True, Some evidence), g)))))"

definition teardown_due ::
  "pin_codec \<Rightarrow> ambient \<Rightarrow> string \<Rightarrow> string \<Rightarrow> int \<Rightarrow> MemoryCatalogGraph
     \<Rightarrow> (preview_error + TeardownEvidence option) \<times> MemoryCatalogGraph" where
  "teardown_due c amb tenant env now g =
     (case expire_preview c amb tenant env now g of (r, g) \<Rightarrow> (bind_r r (\<lambda>(_, evidence). Inr evidence), g))"

definition is_terminal_residue ::
  "pin_codec \<Rightarrow> ambient \<Rightarrow> string \<Rightarrow> string \<Rightarrow> int \<Rightarrow> MemoryCatalogGraph
     \<Rightarrow> (preview_error + bool) \<times> MemoryCatalogGraph" where
  "is_terminal_residue c amb tenant env now g =
     (case expire_preview c amb tenant env now g of (r, g) \<Rightarrow> (bind_r r (\<lambda>(residue, _). Inr residue), g))"

definition close_branch ::
  "pin_codec \<Rightarrow> ambient \<Rightarrow> string \<Rightarrow> string \<Rightarrow> int \<Rightarrow> MemoryCatalogGraph
     \<Rightarrow> (preview_error + TeardownEvidence) \<times> MemoryCatalogGraph" where
  "close_branch c amb tenant env now g =
     (case bind_r (map_err Bad_Environment_Name (validate_identifier ''environment'' env)) (\<lambda>_.
           ok_or (Environment_Not_Registered env) (memory_get g (Some tenant) (env_id env))) of
        Inl e \<Rightarrow> (Inl e, g)
      | Inr object \<Rightarrow>
          (if \<not> is_preview object then (Inl (Environment_Is_Not_Preview env), g)
           else case stored_inspect c object of
             Inl e \<Rightarrow> (Inl e, g)
           | Inr preview \<Rightarrow>
               (if pi_status preview = status_torn_down
                then (Inr \<lparr>te_environment = env, te_pin_digest = pi_pin_digest preview,
                        te_plan_digest = pi_plan_digest preview,
                        te_reason = teardown_reason_or teardown_branch_closed preview,
                        te_torn_down_at = (case pi_teardown_at preview of Some at \<Rightarrow> at | None \<Rightarrow> now)\<rparr>, g)
                else persist_teardown c amb tenant object teardown_branch_closed now g)))"


section \<open>Torn down once\<close>

text \<open>Objects stand under their own ids, as every write of the graph files them.\<close>
definition keyed :: "string \<Rightarrow> MemoryCatalogGraph \<Rightarrow> bool" where
  "keyed tenant g \<longleftrightarrow> (\<forall>oid object. memory_get g (Some tenant) oid = Some object \<longrightarrow> so_id object = oid)"

definition preview_status :: "StoredObject \<Rightarrow> string option" where
  "preview_status object = bt_get (so_properties object) ''preview_status''"

definition preview_moves :: "StoredObject \<Rightarrow> StoredObject \<Rightarrow> bool" where
  "preview_moves before after \<longleftrightarrow> after = before
     \<or> (is_preview before \<and> preview_status before = Some status_active
        \<and> is_preview after \<and> preview_status after = Some status_torn_down
        \<and> list_all (\<lambda>key. bt_get (so_properties after) key = bt_get (so_properties before) key)
            [''preview_pin'', ''preview_pin_digest'', ''preview_plan_digest'', ''preview_expires_at'']
        \<and> (\<forall>key. cleared_at_teardown key \<longrightarrow> bt_get (so_properties after) key = None))"

definition leaves_environment :: "string \<Rightarrow> string \<Rightarrow> (MemoryCatalogGraph \<Rightarrow> MemoryCatalogGraph) \<Rightarrow> bool" where
  "leaves_environment tenant name f \<longleftrightarrow> (\<forall>g. keyed tenant g \<longrightarrow> keyed tenant (f g)
     \<and> memory_get (f g) (Some tenant) (env_id name) = memory_get g (Some tenant) (env_id name))"

text \<open>Any sequence of calls of this component by a tenant, for any environments, with anything else in
  between that leaves the environment object of \<open>name\<close> alone; between the read and the creation of a
  provision a whole such sequence may run.\<close>
inductive preview_run :: "pin_codec \<Rightarrow> string \<Rightarrow> string \<Rightarrow> MemoryCatalogGraph \<Rightarrow> MemoryCatalogGraph \<Rightarrow> bool"
  for c tenant name where
  pv_refl: "preview_run c tenant name g g"
| pv_provision: "\<lbrakk>preview_run c tenant name g g1; preview_run c tenant name g1 (between g1);
      leaves_environment tenant name (\<lambda>g. snd (configure g));
      provision c between configure tenant other pin expires_at description now g1 = (r, g2)\<rbrakk>
    \<Longrightarrow> preview_run c tenant name g g2"
| pv_expire: "\<lbrakk>preview_run c tenant name g g1; expire_preview c amb tenant other now g1 = (r', g2)\<rbrakk>
    \<Longrightarrow> preview_run c tenant name g g2"
| pv_close: "\<lbrakk>preview_run c tenant name g g1; close_branch c amb tenant other now g1 = (r'', g2)\<rbrakk>
    \<Longrightarrow> preview_run c tenant name g g2"
| pv_other: "\<lbrakk>preview_run c tenant name g g1; leaves_environment tenant name f\<rbrakk> \<Longrightarrow> preview_run c tenant name g (f g1)"

lemma map_of_filter_key: "map_of (filter (\<lambda>(k, _). P k) m) k = (if P k then map_of m k else None)"
  by (induction m) auto

lemma preview_keys_kept [simp]:
  "\<not> cleared_at_teardown ''preview_pin''" "\<not> cleared_at_teardown ''preview_pin_digest''"
  "\<not> cleared_at_teardown ''preview_plan_digest''" "\<not> cleared_at_teardown ''preview_expires_at''"
  "\<not> cleared_at_teardown ''environment_kind''"  "\<not> cleared_at_teardown ''preview_status''"
  "\<not> cleared_at_teardown ''preview_teardown_reason''" "\<not> cleared_at_teardown ''preview_teardown_at''"
  by code_simp+

lemma stored_inspect_status: "stored_inspect c object = Inr preview \<Longrightarrow> preview_status object = Some (pi_status preview)
    \<and> pi_status preview \<in> {status_active, status_torn_down}"
  by (auto simp: stored_inspect_def required_prop_def preview_status_def result_simps)

lemma preview_moves_trans: "preview_moves a b \<Longrightarrow> preview_moves b c \<Longrightarrow> preview_moves a c"
  by (auto simp: preview_moves_def)

lemma torn_down_moves:
  assumes "is_preview object" and "preview_status object = Some status_active"
  shows "preview_moves object (torn_down_object reason now object)"
proof -
  have get: "bt_get (so_properties (torn_down_object reason now object)) key
      = (if key = ''preview_teardown_at'' then Some (show_int now)
         else if key = ''preview_teardown_reason'' then Some reason
         else if key = ''preview_status'' then Some status_torn_down
         else if cleared_at_teardown key then None else bt_get (so_properties object) key)" for key
    by (simp add: torn_down_object_def map_of_filter_key)
  have "cleared_at_teardown key \<Longrightarrow> bt_get (so_properties (torn_down_object reason now object)) key = None" for key
    using preview_keys_kept unfolding get by metis
  then show ?thesis using assms by (simp add: preview_moves_def is_preview_def preview_status_def get)
qed


text \<open>How one call may change the graph, as far as the environment object of \<open>name\<close> goes.\<close>
definition preview_effect :: "string \<Rightarrow> string \<Rightarrow> MemoryCatalogGraph \<Rightarrow> MemoryCatalogGraph \<Rightarrow> bool" where
  "preview_effect tenant name g g' \<longleftrightarrow> (keyed tenant g \<longrightarrow> keyed tenant g'
     \<and> (\<forall>before. memory_get g (Some tenant) (env_id name) = Some before
          \<longrightarrow> (\<exists>after. memory_get g' (Some tenant) (env_id name) = Some after \<and> preview_moves before after)))"

lemma preview_effect_refl [simp]: "preview_effect tenant name g g"
  by (simp add: preview_effect_def preview_moves_def)

lemma preview_effect_trans:
  "preview_effect tenant name g g1 \<Longrightarrow> preview_effect tenant name g1 g2 \<Longrightarrow> preview_effect tenant name g g2"
  unfolding preview_effect_def using preview_moves_trans by meson

lemma leaves_effect: "leaves_environment tenant name f \<Longrightarrow> preview_effect tenant name g (f g)"
  by (simp add: leaves_environment_def preview_effect_def preview_moves_def)

lemma put_keyed: "keyed tenant g \<Longrightarrow> keyed tenant (snd (memory_put amb (Some tenant) object g))"
  by (simp add: keyed_def memory_put_get)

lemma persist_effect:
  assumes "persist_teardown c amb tenant object reason now g = (r, g')" and "stored_inspect c object = Inr preview"
    and "pi_status preview \<noteq> status_torn_down" and "memory_get g (Some tenant) (env_id other) = Some object"
  shows "preview_effect tenant name g g'"
proof (cases "is_preview object")
  case True
  let ?o = "torn_down_object reason now object"
  have g': "g' = snd (memory_put amb (Some tenant) ?o g)" using assms(1,2) True by (simp add: persist_teardown_def)
  have m: "preview_moves object ?o"
    using torn_down_moves [OF True] stored_inspect_status [OF assms(2)] assms(3) by auto
  have i: "so_id ?o = so_id object" by (simp add: torn_down_object_def)
  show ?thesis
    unfolding preview_effect_def
  proof (intro impI conjI allI)
    assume k: "keyed tenant g"
    then show "keyed tenant g'" unfolding g' by (rule put_keyed)
    have "so_id object = env_id other" using k assms(4) by (simp add: keyed_def)
    then show "\<exists>after. memory_get g' (Some tenant) (env_id name) = Some after \<and> preview_moves before after"
      if "memory_get g (Some tenant) (env_id name) = Some before" for before
      using that assms(4) m by (auto simp: g' memory_put_get i preview_moves_def)
  qed
qed (use assms(1) in \<open>simp add: persist_teardown_def\<close>)

lemma expire_effect: "expire_preview c amb tenant other now g = (r, g') \<Longrightarrow> preview_effect tenant name g g'"
  by (auto simp: expire_preview_def split: sum.splits option.splits if_splits prod.splits dest: persist_effect)

lemma close_effect: "close_branch c amb tenant other now g = (r, g') \<Longrightarrow> preview_effect tenant name g g'"
  by (auto simp: close_branch_def result_simps split: sum.splits if_splits dest: persist_effect)

lemma create_effect:
  assumes "memory_create (Some tenant) object g = (r, g')"
  shows "preview_effect tenant name g g'"
  using assms
  by (auto simp: memory_create_def preview_effect_def keyed_def memory_get_def Let_def preview_moves_def bt_contains_iff
      split: if_splits)

lemma provision_effect:
  assumes "provision c between configure tenant other pin expires_at description now g = (r, g')"
    and "preview_effect tenant name g (between g)" and "leaves_environment tenant name (\<lambda>g. snd (configure g))"
  shows "preview_effect tenant name g g'"
proof -
  have made: "preview_effect tenant name g h" if "memory_create (Some tenant) object (between g) = (r', h)" for object r' h
    using preview_effect_trans [OF assms(2) create_effect [OF that]] .
  have configured: "preview_effect tenant name g g''"
    if "memory_create (Some tenant) object (between g) = (r', h)" and "configure h = (r'', g'')" for object r' r'' h g''
    using preview_effect_trans [OF made [OF that(1)] leaves_effect [OF assms(3)]] that(2) by simp
  show ?thesis
    using assms(1) made configured
    by (auto simp: provision_def split: sum.splits option.splits prod.splits catalog_error.splits)
qed


text \<open>C38. A preview environment is torn down at most once and nothing else happens to it: over any calls
  that provision, expire or close previews, in any order and for any environments, an environment object
  is never deleted; it stays as it is, or an active preview becomes a torn-down one that keeps its pin,
  digests and expiry and has lost every record of what was deployed.  In particular environments that
  are not previews and previews that are torn down do not change at all.\<close>
theorem preview_torn_down_once:
  assumes "preview_run c tenant name g g'" and "keyed tenant g"
    and "memory_get g (Some tenant) (env_id name) = Some before"
  shows "\<exists>after. memory_get g' (Some tenant) (env_id name) = Some after \<and> preview_moves before after"
proof -
  have "preview_effect tenant name g g'"
    using assms(1)
    by induction (blast intro: preview_effect_refl preview_effect_trans leaves_effect provision_effect expire_effect
        close_effect)+
  then show ?thesis using assms(2,3) by (simp add: preview_effect_def)
qed

definition demo_branch_pin :: BranchPin where
  "demo_branch_pin = \<lparr>bp_contract = pin_contract, bp_namespace = ''n'', bp_branch_id = ''b'',
     bp_head_revision = ''r'', bp_pin_digest = ''sha256:'' @ replicate 64 CHR ''a''\<rparr>"

definition demo_pin_codec :: pin_codec where
  "demo_pin_codec = \<lparr>pin_encode = (\<lambda>pin. Some (bp_branch_id pin)), pin_decode = (\<lambda>raw. Some demo_branch_pin),
     pin_sha256 = (\<lambda>_. ''0'')\<rparr>"

definition demo_preview :: StoredObject where
  "demo_preview = preview_object ''e'' demo_branch_pin ''b'' ''sha256:0'' 9 [] 1"

definition demo_previewed :: MemoryCatalogGraph where
  "demo_previewed = snd (memory_create (Some ''t'') demo_preview memory_new)"

lemma demo_pin_valid: "pin_validate demo_branch_pin = Inr ()"
proof -
  have "validate_prefixed_digest label (''sha256:'' @ replicate 64 CHR ''a'') = Inr ()" for label
    unfolding validate_prefixed_digest_def strip_prefix_append
    by (simp add: result_simps list_all_iff is_ascii_hexdigit_def is_ascii_uppercase_def)
  moreover have "validate_opaque_identifier label ''n'' = Inr ()" "validate_opaque_identifier label ''b'' = Inr ()"
      "validate_opaque_identifier label ''r'' = Inr ()" for label by code_simp+
  ultimately show ?thesis by (simp add: pin_validate_def demo_branch_pin_def result_simps del: append.simps)
qed

lemma demo_preview_inspect:
  "stored_inspect demo_pin_codec demo_preview = Inr \<lparr>pi_pin_digest = bp_pin_digest demo_branch_pin,
     pi_plan_digest = ''sha256:0'', pi_expires_at = 9, pi_status = status_active, pi_teardown_reason = None,
     pi_teardown_at = None\<rparr>"
proof -
  have "parse_i64 (show_int 9) = Some 9" by code_simp
  then show ?thesis
    by (simp add: stored_inspect_def required_prop_def demo_preview_def preview_object_def map_of_bt_of_list result_simps
        demo_pin_codec_def demo_pin_valid pin_plan_digest_def)
qed

lemma demo_previewed_get: "memory_get demo_previewed (Some ''t'') (env_id ''e'') = Some demo_preview"
proof -
  have i: "so_id demo_preview = env_id ''e''" by (simp add: demo_preview_def preview_object_def)
  have "partition_of memory_new (Some ''t'') = partition_default"
    by (simp add: memory_new_def partition_of_def)
  then have "snd (memory_create (Some ''t'') demo_preview memory_new)
      = set_partition memory_new (Some ''t'') (insert_object demo_preview partition_default)"
    by (simp add: memory_create_def Let_def bt_contains_iff partition_default_def)
  then show ?thesis by (simp add: demo_previewed_def memory_get_def i)
qed

theorem preview_torn_down_once_witness:
  "\<exists>after. memory_get (snd (close_branch demo_pin_codec (demo_ambient 5) ''t'' ''e'' 5 demo_previewed)) (Some ''t'') (env_id ''e'')
      = Some after \<and> preview_moves demo_preview after \<and> preview_status after = Some status_torn_down"
proof -
  let ?g = "snd (close_branch demo_pin_codec (demo_ambient 5) ''t'' ''e'' 5 demo_previewed)"
  have run: "preview_run demo_pin_codec ''t'' ''e'' demo_previewed ?g"
    by (rule pv_close [OF pv_refl]) (simp add: prod_eq_iff)
  have "keyed ''t'' memory_new"
    by (simp add: keyed_def memory_get_def memory_new_def partition_of_def partition_default_def)
  then have keyed: "keyed ''t'' demo_previewed"
    using create_effect [of "''t''" demo_preview memory_new "fst (memory_create (Some ''t'') demo_preview memory_new)"
        demo_previewed] by (simp add: preview_effect_def demo_previewed_def)
  have "is_preview demo_preview"
    by (simp add: is_preview_def demo_preview_def preview_object_def map_of_bt_of_list)
  moreover have "validate_identifier ''environment'' ''e'' = Inr ()" by code_simp
  ultimately have "?g = snd (memory_put (demo_ambient 5) (Some ''t'') (torn_down_object teardown_branch_closed 5 demo_preview)
      demo_previewed)"
    by (simp add: close_branch_def result_simps demo_previewed_get demo_preview_inspect persist_teardown_def
       )
  then have "memory_get ?g (Some ''t'') (env_id ''e'') = Some (torn_down_object teardown_branch_closed 5 demo_preview)"
    by (simp add: memory_put_get torn_down_object_def demo_preview_def preview_object_def)
  with preview_torn_down_once [OF run keyed demo_previewed_get] show ?thesis
    by (simp add: preview_status_def torn_down_object_def)
qed

end
