(* ===== verification/Delivery_Hold.thy ===== *)
theory Delivery_Hold
  imports Catalog_Leases Plan_Data
begin

text \<open>
  Delivery holds, \<open>src/delivery_hold.rs\<close>: one object per held environment or channel, and an audit event for
  every set, clear and retry.  Reads and writes of a context are those of a tenant's objects in the
  catalog graph; whether the context is embedded, which setting and clearing ask for, is an argument.
\<close>

abbreviation hold_kind :: string where "hold_kind \<equiv> ''tenkai.delivery_hold''"
abbreviation hold_audit_kind :: string where "hold_audit_kind \<equiv> ''tenkai.delivery_hold_audit''"
abbreviation kind_channel :: string where "kind_channel \<equiv> ''tenkai.channel''"

datatype HoldScope = Environment_Scope string | Channel_Scope string string

fun scope_key :: "HoldScope \<Rightarrow> string" where
  "scope_key (Environment_Scope env) = ''environment:'' @ env"
| "scope_key (Channel_Scope product channel) = ''channel:'' @ product @ ''/'' @ channel"

definition hold_id :: "HoldScope \<Rightarrow> string" where
  "hold_id scope = ''tenkai:delivery_hold:'' @ scope_key scope"

record DeliveryHold =
  dh_reason :: string
  dh_actor :: string
  dh_held_at :: int

record HoldAuditEvent =
  ha_action :: string
  ha_reason :: string
  ha_actor :: string
  ha_at :: int

record DeliveryHoldView =
  dv_hold :: "DeliveryHold option"
  dv_audit :: "HoldAuditEvent list"

datatype hold_error =
    Hold_Needs_Embedded
  | Hold_Reason_Empty
  | Hold_Reason_Too_Long
  | Hold_Actor_Empty
  | Hold_Actor_Too_Long
  | Hold_Bad_Name ontology_error
  | Hold_Environment_Missing string
  | Hold_Channel_Missing string string
  | Not_A_Channel string string
  | No_Delivery_Hold string
  | Not_A_Hold string string
  | Hold_Field_Missing string string
  | Hold_Field_Malformed string
  | Hold_Store catalog_error
  | Audit_Ids_Exhausted string
  | Paused_By_Hold string string string string

fun require_exists :: "string \<Rightarrow> MemoryCatalogGraph \<Rightarrow> HoldScope \<Rightarrow> hold_error + unit" where
  "require_exists tenant g (Environment_Scope env) =
     bind_r (map_err Hold_Bad_Name (validate_identifier ''environment'' env)) (\<lambda>_.
     ensure (memory_get g (Some tenant) (env_id env) \<noteq> None) (Hold_Environment_Missing env))"
| "require_exists tenant g (Channel_Scope product channel) =
     bind_r (map_err Hold_Bad_Name (validate_identifier ''product'' product)) (\<lambda>_.
     bind_r (map_err Hold_Bad_Name (validate_identifier ''channel'' channel)) (\<lambda>_.
     case memory_get g (Some tenant) (channel_id product channel) of
       Some object \<Rightarrow> ensure (so_kind object = kind_channel) (Not_A_Channel (so_id object) (so_kind object))
     | None \<Rightarrow> Inl (Hold_Channel_Missing product channel)))"

definition validate_actor :: "string \<Rightarrow> hold_error + string" where
  "validate_actor actor =
     (let actor = trim actor in
      bind_r (ensure (actor \<noteq> []) Hold_Actor_Empty) (\<lambda>_.
      bind_r (ensure (length actor \<le> 256) Hold_Actor_Too_Long) (\<lambda>_. Inr actor)))"

definition validate_reason :: "string \<Rightarrow> hold_error + string" where
  "validate_reason reason =
     (let reason = trim reason in
      bind_r (ensure (reason \<noteq> []) Hold_Reason_Empty) (\<lambda>_.
      bind_r (ensure (length reason \<le> 1024) Hold_Reason_Too_Long) (\<lambda>_. Inr reason)))"

definition required_field :: "StoredObject \<Rightarrow> string \<Rightarrow> hold_error + string" where
  "required_field object key = (case bt_get (so_properties object) key of
     Some value \<Rightarrow> (if value = [] then Inl (Hold_Field_Missing (so_id object) key) else Inr value)
   | None \<Rightarrow> Inl (Hold_Field_Missing (so_id object) key))"

definition hold_object :: "HoldScope \<Rightarrow> DeliveryHold \<Rightarrow> StoredObject" where
  "hold_object scope hold =
     \<lparr>so_id = hold_id scope, so_kind = hold_kind, so_name = scope_key scope, so_namespace = ''tenkai'',
      so_external_id = [],
      so_properties = bt_of_list [(''scope'', scope_key scope), (''reason'', dh_reason hold), (''actor'', dh_actor hold),
        (''held_at'', show_int (dh_held_at hold))],
      so_created = dh_held_at hold, so_updated = dh_held_at hold\<rparr>"

definition get_hold :: "string \<Rightarrow> MemoryCatalogGraph \<Rightarrow> HoldScope \<Rightarrow> hold_error + DeliveryHold option" where
  "get_hold tenant g scope = (case memory_get g (Some tenant) (hold_id scope) of
     None \<Rightarrow> Inr None
   | Some object \<Rightarrow>
       bind_r (ensure (so_kind object = hold_kind) (Not_A_Hold (so_id object) (so_kind object))) (\<lambda>_.
       bind_r (required_field object ''reason'') (\<lambda>reason.
       bind_r (required_field object ''actor'') (\<lambda>actor.
       bind_r (required_field object ''held_at'') (\<lambda>held_at.
       bind_r (ok_or (Hold_Field_Malformed (so_id object)) (parse_i64 held_at)) (\<lambda>at.
       Inr (Some \<lparr>dh_reason = reason, dh_actor = actor, dh_held_at = at\<rparr>)))))))"

definition plan_scopes :: "Plan \<Rightarrow> HoldScope list" where
  "plan_scopes plan = Environment_Scope (pl_environment plan)
     # map (\<lambda>input. Channel_Scope (in_product input) (in_channel input)) (pl_inputs plan)"

fun first_hold ::
  "string \<Rightarrow> MemoryCatalogGraph \<Rightarrow> HoldScope list \<Rightarrow> hold_error + (DeliveryHold \<times> HoldScope) option" where
  "first_hold tenant g [] = Inr None"
| "first_hold tenant g (scope # scopes) =
     bind_r (get_hold tenant g scope) (\<lambda>found. case found of
       Some hold \<Rightarrow> Inr (Some (hold, scope))
     | None \<Rightarrow> first_hold tenant g scopes)"

definition active_for_plan ::
  "string \<Rightarrow> MemoryCatalogGraph \<Rightarrow> Plan \<Rightarrow> hold_error + (DeliveryHold \<times> HoldScope) option" where
  "active_for_plan tenant g plan =
     (if list_all (\<lambda>step. st_action step = Rollback) (pl_steps plan) then Inr None
      else first_hold tenant g (plan_scopes plan))"

definition require_not_held :: "string \<Rightarrow> MemoryCatalogGraph \<Rightarrow> Plan \<Rightarrow> hold_error + unit" where
  "require_not_held tenant g plan =
     bind_r (active_for_plan tenant g plan) (\<lambda>active. case active of
       None \<Rightarrow> Inr ()
     | Some (hold, scope) \<Rightarrow> Inl (Paused_By_Hold (pl_id plan) (scope_key scope) (dh_actor hold) (dh_reason hold)))"

definition audit_id :: "HoldScope \<Rightarrow> int \<Rightarrow> nat \<Rightarrow> string" where
  "audit_id scope at sequence = ''tenkai:delivery_hold_audit:'' @ scope_key scope @ '':'' @ show_int at @ '':''
     @ show_nat sequence"

definition audit_object :: "HoldScope \<Rightarrow> string \<Rightarrow> DeliveryHold \<Rightarrow> nat \<Rightarrow> StoredObject" where
  "audit_object scope action event sequence =
     \<lparr>so_id = audit_id scope (dh_held_at event) sequence, so_kind = hold_audit_kind,
      so_name = action @ '' '' @ scope_key scope, so_namespace = ''tenkai'', so_external_id = [],
      so_properties = bt_of_list [(''scope'', scope_key scope), (''action'', action), (''reason'', dh_reason event),
        (''actor'', dh_actor event), (''at'', show_int (dh_held_at event))],
      so_created = dh_held_at event, so_updated = dh_held_at event\<rparr>"

function append_audit_from ::
  "string \<Rightarrow> HoldScope \<Rightarrow> string \<Rightarrow> DeliveryHold \<Rightarrow> nat \<Rightarrow> MemoryCatalogGraph
     \<Rightarrow> (hold_error + unit) \<times> MemoryCatalogGraph" where
  "append_audit_from tenant scope action event sequence g =
     (if sequence < 1024
      then case memory_create (Some tenant) (audit_object scope action event sequence) g of
             (Inr _, g) \<Rightarrow> (Inr (), g)
           | (Inl (Already_Exists _ _), g) \<Rightarrow> append_audit_from tenant scope action event (sequence + 1) g
           | (Inl e, g) \<Rightarrow> (Inl (Hold_Store e), g)
      else (Inl (Audit_Ids_Exhausted (scope_key scope)), g))"
  by pat_completeness auto
termination
  by (relation "measure (\<lambda>(tenant, scope, action, event, sequence, g). 1024 - sequence)") auto

definition append_audit ::
  "string \<Rightarrow> HoldScope \<Rightarrow> string \<Rightarrow> DeliveryHold \<Rightarrow> MemoryCatalogGraph \<Rightarrow> (hold_error + unit) \<times> MemoryCatalogGraph" where
  "append_audit tenant scope action event g = append_audit_from tenant scope action event 0 g"

definition record_retry ::
  "bool \<Rightarrow> string \<Rightarrow> string \<Rightarrow> string \<Rightarrow> string \<Rightarrow> int \<Rightarrow> MemoryCatalogGraph \<Rightarrow> (hold_error + unit) \<times> MemoryCatalogGraph" where
  "record_retry embedded tenant environment reason actor now g =
     (case bind_r (ensure embedded Hold_Needs_Embedded) (\<lambda>_.
           bind_r (validate_reason reason) (\<lambda>reason.
           bind_r (validate_actor actor) (\<lambda>actor.
           Inr \<lparr>dh_reason = reason, dh_actor = actor, dh_held_at = now\<rparr>))) of
        Inl e \<Rightarrow> (Inl e, g)
      | Inr event \<Rightarrow> append_audit tenant (Environment_Scope environment) ''retry'' event g)"

definition set_hold ::
  "bool \<Rightarrow> ambient \<Rightarrow> string \<Rightarrow> HoldScope \<Rightarrow> string \<Rightarrow> string \<Rightarrow> int \<Rightarrow> MemoryCatalogGraph
     \<Rightarrow> (hold_error + DeliveryHold) \<times> MemoryCatalogGraph" where
  "set_hold embedded amb tenant scope reason actor now g =
     (case bind_r (ensure embedded Hold_Needs_Embedded) (\<lambda>_.
           bind_r (validate_reason reason) (\<lambda>reason.
           bind_r (validate_actor actor) (\<lambda>actor.
           bind_r (require_exists tenant g scope) (\<lambda>_.
           Inr \<lparr>dh_reason = reason, dh_actor = actor, dh_held_at = now\<rparr>)))) of
        Inl e \<Rightarrow> (Inl e, g)
      | Inr hold \<Rightarrow>
          (case append_audit tenant scope ''set'' hold (snd (memory_put amb (Some tenant) (hold_object scope hold) g)) of
             (Inl e, g) \<Rightarrow> (Inl e, g)
           | (Inr _, g) \<Rightarrow> (Inr hold, g)))"

definition clear_hold ::
  "bool \<Rightarrow> string \<Rightarrow> HoldScope \<Rightarrow> string \<Rightarrow> int \<Rightarrow> MemoryCatalogGraph
     \<Rightarrow> (hold_error + DeliveryHold) \<times> MemoryCatalogGraph" where
  "clear_hold embedded tenant scope actor now g =
     (case bind_r (ensure embedded Hold_Needs_Embedded) (\<lambda>_.
           bind_r (validate_actor actor) (\<lambda>actor.
           bind_r (require_exists tenant g scope) (\<lambda>_.
           bind_r (get_hold tenant g scope) (\<lambda>found.
           bind_r (ok_or (No_Delivery_Hold (scope_key scope)) found) (\<lambda>cleared. Inr (actor, cleared)))))) of
        Inl e \<Rightarrow> (Inl e, g)
      | Inr (actor, cleared) \<Rightarrow>
          (case append_audit tenant scope ''clear'' (cleared\<lparr>dh_actor := actor, dh_held_at := now\<rparr>)
              (memory_delete (Some tenant) (hold_id scope) g) of
             (Inl e, g) \<Rightarrow> (Inl e, g)
           | (Inr _, g) \<Rightarrow> (Inr cleared, g)))"

definition audit_event :: "StoredObject \<Rightarrow> hold_error + HoldAuditEvent" where
  "audit_event object =
     bind_r (required_field object ''action'') (\<lambda>action.
     bind_r (required_field object ''reason'') (\<lambda>reason.
     bind_r (required_field object ''actor'') (\<lambda>actor.
     bind_r (required_field object ''at'') (\<lambda>at.
     bind_r (ok_or (Hold_Field_Malformed (so_id object)) (parse_i64 at)) (\<lambda>at.
     Inr \<lparr>ha_action = action, ha_reason = reason, ha_actor = actor, ha_at = at\<rparr>)))))"

definition hold_audit :: "string \<Rightarrow> MemoryCatalogGraph \<Rightarrow> HoldScope \<Rightarrow> hold_error + HoldAuditEvent list" where
  "hold_audit tenant g scope =
     bind_r (try_map audit_event (filter (\<lambda>object. bt_get (so_properties object) ''scope'' = Some (scope_key scope))
         (memory_list_kind g (Some tenant) hold_audit_kind))) (\<lambda>events.
     Inr (sort_key ha_at events))"

definition hold_view :: "string \<Rightarrow> MemoryCatalogGraph \<Rightarrow> HoldScope \<Rightarrow> hold_error + DeliveryHoldView" where
  "hold_view tenant g scope =
     bind_r (get_hold tenant g scope) (\<lambda>hold.
     bind_r (hold_audit tenant g scope) (\<lambda>events. Inr \<lparr>dv_hold = hold, dv_audit = events\<rparr>))"


section \<open>What a hold and its history promise\<close>

lemma memory_delete_get:
  "memory_get (memory_delete tenant oid g) tenant oid' = (if oid' = oid then None else memory_get g tenant oid')"
proof (cases "mg_partitions g (tenant_key tenant)")
  case None
  then show ?thesis by (simp add: memory_delete_def memory_get_def partition_of_def partition_default_def)
next
  case (Some p)
  then show ?thesis using partition_of_Some [OF Some] by (simp add: memory_delete_def memory_get_def)
qed

lemma memory_create_cases:
  assumes "memory_create tenant object g = (r, g')"
  obtains (made) "r = Inr object" "memory_get g tenant (so_id object) = None"
      "\<And>oid. memory_get g' tenant oid = (if oid = so_id object then Some object else memory_get g tenant oid)"
    | (exists) "r = Inl (Already_Exists ''object'' (so_id object))" "g' = g"
  using assms
  by (auto simp: memory_create_def memory_get_def Let_def bt_contains_iff split: if_splits)

lemma append_audit_from_cases:
  assumes "append_audit_from tenant scope action event sequence g = (r, g')"
  obtains (appended) n where "r = Inr ()" "memory_get g (Some tenant) (audit_id scope (dh_held_at event) n) = None"
      "\<And>oid. memory_get g' (Some tenant) oid = (if oid = audit_id scope (dh_held_at event) n
         then Some (audit_object scope action event n) else memory_get g (Some tenant) oid)"
    | (failed) e where "r = Inl e" "g' = g"
  using assms
proof (induction tenant scope action event sequence g arbitrary: thesis rule: append_audit_from.induct)
  case (1 tenant scope action event sequence g)
  let ?o = "audit_object scope action event sequence"
  obtain r1 g1 where c: "memory_create (Some tenant) ?o g = (r1, g1)" by fastforce
  have i: "so_id ?o = audit_id scope (dh_held_at event) sequence" by (simp add: audit_object_def)
  show ?case
  proof (cases "sequence < 1024")
    case True
    from c show ?thesis
    proof (cases rule: memory_create_cases)
      case made
      then show ?thesis using 1(4) True c by (intro 1(2)) (auto simp: append_audit_from.simps [of tenant] i)
    next
      case exists
      then have "append_audit_from tenant scope action event (sequence + 1) g = (r, g')"
        using 1(4) True c by (subst (asm) append_audit_from.simps) simp
      then show ?thesis using 1(1) [OF True c [symmetric]] exists 1(2,3) by (metis (no_types, lifting))
    qed
  next
    case False
    then show ?thesis using 1(3,4) by (subst (asm) append_audit_from.simps) auto
  qed
qed


lemma ids_apart [simp]: "hold_id scope \<noteq> audit_id scope' at n" "audit_id scope' at n \<noteq> hold_id scope"
  by (simp_all add: hold_id_def audit_id_def)

lemma append_audit_keeps:
  assumes "append_audit tenant scope action event g = (r, g')" and "memory_get g (Some tenant) oid = Some object"
  shows "memory_get g' (Some tenant) oid = Some object"
  using assms(1) unfolding append_audit_def by (rule append_audit_from_cases) (use assms(2) in auto)

lemma append_audit_hold:
  assumes "append_audit tenant scope action event g = (r, g')"
  shows "memory_get g' (Some tenant) (hold_id scope') = memory_get g (Some tenant) (hold_id scope')"
  using assms unfolding append_audit_def by (rule append_audit_from_cases) simp_all

lemma append_audit_adds:
  assumes "append_audit tenant scope action event g = (Inr u, g')"
  shows "\<exists>n. memory_get g (Some tenant) (audit_id scope (dh_held_at event) n) = None
    \<and> memory_get g' (Some tenant) (audit_id scope (dh_held_at event) n) = Some (audit_object scope action event n)"
  using assms unfolding append_audit_def by (rule append_audit_from_cases) auto

text \<open>The three operations, with what they write before the audit event.\<close>
lemma set_hold_cases:
  assumes "set_hold embedded amb tenant scope reason actor now g = (r, g')"
  obtains (refused) e where "r = Inl e" "g' = g"
    | (put) hold r1 where "append_audit tenant scope ''set'' hold
        (snd (memory_put amb (Some tenant) (hold_object scope hold) g)) = (r1, g')"
        "validate_reason reason = Inr (dh_reason hold)" "validate_actor actor = Inr (dh_actor hold)"
        "dh_held_at hold = now" "r = bind_r r1 (\<lambda>_. Inr hold)"
  using assms unfolding set_hold_def by (auto simp: result_simps split: sum.splits prod.splits)

lemma clear_hold_cases:
  assumes "clear_hold embedded tenant scope actor now g = (r, g')"
  obtains (refused) e where "r = Inl e" "g' = g"
    | (deleted) who cleared r1 where "append_audit tenant scope ''clear'' (cleared\<lparr>dh_actor := who, dh_held_at := now\<rparr>)
        (memory_delete (Some tenant) (hold_id scope) g) = (r1, g')"
        "get_hold tenant g scope = Inr (Some cleared)" "validate_actor actor = Inr who" "r = bind_r r1 (\<lambda>_. Inr cleared)"
  using assms unfolding clear_hold_def by (auto simp: result_simps split: sum.splits prod.splits)

lemma record_retry_cases:
  assumes "record_retry embedded tenant environment reason actor now g = (r, g')"
  obtains (refused) e where "r = Inl e" "g' = g"
    | (noted) event where "append_audit tenant (Environment_Scope environment) ''retry'' event g = (r, g')"
        "validate_reason reason = Inr (dh_reason event)" "validate_actor actor = Inr (dh_actor event)"
        "dh_held_at event = now"
  using assms unfolding record_retry_def by (auto simp: result_simps split: sum.splits)

text \<open>Any sequence of calls, with anything else that leaves recorded events alone.\<close>
inductive hold_run :: "string \<Rightarrow> MemoryCatalogGraph \<Rightarrow> MemoryCatalogGraph \<Rightarrow> bool" for tenant where
  hr_refl: "hold_run tenant g g"
| hr_set: "hold_run tenant g g1 \<Longrightarrow> set_hold embedded amb tenant scope reason actor now g1 = (r, g2) \<Longrightarrow> hold_run tenant g g2"
| hr_clear: "hold_run tenant g g1 \<Longrightarrow> clear_hold embedded tenant scope actor now g1 = (r, g2) \<Longrightarrow> hold_run tenant g g2"
| hr_retry: "hold_run tenant g g1 \<Longrightarrow> record_retry embedded tenant environment reason actor now g1 = (r', g2)
    \<Longrightarrow> hold_run tenant g g2"
| hr_other: "hold_run tenant g g1
    \<Longrightarrow> (\<And>scope at n. memory_get g2 (Some tenant) (audit_id scope at n) = memory_get g1 (Some tenant) (audit_id scope at n))
    \<Longrightarrow> hold_run tenant g g2"

lemma hold_run_keeps:
  assumes "hold_run tenant g g'" and "memory_get g (Some tenant) (audit_id scope at n) = Some event"
  shows "memory_get g' (Some tenant) (audit_id scope at n) = Some event"
  using assms
proof induction
  case (hr_set g g1 embedded amb sc reason actor now r g2)
  from hr_set.hyps(2) show ?case
    by (rule set_hold_cases) (use hr_set in \<open>auto simp: memory_put_get hold_object_def elim!: append_audit_keeps\<close>)
next
  case (hr_clear g g1 embedded sc actor now r g2)
  from hr_clear.hyps(2) show ?case
    by (rule clear_hold_cases) (use hr_clear in \<open>auto simp: memory_delete_get elim!: append_audit_keeps\<close>)
next
  case (hr_retry g g1 embedded environment reason actor now r' g2)
  from hr_retry.hyps(2) show ?case
    by (rule record_retry_cases) (use hr_retry in \<open>auto elim!: append_audit_keeps\<close>)
qed simp_all

lemma get_hold_object:
  assumes "memory_get g (Some tenant) (hold_id scope) = Some (hold_object scope hold)"
    and "dh_reason hold \<noteq> []" and "dh_actor hold \<noteq> []" and "is_i64 (dh_held_at hold)"
  shows "get_hold tenant g scope = Inr (Some hold)"
proof -
  have "parse_i64 [] = None" by code_simp
  then have "show_int (dh_held_at hold) \<noteq> []" using parse_i64_show_int [OF assms(4)] by (metis option.distinct(1))
  then show ?thesis
    using assms by (simp add: get_hold_def hold_object_def required_field_def map_of_bt_of_list result_simps parse_i64_show_int)
qed

lemma first_hold_blocks:
  assumes "scope \<in> set scopes" and "get_hold tenant g scope = Inr (Some hold)"
  shows "first_hold tenant g scopes \<noteq> Inr None"
  using assms
proof (induction scopes)
  case (Cons sc scopes)
  then show ?case by (cases "get_hold tenant g sc") (auto split: option.split)
qed simp


lemma set_hold_stores:
  assumes "set_hold embedded amb tenant scope reason actor now g = (Inr hold, g')" and "is_i64 now"
  shows "memory_get g' (Some tenant) (hold_id scope) = Some (hold_object scope hold)"
    and "dh_reason hold \<noteq> []" "dh_actor hold \<noteq> []" "is_i64 (dh_held_at hold)"
proof -
  have "memory_get g' (Some tenant) (hold_id scope) = Some (hold_object scope hold)
      \<and> dh_reason hold \<noteq> [] \<and> dh_actor hold \<noteq> [] \<and> is_i64 (dh_held_at hold)"
    using assms(1)
  proof (cases rule: set_hold_cases)
    case (put hold' r1)
    have h: "hold' = hold" using put(5) by (cases r1) simp_all
    have "dh_reason hold \<noteq> []" "dh_actor hold \<noteq> []"
      using put(2,3) by (auto simp: h validate_reason_def validate_actor_def result_simps Let_def)
    then show ?thesis
      using append_audit_hold [OF put(1), of scope] put(4) assms(2) by (simp add: memory_put_get hold_object_def h)
  qed simp
  then show "memory_get g' (Some tenant) (hold_id scope) = Some (hold_object scope hold)"
    and "dh_reason hold \<noteq> []" "dh_actor hold \<noteq> []" "is_i64 (dh_held_at hold)" by blast+
qed

text \<open>C12. A hold pauses until it is cleared: after a hold was set for an environment or a channel, and for
  as long as its object stays, no plan of that environment or with an input from that channel may start,
  unless it only rolls back; and clearing gives back the very hold that was set and leaves none.\<close>
theorem hold_pauses_until_cleared:
  assumes "set_hold embedded amb tenant scope reason actor now g = (Inr hold, g1)" and "is_i64 now"
    and "memory_get g2 (Some tenant) (hold_id scope) = memory_get g1 (Some tenant) (hold_id scope)"
    and "scope \<in> set (plan_scopes plan)" and "\<exists>step \<in> set (pl_steps plan). st_action step \<noteq> Rollback"
  shows "require_not_held tenant g2 plan \<noteq> Inr ()
    \<and> (clear_hold embedded' tenant scope actor' now' g2 = (Inr cleared, g3)
        \<longrightarrow> cleared = hold \<and> get_hold tenant g3 scope = Inr None)"
proof -
  have h: "get_hold tenant g2 scope = Inr (Some hold)"
    using set_hold_stores [OF assms(1,2)] assms(3) by (simp add: get_hold_object)
  have "active_for_plan tenant g2 plan \<noteq> Inr None"
    using first_hold_blocks [OF assms(4) h] assms(5) by (auto simp: active_for_plan_def list_all_iff)
  then have "require_not_held tenant g2 plan \<noteq> Inr ()"
    by (auto simp: require_not_held_def result_simps split: option.splits)
  moreover have "cleared = hold \<and> get_hold tenant g3 scope = Inr None"
    if "clear_hold embedded' tenant scope actor' now' g2 = (Inr cleared, g3)"
    using that
  proof (cases rule: clear_hold_cases)
    case (deleted who cleared' r1)
    have "cleared = hold" using h deleted(2,4) by (cases r1) simp_all
    moreover have "memory_get g3 (Some tenant) (hold_id scope) = None"
      using append_audit_hold [OF deleted(1), of scope] by (simp add: memory_delete_get)
    ultimately show ?thesis by (simp add: get_hold_def)
  qed simp
  ultimately show ?thesis by blast
qed

text \<open>C39. The history of holds only grows: whatever is set, cleared and retried, for any scopes and also when
  a call fails, a recorded event stays as it was, and every call that succeeds adds an event of its own
  under an id that was free.\<close>
theorem hold_history_only_grows:
  assumes "hold_run tenant g g'" and "memory_get g (Some tenant) (audit_id scope at n) = Some event"
  shows "memory_get g' (Some tenant) (audit_id scope at n) = Some event
    \<and> (set_hold embedded amb tenant scope' reason actor now g' = (Inr hold, g1)
        \<longrightarrow> (\<exists>m. memory_get g' (Some tenant) (audit_id scope' now m) = None
              \<and> memory_get g1 (Some tenant) (audit_id scope' now m) = Some (audit_object scope' ''set'' hold m)))
    \<and> (clear_hold embedded tenant scope' actor now g' = (Inr cleared, g2)
        \<longrightarrow> (\<exists>m who. memory_get g' (Some tenant) (audit_id scope' now m) = None
              \<and> memory_get g2 (Some tenant) (audit_id scope' now m)
                  = Some (audit_object scope' ''clear'' (cleared\<lparr>dh_actor := who, dh_held_at := now\<rparr>) m)))"
proof (intro conjI impI)
  show "memory_get g' (Some tenant) (audit_id scope at n) = Some event" by (rule hold_run_keeps [OF assms])
next
  assume "set_hold embedded amb tenant scope' reason actor now g' = (Inr hold, g1)"
  then show "\<exists>m. memory_get g' (Some tenant) (audit_id scope' now m) = None
      \<and> memory_get g1 (Some tenant) (audit_id scope' now m) = Some (audit_object scope' ''set'' hold m)"
  proof (cases rule: set_hold_cases)
    case (put hold' r1)
    have "hold' = hold \<and> r1 = Inr ()" using put(5) by (cases r1) simp_all
    then show ?thesis using append_audit_adds [of tenant scope' "''set''" hold] put(1,4)
      by (fastforce simp: memory_put_get hold_object_def)
  qed simp
next
  assume "clear_hold embedded tenant scope' actor now g' = (Inr cleared, g2)"
  then show "\<exists>m who. memory_get g' (Some tenant) (audit_id scope' now m) = None
      \<and> memory_get g2 (Some tenant) (audit_id scope' now m)
          = Some (audit_object scope' ''clear'' (cleared\<lparr>dh_actor := who, dh_held_at := now\<rparr>) m)"
  proof (cases rule: clear_hold_cases)
    case (deleted who cleared' r1)
    have "cleared' = cleared \<and> r1 = Inr ()" using deleted(4) by (cases r1) simp_all
    then show ?thesis using append_audit_adds [of tenant scope' "''clear''" "cleared\<lparr>dh_actor := who, dh_held_at := now\<rparr>"]
        deleted(1) by (fastforce simp: memory_delete_get)
  qed simp
qed


section \<open>Sample run\<close>

definition demo_channel :: StoredObject where
  "demo_channel = (demo_object [])\<lparr>so_id := channel_id ''api'' ''stable'', so_kind := kind_channel\<rparr>"

definition demo_unheld :: MemoryCatalogGraph where
  "demo_unheld = snd (memory_create (Some ''t'') demo_channel memory_new)"

definition demo_scope :: HoldScope where "demo_scope = Channel_Scope ''api'' ''stable''"

definition demo_held :: MemoryCatalogGraph where
  "demo_held = snd (set_hold True (demo_ambient 5) ''t'' demo_scope ''freeze'' ''ops'' 5 demo_unheld)"

definition demo_freeze :: DeliveryHold where
  "demo_freeze = \<lparr>dh_reason = ''freeze'', dh_actor = ''ops'', dh_held_at = 5\<rparr>"

definition demo_held_plan :: Plan where
  "demo_held_plan = \<lparr>pl_format_version = 1, pl_id = ''p'', pl_content_id = [], pl_environment = ''e'', pl_created_at = 1,
     pl_inputs = [\<lparr>in_product = ''api'', in_instance = [], in_channel = ''stable'', in_channel_id = channel_id ''api'' ''stable'',
       in_desired_version = ''1.0.0'', in_release_id = ''r'', in_release_digest = ''d'', in_artifact_digest = ''a'',
       in_deployed_version = None\<rparr>],
     pl_steps = [demo_step ''s''], pl_state = Computed, pl_gates_skipped = None, pl_status_detail = [],
     pl_maintenance_blocked = False, pl_prior_warnings = [], pl_recalled_recovery_reason = None,
     pl_credential_runway = None\<rparr>"

lemma demo_set: "set_hold True (demo_ambient 5) ''t'' demo_scope ''freeze'' ''ops'' 5 demo_unheld = (Inr demo_freeze, demo_held)"
proof -
  have "fst (set_hold True (demo_ambient 5) ''t'' demo_scope ''freeze'' ''ops'' 5 demo_unheld) = Inr demo_freeze" by code_simp
  then show ?thesis by (simp add: demo_held_def prod_eq_iff)
qed

theorem hold_pauses_until_cleared_witness:
  "require_not_held ''t'' demo_held demo_held_plan \<noteq> Inr ()
    \<and> get_hold ''t'' (snd (clear_hold True ''t'' demo_scope ''ops'' 7 demo_held)) demo_scope = Inr None"
proof -
  let ?c = "clear_hold True ''t'' demo_scope ''ops'' 7 demo_held"
  have "fst ?c = Inr demo_freeze" by code_simp
  then have c: "?c = (Inr demo_freeze, snd ?c)" by (simp add: prod_eq_iff)
  have "is_i64 5" "demo_scope \<in> set (plan_scopes demo_held_plan)"
      "\<exists>step \<in> set (pl_steps demo_held_plan). st_action step \<noteq> Rollback" by code_simp+
  from hold_pauses_until_cleared [OF demo_set this(1) refl this(2,3), of True "''ops''" 7 demo_freeze "snd ?c"] c
  show ?thesis by simp
qed

theorem hold_history_only_grows_witness:
  "memory_get (snd (clear_hold True ''t'' demo_scope ''ops'' 7 demo_held)) (Some ''t'') (audit_id demo_scope 5 0)
    = Some (audit_object demo_scope ''set'' demo_freeze 0)"
proof -
  let ?c = "clear_hold True ''t'' demo_scope ''ops'' 7 demo_held"
  have "memory_get demo_held (Some ''t'') (audit_id demo_scope 5 0) = Some (audit_object demo_scope ''set'' demo_freeze 0)"
    by code_simp
  moreover have "hold_run ''t'' demo_held (snd ?c)"
    by (rule hr_clear [OF hr_refl, where r = "fst ?c"]) (rule surjective_pairing)
  ultimately show ?thesis using hold_history_only_grows by blast
qed

end
