(* ===== verification/Release_Selection.thy ===== *)
theory Release_Selection
  imports Catalog_Leases Facts Semver Plan_Data
begin

text \<open>
  \<open>src/plan/release_selection.rs\<close>: which release of a product an environment gets when a channel names a
  head: version pins and ranges, required facts, and for model runtimes the highest published variant
  whose requirements fit the facts of the environment.  Versions are those of the \<open>semver\<close> record;
  reading a stored manifest (TOML) is the argument \<open>parse_manifest\<close>, of which the product kind and the
  requirements matter here.
\<close>

abbreviation rel_release_of :: string where "rel_release_of \<equiv> ''release_of''"

record GpuRequirements =
  gr_vendor :: "string list"
  gr_families :: "string list"
  gr_vram_gib :: u32
  gr_count :: u32
  gr_tensor_parallel :: u32
  gr_driver_min :: "string option"
  gr_runtime :: "string option"
  gr_runtime_min :: "string option"

record ModelRequirementsSection =
  mr_architecture :: "string list"
  mr_memory_gib :: u32
  mr_accelerator :: "string list"
  mr_gpu :: "GpuRequirements option"

record Manifest =
  mf_kind :: ProductKind
  mf_requirements :: "ModelRequirementsSection option"

datatype FitRefusal =
    MissingFact string
  | InvalidFact string string
  | NotAllowed string string "string list"
  | BelowMinimum string string string

fun fit_refusal_code :: "FitRefusal \<Rightarrow> string" where
  "fit_refusal_code (MissingFact _) = ''fact_missing''"
| "fit_refusal_code (InvalidFact _ _) = ''fact_invalid''"
| "fit_refusal_code (NotAllowed _ _ _) = ''fact_not_allowed''"
| "fit_refusal_code (BelowMinimum _ _ _) = ''fact_below_minimum''"

datatype selection_error =
    Selection_Bad_Environment ontology_error
  | Selection_No_Environment string
  | Selection_Bad_Fact_Key fact_error
  | Selection_Missing_Fact string
  | Fact_Constraint_Unsatisfied string
  | Range_Not_Pair string
  | Range_Bad_Version string
  | Range_Empty string
  | Pin_Empty string
  | Pin_Not_Published string string
  | Pin_Outside_Range string string
  | Head_Outside_Range string string
  | Unreadable_Manifest string
  | Release_Not_Published string
  | Release_Without_Manifest string
  | No_Requirements string string
  | Architecture_Not_Allowed string
  | Memory_Malformed string
  | Memory_Too_Small u32 u32
  | Accelerator_Not_Allowed string
  | Gpu_Refused FitRefusal
  | No_Variant_Fits string "selection_error option"
  | Selection_Store catalog_error

section \<open>Facts and requirements\<close>

definition parse_u32 :: "string \<Rightarrow> u32 option" where
  "parse_u32 s =
     (case parse_nat (case s of [] \<Rightarrow> [] | ch # cs \<Rightarrow> if ch = CHR ''+'' then cs else s) of
        None \<Rightarrow> None
      | Some n \<Rightarrow> if int n < 2 ^ 32 then Some (of_nat n) else None)"

definition fact_of :: "(string, string) btree_map \<Rightarrow> string \<Rightarrow> FitRefusal + string" where
  "fact_of facts name = ok_or (MissingFact name) (bt_get facts name)"

definition one_of :: "(string, string) btree_map \<Rightarrow> string \<Rightarrow> string list \<Rightarrow> FitRefusal + unit" where
  "one_of facts name allowed =
     (if allowed = [] then Inr ()
      else bind_r (fact_of facts name) (\<lambda>actual. ensure (actual \<in> set allowed) (NotAllowed name actual allowed)))"

definition at_least :: "(string, string) btree_map \<Rightarrow> string \<Rightarrow> u32 \<Rightarrow> FitRefusal + unit" where
  "at_least facts name minimum =
     bind_r (fact_of facts name) (\<lambda>actual.
     bind_r (ok_or (InvalidFact name actual) (parse_u32 actual)) (\<lambda>parsed.
     ensure (minimum \<le> parsed) (BelowMinimum name actual (show_nat (unat minimum)))))"

definition version_at_least :: "(string, string) btree_map \<Rightarrow> string \<Rightarrow> string option \<Rightarrow> FitRefusal + unit" where
  "version_at_least facts name minimum = (case minimum of
     None \<Rightarrow> Inr ()
   | Some minimum \<Rightarrow>
       bind_r (fact_of facts name) (\<lambda>actual.
       bind_r (ok_or (InvalidFact name actual) (dotted_version actual)) (\<lambda>parsed.
       bind_r (ok_or (InvalidFact name minimum) (dotted_version minimum)) (\<lambda>required.
       ensure (map unat required \<le> map unat parsed) (BelowMinimum name actual minimum)))))"

definition gpu_requirements_fit :: "(string, string) btree_map \<Rightarrow> GpuRequirements \<Rightarrow> FitRefusal + unit" where
  "gpu_requirements_fit facts gpu =
     bind_r (one_of facts ''gpu_vendor'' (gr_vendor gpu)) (\<lambda>_.
     bind_r (one_of facts ''gpu_family'' (gr_families gpu)) (\<lambda>_.
     bind_r (at_least facts ''gpu_count'' (max (gr_count gpu) (gr_tensor_parallel gpu))) (\<lambda>_.
     bind_r (at_least facts ''gpu_vram_gib'' (gr_vram_gib gpu)) (\<lambda>_.
     bind_r (version_at_least facts ''gpu_driver_version'' (gr_driver_min gpu)) (\<lambda>_.
     case gr_runtime gpu of
       None \<Rightarrow> Inr ()
     | Some runtime \<Rightarrow>
         bind_r (one_of facts ''gpu_runtime'' [runtime]) (\<lambda>_.
         version_at_least facts ''gpu_runtime_version'' (gr_runtime_min gpu)))))))"

definition model_requirements_fit ::
  "(string, string) btree_map \<Rightarrow> ModelRequirementsSection \<Rightarrow> selection_error + unit" where
  "model_requirements_fit facts requirements =
     bind_r (ok_or (Selection_Missing_Fact ''architecture'') (bt_get facts ''architecture'')) (\<lambda>architecture.
     bind_r (ensure (architecture \<in> set (mr_architecture requirements)) (Architecture_Not_Allowed architecture)) (\<lambda>_.
     bind_r (ok_or (Selection_Missing_Fact ''memory_gib'') (bt_get facts ''memory_gib'')) (\<lambda>raw.
     bind_r (ok_or (Memory_Malformed raw) (parse_u32 raw)) (\<lambda>memory.
     bind_r (ensure (mr_memory_gib requirements \<le> memory)
         (Memory_Too_Small (mr_memory_gib requirements) memory)) (\<lambda>_.
     bind_r (if mr_accelerator requirements = [] then Inr ()
         else bind_r (ok_or (Selection_Missing_Fact ''accelerator'') (bt_get facts ''accelerator'')) (\<lambda>accelerator.
           ensure (accelerator \<in> set (mr_accelerator requirements)) (Accelerator_Not_Allowed accelerator))) (\<lambda>_.
     case mr_gpu requirements of
       None \<Rightarrow> Inr ()
     | Some gpu \<Rightarrow> map_err Gpu_Refused (gpu_requirements_fit facts gpu)))))))"

definition environment_facts_from_object :: "StoredObject \<Rightarrow> (string, string) btree_map" where
  "environment_facts_from_object object =
     bt_of_list (List.map_filter (\<lambda>(key, value). map_option (\<lambda>name. (name, value)) (strip_prefix ''fact.'' key))
       (so_properties object))"

definition list_environment_facts ::
  "string \<Rightarrow> MemoryCatalogGraph \<Rightarrow> string \<Rightarrow> selection_error + (string, string) btree_map" where
  "list_environment_facts tenant g env =
     bind_r (map_err Selection_Bad_Environment (validate_identifier ''environment'' env)) (\<lambda>_.
     bind_r (ok_or (Selection_No_Environment env) (memory_get g (Some tenant) (env_id env))) (\<lambda>object.
     Inr (environment_facts_from_object object)))"

definition require_environment_fact ::
  "string \<Rightarrow> MemoryCatalogGraph \<Rightarrow> string \<Rightarrow> string \<Rightarrow> selection_error + string" where
  "require_environment_fact tenant g env key =
     bind_r (map_err Selection_Bad_Fact_Key (validate_fact_key key)) (\<lambda>_.
     bind_r (list_environment_facts tenant g env) (\<lambda>facts.
     ok_or (Selection_Missing_Fact key) (bt_get facts key)))"

text \<open>The properties are walked in key order; in the source the order of a hash map decides only which of
  several unsatisfied constraints is reported.\<close>
definition enforce_capability_constraints ::
  "string \<Rightarrow> MemoryCatalogGraph \<Rightarrow> StoredObject \<Rightarrow> string \<Rightarrow> selection_error + unit" where
  "enforce_capability_constraints tenant g environment environment_name =
     try_all (\<lambda>(key, expected). case strip_prefix ''constraint.require_fact.'' key of
         None \<Rightarrow> Inr ()
       | Some fact_key \<Rightarrow>
           bind_r (map_err Selection_Bad_Fact_Key (validate_fact_key fact_key)) (\<lambda>_.
           bind_r (require_environment_fact tenant g environment_name fact_key) (\<lambda>actual.
           ensure (expected = ''*'' \<or> expected = actual) (Fact_Constraint_Unsatisfied fact_key))))
       (so_properties environment)"

section \<open>Versions\<close>

fun split_at_dots :: "string \<Rightarrow> (string \<times> string) option" where
  "split_at_dots (a # b # rest) =
     (if a = CHR ''.'' \<and> b = CHR ''.'' then Some ([], rest)
      else map_option (\<lambda>(l, r). (a # l, r)) (split_at_dots (b # rest)))"
| "split_at_dots _ = None"

definition version_in_range :: "('v, 'z) semver_scheme \<Rightarrow> string \<Rightarrow> string \<Rightarrow> selection_error + bool" where
  "version_in_range sv version rng =
     bind_r (ok_or (Range_Not_Pair rng) (split_at_dots rng)) (\<lambda>(lo, hi).
     bind_r (ok_or (Range_Bad_Version version) (sv_parse sv version)) (\<lambda>v.
     bind_r (ok_or (Range_Bad_Version rng) (sv_parse sv (trim lo))) (\<lambda>minimum.
     bind_r (ok_or (Range_Bad_Version rng) (sv_parse sv (trim hi))) (\<lambda>maximum.
     bind_r (ensure (sv_less sv minimum maximum) (Range_Empty rng)) (\<lambda>_.
     Inr (\<not> sv_less sv v minimum \<and> sv_less sv v maximum))))))"

definition version_before :: "('v, 'z) semver_scheme \<Rightarrow> string \<Rightarrow> string \<Rightarrow> bool" where
  "version_before sv a b = (case (sv_parse sv a, sv_parse sv b) of
     (Some x, Some y) \<Rightarrow> sv_less sv x y
   | _ \<Rightarrow> a < b)"

section \<open>Variants\<close>

definition stored_manifest ::
  "(string \<Rightarrow> Manifest option) \<Rightarrow> StoredObject \<Rightarrow> selection_error + Manifest option" where
  "stored_manifest parse_manifest object = (case bt_get (so_properties object) ''manifest'' of
     None \<Rightarrow> Inr None
   | Some raw \<Rightarrow> bind_r (ok_or (Unreadable_Manifest (so_id object)) (parse_manifest raw)) (\<lambda>m. Inr (Some m)))"

definition release_is_model_runtime ::
  "(string \<Rightarrow> Manifest option) \<Rightarrow> string \<Rightarrow> MemoryCatalogGraph \<Rightarrow> string \<Rightarrow> selection_error + bool" where
  "release_is_model_runtime parse_manifest tenant g release = (case memory_get g (Some tenant) release of
     None \<Rightarrow> Inr False
   | Some object \<Rightarrow> bind_r (stored_manifest parse_manifest object) (\<lambda>m.
       Inr (case m of None \<Rightarrow> False | Some m \<Rightarrow> mf_kind m = ModelRuntime)))"

fun any_model_runtime ::
  "(string \<Rightarrow> Manifest option) \<Rightarrow> string \<Rightarrow> MemoryCatalogGraph \<Rightarrow> StoredObject list \<Rightarrow> selection_error + bool" where
  "any_model_runtime parse_manifest tenant g [] = Inr False"
| "any_model_runtime parse_manifest tenant g (release # releases) =
     bind_r (release_is_model_runtime parse_manifest tenant g (so_id release)) (\<lambda>yes.
     if yes then Inr True else any_model_runtime parse_manifest tenant g releases)"

definition product_releases ::
  "string \<Rightarrow> MemoryCatalogGraph \<Rightarrow> string \<Rightarrow> selection_error + StoredObject list" where
  "product_releases tenant g product =
     map_err Selection_Store (memory_linked g (Some tenant) (product_id product) rel_release_of ''in'')"

definition product_has_model_runtime_release ::
  "(string \<Rightarrow> Manifest option) \<Rightarrow> string \<Rightarrow> MemoryCatalogGraph \<Rightarrow> string \<Rightarrow> selection_error + bool" where
  "product_has_model_runtime_release parse_manifest tenant g product =
     bind_r (product_releases tenant g product) (any_model_runtime parse_manifest tenant g)"

definition ensure_model_runtime_fits ::
  "(string \<Rightarrow> Manifest option) \<Rightarrow> string \<Rightarrow> MemoryCatalogGraph \<Rightarrow> string \<Rightarrow> string \<Rightarrow> string \<Rightarrow> string
     \<Rightarrow> selection_error + unit" where
  "ensure_model_runtime_fits parse_manifest tenant g environment product version release =
     bind_r (ok_or (Release_Not_Published release) (memory_get g (Some tenant) release)) (\<lambda>object.
     bind_r (stored_manifest parse_manifest object) (\<lambda>m. case m of
       None \<Rightarrow> Inr ()
     | Some m \<Rightarrow>
         (if mf_kind m \<noteq> ModelRuntime then Inr ()
          else bind_r (ok_or (No_Requirements product version) (mf_requirements m)) (\<lambda>requirements.
            bind_r (list_environment_facts tenant g environment) (\<lambda>facts.
            model_requirements_fit facts requirements)))))"

text \<open>One published sibling: \<open>None\<close> when it is passed over.\<close>
definition variant_candidate ::
  "('v, 'z) semver_scheme \<Rightarrow> (string \<Rightarrow> Manifest option) \<Rightarrow> (string, string) btree_map \<Rightarrow> string
     \<Rightarrow> string option \<Rightarrow> StoredObject \<Rightarrow> selection_error + (string \<times> string) option" where
  "variant_candidate sv parse_manifest facts channel_version rng release =
     (case bt_get (so_properties release) ''version'' of
        None \<Rightarrow> Inr None
      | Some version \<Rightarrow>
          bind_r (case rng of None \<Rightarrow> Inr True | Some rng \<Rightarrow> version_in_range sv version rng) (\<lambda>inside.
          if \<not> inside then Inr None
          else if (case (sv_parse sv channel_version, sv_parse sv version) of
                (Some head, Some candidate) \<Rightarrow> sv_less sv head candidate
              | _ \<Rightarrow> False) then Inr None
          else bind_r (stored_manifest parse_manifest release) (\<lambda>m. case m of
            None \<Rightarrow> Inr None
          | Some m \<Rightarrow>
              (if mf_kind m \<noteq> ModelRuntime then Inr None
               else case mf_requirements m of
                 None \<Rightarrow> Inr None
               | Some requirements \<Rightarrow>
                   Inr (if is_ok (model_requirements_fit facts requirements) then Some (version, so_id release)
                        else None)))))"

text \<open>The library sorts stably by a comparison; for one that is not an order the result is left open, and
  this insertion is one of the possible results.\<close>
fun insert_variant :: "('v, 'z) semver_scheme \<Rightarrow> string \<times> string \<Rightarrow> (string \<times> string) list \<Rightarrow> (string \<times> string) list" where
  "insert_variant sv x [] = [x]"
| "insert_variant sv x (y # ys) =
     (if version_before sv (fst x) (fst y) then x # y # ys else y # insert_variant sv x ys)"

definition sort_variants :: "('v, 'z) semver_scheme \<Rightarrow> (string \<times> string) list \<Rightarrow> (string \<times> string) list" where
  "sort_variants sv candidates = foldl (\<lambda>sorted x. insert_variant sv x sorted) [] candidates"

definition variant_candidates ::
  "('v, 'z) semver_scheme \<Rightarrow> (string \<Rightarrow> Manifest option) \<Rightarrow> (string, string) btree_map \<Rightarrow> string
     \<Rightarrow> string option \<Rightarrow> StoredObject list \<Rightarrow> selection_error + (string \<times> string) list" where
  "variant_candidates sv parse_manifest facts channel_version rng releases =
     bind_r (try_map (variant_candidate sv parse_manifest facts channel_version rng) releases) (\<lambda>found.
     Inr (List.map_filter (\<lambda>x. x) found))"

definition select_model_runtime_variant ::
  "('v, 'z) semver_scheme \<Rightarrow> (string \<Rightarrow> Manifest option) \<Rightarrow> string \<Rightarrow> MemoryCatalogGraph \<Rightarrow> string \<Rightarrow> string
     \<Rightarrow> string \<Rightarrow> string \<Rightarrow> string option \<Rightarrow> selection_error + string \<times> string" where
  "select_model_runtime_variant sv parse_manifest tenant g environment product channel_version channel_release rng =
     bind_r (list_environment_facts tenant g environment) (\<lambda>facts.
     bind_r (product_releases tenant g product) (\<lambda>linked.
     bind_r (variant_candidates sv parse_manifest facts channel_version rng linked) (\<lambda>candidates.
     if candidates = [] then
       (case ensure_model_runtime_fits parse_manifest tenant g environment product channel_version channel_release of
          Inl e \<Rightarrow> Inl (No_Variant_Fits product (Some e))
        | Inr _ \<Rightarrow> Inl (No_Variant_Fits product None))
     else Inr (last (sort_variants sv candidates)))))"

section \<open>Selection\<close>

definition resolve_constrained_release ::
  "('v, 'z) semver_scheme \<Rightarrow> (string \<Rightarrow> Manifest option) \<Rightarrow> string \<Rightarrow> MemoryCatalogGraph \<Rightarrow> StoredObject
     \<Rightarrow> string \<Rightarrow> string \<Rightarrow> string \<Rightarrow> string \<Rightarrow> selection_error + string \<times> string" where
  "resolve_constrained_release sv parse_manifest tenant g environment environment_name product channel_version
       channel_release =
     (let pin = bt_get (so_properties environment) (''constraint.version_pin.'' @ product);
          rng = bt_get (so_properties environment) (''constraint.version_range.'' @ product);
          head_inside = (case rng of None \<Rightarrow> Inr True | Some rng \<Rightarrow> version_in_range sv channel_version rng)
      in case pin of
        Some pin \<Rightarrow>
          bind_r (ensure (trim pin \<noteq> []) (Pin_Empty product)) (\<lambda>_.
          let pinned_release = release_id product pin in
          bind_r (ensure (memory_get g (Some tenant) pinned_release \<noteq> None) (Pin_Not_Published product pin)) (\<lambda>_.
          bind_r (case rng of None \<Rightarrow> Inr True | Some rng \<Rightarrow> version_in_range sv pin rng) (\<lambda>inside.
          bind_r (ensure inside (Pin_Outside_Range product pin)) (\<lambda>_.
          bind_r (ensure_model_runtime_fits parse_manifest tenant g environment_name product pin pinned_release) (\<lambda>_.
          Inr (if pin \<noteq> channel_version then (pin, pinned_release) else (channel_version, channel_release)))))))
      | None \<Rightarrow>
          bind_r head_inside (\<lambda>inside.
          bind_r (if inside then Inr () else
              bind_r (release_is_model_runtime parse_manifest tenant g channel_release) (\<lambda>runtime.
              ensure runtime (Head_Outside_Range product channel_version))) (\<lambda>_.
          bind_r (release_is_model_runtime parse_manifest tenant g channel_release) (\<lambda>head_runtime.
          bind_r (if head_runtime then Inr True
              else product_has_model_runtime_release parse_manifest tenant g product) (\<lambda>runtime.
          if runtime then
            select_model_runtime_variant sv parse_manifest tenant g environment_name product channel_version
              channel_release rng
          else
            bind_r head_inside (\<lambda>inside.
            bind_r (ensure inside (Head_Outside_Range product channel_version)) (\<lambda>_.
            Inr (channel_version, channel_release))))))))"

definition resolve_subscription_selection ::
  "('v, 'z) semver_scheme \<Rightarrow> (string \<Rightarrow> Manifest option) \<Rightarrow> string \<Rightarrow> MemoryCatalogGraph \<Rightarrow> StoredObject
     \<Rightarrow> string \<Rightarrow> string \<Rightarrow> string \<Rightarrow> string \<Rightarrow> selection_error + string \<times> string" where
  "resolve_subscription_selection sv parse_manifest tenant g environment environment_name product channel_version
       channel_release =
     bind_r (enforce_capability_constraints tenant g environment environment_name) (\<lambda>_.
     resolve_constrained_release sv parse_manifest tenant g environment environment_name product channel_version
       channel_release)"

definition release_product_kind ::
  "(string \<Rightarrow> Manifest option) \<Rightarrow> string \<Rightarrow> MemoryCatalogGraph \<Rightarrow> string \<Rightarrow> selection_error + ProductKind" where
  "release_product_kind parse_manifest tenant g release =
     bind_r (ok_or (Release_Not_Published release) (memory_get g (Some tenant) release)) (\<lambda>object.
     bind_r (stored_manifest parse_manifest object) (\<lambda>m.
     bind_r (ok_or (Release_Without_Manifest release) m) (\<lambda>m. Inr (mf_kind m))))"

record SelectedRelease =
  sr_version :: string
  sr_release_id :: string
  sr_kind :: ProductKind

definition select_release ::
  "('v, 'z) semver_scheme \<Rightarrow> (string \<Rightarrow> Manifest option) \<Rightarrow> string \<Rightarrow> MemoryCatalogGraph \<Rightarrow> StoredObject
     \<Rightarrow> string \<Rightarrow> string \<Rightarrow> string \<Rightarrow> string \<Rightarrow> selection_error + SelectedRelease" where
  "select_release sv parse_manifest tenant g environment environment_name product channel_version channel_release =
     bind_r (resolve_subscription_selection sv parse_manifest tenant g environment environment_name product
         channel_version channel_release) (\<lambda>(version, release).
     bind_r (release_product_kind parse_manifest tenant g release) (\<lambda>kind.
     Inr \<lparr>sr_version = version, sr_release_id = release, sr_kind = kind\<rparr>))"


section \<open>The highest variant that fits\<close>

definition within_range :: "('v, 'z) semver_scheme \<Rightarrow> string option \<Rightarrow> string \<Rightarrow> bool" where
  "within_range sv rng version \<longleftrightarrow> (case rng of None \<Rightarrow> True | Some rng \<Rightarrow> version_in_range sv version rng = Inr True)"

definition above_head :: "('v, 'z) semver_scheme \<Rightarrow> string \<Rightarrow> string \<Rightarrow> bool" where
  "above_head sv head version \<longleftrightarrow>
     (\<exists>h v. sv_parse sv head = Some h \<and> sv_parse sv version = Some v \<and> sv_less sv h v)"

text \<open>What makes a published release a variant to choose from.\<close>
definition fitting_variant ::
  "('v, 'z) semver_scheme \<Rightarrow> (string \<Rightarrow> Manifest option) \<Rightarrow> (string, string) btree_map \<Rightarrow> string
     \<Rightarrow> string option \<Rightarrow> StoredObject \<Rightarrow> string \<Rightarrow> bool" where
  "fitting_variant sv parse_manifest facts head rng release version \<longleftrightarrow>
     bt_get (so_properties release) ''version'' = Some version
     \<and> within_range sv rng version \<and> \<not> above_head sv head version
     \<and> (\<exists>raw m requirements. bt_get (so_properties release) ''manifest'' = Some raw \<and> parse_manifest raw = Some m
          \<and> mf_kind m = ModelRuntime \<and> mf_requirements m = Some requirements
          \<and> model_requirements_fit facts requirements = Inr ())"

lemma variant_candidate_iff:
  "variant_candidate sv parse_manifest facts head rng release = Inr (Some (version, rid))
     \<longleftrightarrow> rid = so_id release \<and> fitting_variant sv parse_manifest facts head rng release version"
proof (cases "bt_get (so_properties release) ''version''")
  case (Some v)
  have ok: "is_ok r \<longleftrightarrow> r = Inr ()" for r :: "selection_error + unit" by (cases r) simp_all
  have inside: "(case rng of None \<Rightarrow> Inr True | Some rng \<Rightarrow> version_in_range sv v rng) = Inr True \<longleftrightarrow> within_range sv rng v"
    by (simp add: within_range_def split: option.split)
  have head: "(case (sv_parse sv head, sv_parse sv v) of (Some h, Some candidate) \<Rightarrow> sv_less sv h candidate | _ \<Rightarrow> False)
      \<longleftrightarrow> above_head sv head v"
    by (simp add: above_head_def split: option.split)
  have fits: "bind_r (stored_manifest parse_manifest release) (\<lambda>m. case m of
            None \<Rightarrow> Inr None
          | Some m \<Rightarrow>
              (if mf_kind m \<noteq> ModelRuntime then Inr None
               else case mf_requirements m of
                 None \<Rightarrow> Inr None
               | Some requirements \<Rightarrow>
                   Inr (if is_ok (model_requirements_fit facts requirements) then Some (v, so_id release)
                        else None))) = Inr (Some (version, rid))
      \<longleftrightarrow> version = v \<and> rid = so_id release
        \<and> (\<exists>raw m requirements. bt_get (so_properties release) ''manifest'' = Some raw \<and> parse_manifest raw = Some m
          \<and> mf_kind m = ModelRuntime \<and> mf_requirements m = Some requirements
          \<and> model_requirements_fit facts requirements = Inr ())"
  proof (cases "bt_get (so_properties release) ''manifest''")
    case (Some raw)
    then show ?thesis
    proof (cases "parse_manifest raw")
      case (Some m)
      then show ?thesis
        using \<open>bt_get (so_properties release) ''manifest'' = Some raw\<close>
        by (cases "mf_requirements m") (auto simp: stored_manifest_def ok)
    qed (simp add: stored_manifest_def)
  qed (simp add: stored_manifest_def)
  show ?thesis
  proof (cases "case rng of None \<Rightarrow> Inr True | Some rng \<Rightarrow> version_in_range sv v rng")
    case (Inl e)
    then have "\<not> within_range sv rng v" using inside by simp
    then show ?thesis using Some Inl by (auto simp: variant_candidate_def fitting_variant_def)
  next
    case (Inr b)
    then have "b \<longleftrightarrow> within_range sv rng v" using inside by simp
    moreover have "variant_candidate sv parse_manifest facts head rng release = Inr (Some (version, rid))
        \<longleftrightarrow> b \<and> \<not> above_head sv head v \<and> version = v \<and> rid = so_id release
          \<and> (\<exists>raw m requirements. bt_get (so_properties release) ''manifest'' = Some raw \<and> parse_manifest raw = Some m
          \<and> mf_kind m = ModelRuntime \<and> mf_requirements m = Some requirements
          \<and> model_requirements_fit facts requirements = Inr ())"
      unfolding variant_candidate_def Some option.case Inr bind_r.simps head
      by (simp only: fits sum.inject option.distinct simp_thms split: if_split) blast
    ultimately show ?thesis using Some by (auto simp: fitting_variant_def)
  qed
qed (simp add: variant_candidate_def fitting_variant_def)

lemma variant_candidates_iff:
  assumes "variant_candidates sv parse_manifest facts head rng releases = Inr candidates"
  shows "(version, rid) \<in> set candidates
    \<longleftrightarrow> (\<exists>release \<in> set releases. rid = so_id release \<and> fitting_variant sv parse_manifest facts head rng release version)"
proof -
  have "(version, rid) \<in> set (List.map_filter (\<lambda>x. x) found)
      \<longleftrightarrow> (\<exists>release \<in> set releases. variant_candidate sv parse_manifest facts head rng release = Inr (Some (version, rid)))"
    if "try_map (variant_candidate sv parse_manifest facts head rng) releases = Inr found" for found
    using that
    by (induction releases arbitrary: found) (auto simp: result_simps map_filter_simps split: option.splits)
  then show ?thesis using assms by (auto simp: variant_candidates_def result_simps variant_candidate_iff)
qed

definition all_parse :: "('v, 'z) semver_scheme \<Rightarrow> (string \<times> string) list \<Rightarrow> bool" where
  "all_parse sv candidates \<longleftrightarrow> (\<forall>x \<in> set candidates. sv_parse sv (fst x) \<noteq> None)"

lemma set_insert_variant [simp]: "set (insert_variant sv x ys) = insert x (set ys)"
  by (induction ys) auto

lemma set_sort_variants [simp]: "set (sort_variants sv candidates) = set candidates"
proof -
  have "set (foldl (\<lambda>sorted x. insert_variant sv x sorted) acc candidates) = set acc \<union> set candidates" for acc
    by (induction candidates arbitrary: acc) auto
  then show ?thesis by (simp add: sort_variants_def)
qed

lemma version_before_parsed:
  assumes "sv_parse sv a = Some x" and "sv_parse sv b = Some y"
  shows "version_before sv a b \<longleftrightarrow> sv_less sv x y"
  using assms by (simp add: version_before_def)

lemma insert_variant_sorted:
  assumes "semver_laws sv" and "all_parse sv (x # ys)" and "sorted_wrt (\<lambda>a b. \<not> version_before sv (fst b) (fst a)) ys"
  shows "sorted_wrt (\<lambda>a b. \<not> version_before sv (fst b) (fst a)) (insert_variant sv x ys)"
  using assms(2,3)
proof (induction ys)
  case (Cons y ys)
  have p: "all_parse sv (x # ys)" "\<forall>z \<in> set (x # y # ys). \<exists>v. sv_parse sv (fst z) = Some v"
    using Cons.prems(1) by (auto simp: all_parse_def)
  show ?case
  proof (cases "version_before sv (fst x) (fst y)")
    case True
    have "\<not> version_before sv (fst z) (fst x)" if "z \<in> set (y # ys)" for z
    proof -
      have "z \<in> set (x # y # ys)" using that by simp
      then obtain vx vy vz where v: "sv_parse sv (fst x) = Some vx" "sv_parse sv (fst y) = Some vy" "sv_parse sv (fst z) = Some vz"
        using p(2) by (meson list.set_intros)
      have "sv_less sv vx vy" using True v by (simp add: version_before_parsed)
      moreover have "\<not> sv_less sv vz vy"
        using that Cons.prems(2) v semver_irrefl [OF assms(1)] by (auto simp: version_before_parsed)
      ultimately have "\<not> sv_less sv vz vx" using semver_trans [OF assms(1)] by blast
      then show ?thesis using v by (simp add: version_before_parsed)
    qed
    then show ?thesis using True Cons.prems(2) by simp
  next
    case False
    then show ?thesis using Cons.IH [OF p(1)] Cons.prems(2) by simp
  qed
qed simp

lemma sort_variants_sorted:
  assumes "semver_laws sv" and "all_parse sv candidates"
  shows "sorted_wrt (\<lambda>a b. \<not> version_before sv (fst b) (fst a)) (sort_variants sv candidates)"
proof -
  have "sorted_wrt (\<lambda>a b. \<not> version_before sv (fst b) (fst a)) (foldl (\<lambda>sorted x. insert_variant sv x sorted) acc candidates)"
    if "sorted_wrt (\<lambda>a b. \<not> version_before sv (fst b) (fst a)) acc" "all_parse sv (acc @ candidates)" for acc
    using that
  proof (induction candidates arbitrary: acc)
    case (Cons x xs)
    have "sorted_wrt (\<lambda>a b. \<not> version_before sv (fst b) (fst a)) (insert_variant sv x acc)"
      using Cons.prems by (intro insert_variant_sorted [OF assms(1)]) (auto simp: all_parse_def)
    moreover have "all_parse sv (insert_variant sv x acc @ xs)" using Cons.prems(2) by (auto simp: all_parse_def)
    ultimately show ?case using Cons.IH by simp
  qed simp
  then show ?thesis using assms(2) by (simp add: sort_variants_def)
qed

lemma last_is_highest:
  assumes "sorted_wrt (\<lambda>a b. \<not> version_before sv (fst b) (fst a)) xs" and "x \<in> set xs"
    and "\<not> version_before sv (fst x) (fst x)"
  shows "\<not> version_before sv (fst (last xs)) (fst x)"
  using assms
proof (induction xs)
  case (Cons y ys)
  then show ?case by (cases "ys = []") auto
qed simp


text \<open>C13. For a model runtime the highest fitting variant is selected: when every published version of the
  product is a semantic version, the selected release is one that fits the environment's facts, lies in
  the version range and not above the channel head, and no other release that does is higher.\<close>
theorem highest_fitting_variant_selected:
  assumes "semver_laws sv"
    and "list_environment_facts tenant g environment = Inr facts" and "product_releases tenant g product = Inr linked"
    and "\<forall>release \<in> set linked. \<forall>v. bt_get (so_properties release) ''version'' = Some v \<longrightarrow> sv_parse sv v \<noteq> None"
    and "select_model_runtime_variant sv parse_manifest tenant g environment product head head_release rng = Inr (version, rid)"
  shows "(\<exists>release \<in> set linked. so_id release = rid \<and> fitting_variant sv parse_manifest facts head rng release version)
    \<and> (\<forall>other \<in> set linked. \<forall>v. fitting_variant sv parse_manifest facts head rng other v \<longrightarrow> \<not> version_before sv version v)"
proof -
  obtain candidates where c: "variant_candidates sv parse_manifest facts head rng linked = Inr candidates"
      "candidates \<noteq> []" "(version, rid) = last (sort_variants sv candidates)"
    using assms(2,3,5) by (auto simp: select_model_runtime_variant_def result_simps split: if_splits sum.splits)
  note member = variant_candidates_iff [OF c(1)]
  have sorted: "all_parse sv candidates"
    unfolding all_parse_def using member assms(4) by (force simp: fitting_variant_def)
  have "sort_variants sv candidates \<noteq> []" using c(2) set_sort_variants [of sv candidates] by force
  then have chosen: "(version, rid) \<in> set candidates" using c(3) last_in_set set_sort_variants by metis
  have high: "\<not> version_before sv version v" if m: "(v, r) \<in> set candidates" for v r
  proof -
    obtain x where "sv_parse sv v = Some x" using sorted m by (force simp: all_parse_def)
    then have "\<not> version_before sv v v" using semver_irrefl [OF assms(1)] by (simp add: version_before_parsed)
    then show ?thesis
      using last_is_highest [OF sort_variants_sorted [OF assms(1) sorted], of "(v, r)"] m c(3) [symmetric] by simp
  qed
  show ?thesis
  proof (intro conjI ballI allI impI)
    show "\<exists>release \<in> set linked. so_id release = rid \<and> fitting_variant sv parse_manifest facts head rng release version"
      using member [THEN iffD1, OF chosen] by metis
    show "\<not> version_before sv version v"
      if "other \<in> set linked" "fitting_variant sv parse_manifest facts head rng other v" for other v
      by (rule high [of v "so_id other"], rule member [THEN iffD2]) (use that in blast)
  qed
qed


section \<open>Sample variants\<close>

definition demo_manifest :: "string \<Rightarrow> Manifest option" where
  "demo_manifest raw = (if raw = ''small'' then Some \<lparr>mf_kind = ModelRuntime,
       mf_requirements = Some \<lparr>mr_architecture = [''x86''], mr_memory_gib = 4, mr_accelerator = [], mr_gpu = None\<rparr>\<rparr>
     else if raw = ''large'' then Some \<lparr>mf_kind = ModelRuntime,
       mf_requirements = Some \<lparr>mr_architecture = [''x86''], mr_memory_gib = 9, mr_accelerator = [], mr_gpu = None\<rparr>\<rparr>
     else None)"

definition demo_variant :: "string \<Rightarrow> string \<Rightarrow> StoredObject" where
  "demo_variant version raw = (demo_object [])\<lparr>so_id := release_id ''m'' version,
     so_properties := [(''manifest'', raw), (''version'', version)]\<rparr>"

definition demo_facts_object :: StoredObject where
  "demo_facts_object = (demo_object [])\<lparr>so_id := env_id ''e'',
     so_properties := [(''fact.architecture'', ''x86''), (''fact.memory_gib'', ''6'')]\<rparr>"

definition demo_release_link :: "string \<Rightarrow> Link" where
  "demo_release_link version = \<lparr>ln_id = version, ln_from_id = release_id ''m'' version, ln_to_id = product_id ''m'',
     ln_relation = rel_release_of, ln_created = 0\<rparr>"

definition demo_publish :: "string \<times> string \<Rightarrow> MemoryCatalogGraph \<Rightarrow> MemoryCatalogGraph" where
  "demo_publish v g = snd (memory_create_link (Some ''t'') (demo_release_link (fst v)) True
     (snd (memory_create (Some ''t'') (demo_variant (fst v) (snd v)) g)))"

definition demo_models :: "(string \<times> string) list \<Rightarrow> MemoryCatalogGraph" where
  "demo_models vs = fold demo_publish vs (snd (memory_create (Some ''t'') demo_facts_object memory_new))"


theorem highest_fitting_variant_selected_witness:
  "\<exists>release. fitting_variant triple_semver demo_manifest [(''architecture'', ''x86''), (''memory_gib'', ''6'')] ''3.0.0'' None
     release ''2.0.0''"
proof -
  let ?g = "demo_models [(''1.0.0'', ''small''), (''2.0.0'', ''small''), (''3.0.0'', ''large'')]"
  let ?linked = "[demo_variant ''1.0.0'' ''small'', demo_variant ''2.0.0'' ''small'', demo_variant ''3.0.0'' ''large'']"
  have f: "list_environment_facts ''t'' ?g ''e'' = Inr [(''architecture'', ''x86''), (''memory_gib'', ''6'')]"
    and l: "product_releases ''t'' ?g ''m'' = Inr ?linked"
    and s: "select_model_runtime_variant triple_semver demo_manifest ''t'' ?g ''e'' ''m'' ''3.0.0'' (release_id ''m'' ''3.0.0'') None
      = Inr (''2.0.0'', release_id ''m'' ''2.0.0'')"
    by code_simp+
  have "list_all (\<lambda>v. sv_parse triple_semver v \<noteq> None) [''1.0.0'', ''2.0.0'', ''3.0.0'']" by code_simp
  then have "\<forall>release \<in> set ?linked. \<forall>v. bt_get (so_properties release) ''version'' = Some v \<longrightarrow> sv_parse triple_semver v \<noteq> None"
    by (simp add: demo_variant_def)
  from highest_fitting_variant_selected [OF triple_semver_laws f l this s] show ?thesis by blast
qed


end
