(* ===== verification/Plan_Lifecycle.thy ===== *)
theory Plan_Lifecycle
  imports Preview Delivery_Hold Release_Selection "HOL-Library.Option_ord"
begin

text \<open>
  \<open>src/plan/lifecycle.rs\<close>: how a plan is encoded as a stored object, decoded and checked, moved through
  its states and selected, over the property queries of \<open>src/client/helpers.rs\<close> and
  \<open>src/client/ctx_queries.rs\<close> and the writes of \<open>src/client/ctx_objects.rs\<close> for a context bound to a
  tenant of the catalog graph.

  JSON is the argument \<open>plan_json\<close>: encoding and decoding a plan, and the partial decodings that peek
  at its identity.  \<open>require_has_steps_index\<close> and the emptiness of the step array are this code's own.
\<close>

definition kind_plan :: string where "kind_plan = ''tenkai.plan''"
definition namespace_tenkai :: string where "namespace_tenkai = ''tenkai''"
definition no_op_status_detail :: string where "no_op_status_detail = ''no-op; environment already current''"

record raw_peek =
  rp_created_at :: int
  rp_environment :: string
  rp_state :: PlanState
  rp_steps :: "string option"

record 'b plan_json = "'b codec" +
  encode_plan :: "Plan \<Rightarrow> string option"
  decode_plan :: "string \<Rightarrow> Plan option"
  decode_identity :: "string \<Rightarrow> raw_peek option"
  decode_environment :: "string \<Rightarrow> string option"
  decode_has_steps :: "string \<Rightarrow> bool option"

datatype lifecycle_error =
    Not_A_Plan string string
  | No_Serialized_Plan string
  | Unparsable_Plan string
  | Unsupported_Format string u32
  | Marker_Outside_Blocked string
  | Id_Mismatch string string
  | Not_Content_Addressed string
  | Invalid_Step_Order string
  | No_Status string
  | Inconsistent_State string
  | No_Content_Digest string
  | Content_Mutated string
  | No_Created_At string
  | Created_At_Not_Integer string
  | Created_At_Mismatch string
  | No_Environment_Index string
  | Environment_Mismatch string
  | No_Has_Steps string
  | Has_Steps_Mismatch string
  | Status_Mismatch string
  | Steps_Not_Array string
  | Encoding_Failed
  | Content_Immutable string
  | Audit_Immutable string
  | Illegal_Transition string PlanState PlanState
  | Plan_Not_Found string
  | Environment_Required
  | Query_Key_Empty
  | Offset_Needs_Limit
  | Foreign_Environment string
  | Foreign_Status string
  | Omitted_From_Index string
  | Empty_Plan_Selected string
  | Offset_Overflow
  | Catalog catalog_error
  | Preview_Failed preview_error
  | Hold_Failed hold_error
  | Selection_Failed selection_error
  | Duplicate_Instance string string

section \<open>Encoding and decoding\<close>

definition to_object :: "('b, 'z) plan_json_scheme \<Rightarrow> int \<Rightarrow> Plan \<Rightarrow> lifecycle_error + StoredObject" where
  "to_object c now plan =
     bind_r (ok_or Encoding_Failed (executable_digest c plan)) (\<lambda>digest.
     bind_r (ok_or Encoding_Failed (encode_plan c plan)) (\<lambda>json.
     Inr \<lparr>so_id = pl_id plan, so_kind = kind_plan,
          so_name = pl_environment plan @ '' plan '' @ show_int (pl_created_at plan),
          so_namespace = namespace_tenkai, so_external_id = [],
          so_properties = bt_of_list [
            (''format_version'', show_nat (unat (pl_format_version plan))),
            (''environment'', pl_environment plan),
            (''created_at'', show_int (pl_created_at plan)),
            (''content_digest'', digest),
            (''plan'', json),
            (''status'', plan_state_name (pl_state plan)),
            (''has_steps'', if pl_steps plan = [] then ''false'' else ''true'')],
          so_created = pl_created_at plan, so_updated = now\<rparr>))"

definition require_has_steps_index :: "StoredObject \<Rightarrow> bool \<Rightarrow> lifecycle_error + unit" where
  "require_has_steps_index object steps_empty =
     (let expected = (if steps_empty then ''false'' else ''true'') in
      case bt_get (so_properties object) ''has_steps'' of
        Some indexed \<Rightarrow> ensure (indexed = expected) (Has_Steps_Mismatch (so_id object))
      | None \<Rightarrow> Inl (No_Has_Steps (so_id object)))"

definition step_ids_ok :: "Plan \<Rightarrow> bool" where
  "step_ids_ok plan = list_all (\<lambda>(order, step).
       st_order step = of_nat order \<and> st_id step = pl_id plan @ '':step:'' @ show_nat order)
     (enumerate 0 (pl_steps plan))"

definition read_prop :: "StoredObject \<Rightarrow> string \<Rightarrow> (string \<Rightarrow> lifecycle_error) \<Rightarrow> lifecycle_error + string" where
  "read_prop object key e = ok_or (e (so_id object)) (bt_get (so_properties object) key)"

definition from_object :: "('b, 'z) plan_json_scheme \<Rightarrow> StoredObject \<Rightarrow> lifecycle_error + Plan" where
  "from_object c object =
     (let oid = so_id object in
     bind_r (ensure (so_kind object = kind_plan) (Not_A_Plan oid (so_kind object))) (\<lambda>_.
     bind_r (read_prop object ''plan'' No_Serialized_Plan) (\<lambda>raw.
     bind_r (ok_or (Unparsable_Plan oid) (decode_plan c raw)) (\<lambda>plan.
     bind_r (ensure (pl_format_version plan = plan_format_version)
         (Unsupported_Format oid (pl_format_version plan))) (\<lambda>_.
     bind_r (ensure (\<not> (pl_maintenance_blocked plan \<and> pl_state plan \<noteq> Blocked))
         (Marker_Outside_Blocked (pl_id plan))) (\<lambda>_.
     bind_r (ensure (pl_id plan = oid) (Id_Mismatch (pl_id plan) oid)) (\<lambda>_.
     bind_r (ok_or Encoding_Failed (content_address c (pl_environment plan) (pl_created_at plan)
         (pl_inputs plan) (pl_steps plan) (pl_recalled_recovery_reason plan))) (\<lambda>expected.
     bind_r (ensure (pl_content_id plan = expected
         \<and> pl_id plan = plan_id (pl_environment plan) (pl_created_at plan) expected)
         (Not_Content_Addressed oid)) (\<lambda>_.
     bind_r (ensure (step_ids_ok plan) (Invalid_Step_Order oid)) (\<lambda>_.
     bind_r (read_prop object ''status'' No_Status) (\<lambda>status.
     bind_r (ensure (status = plan_state_name (pl_state plan)) (Inconsistent_State oid)) (\<lambda>_.
     bind_r (read_prop object ''content_digest'' No_Content_Digest) (\<lambda>stored_digest.
     bind_r (ok_or Encoding_Failed (executable_digest c plan)) (\<lambda>digest.
     bind_r (ensure (digest = stored_digest) (Content_Mutated oid)) (\<lambda>_.
     bind_r (read_prop object ''created_at'' No_Created_At) (\<lambda>created_at.
     bind_r (ok_or (Created_At_Not_Integer oid) (parse_i64 created_at)) (\<lambda>indexed.
     bind_r (ensure (indexed = pl_created_at plan) (Created_At_Mismatch oid)) (\<lambda>_.
     bind_r (require_has_steps_index object (pl_steps plan = [])) (\<lambda>_.
     bind_r (read_prop object ''environment'' No_Environment_Index) (\<lambda>indexed_environment.
     bind_r (ensure (indexed_environment = pl_environment plan) (Environment_Mismatch oid)) (\<lambda>_.
     Inr plan)))))))))))))))))))))"

section \<open>Transitions\<close>

record Transition =
  tn_state :: PlanState
  tn_gates_skipped :: "bool option"
  tn_status_detail :: string
  tn_maintenance_blocked :: bool

definition transition_new :: "PlanState \<Rightarrow> string \<Rightarrow> Transition" where
  "transition_new state detail = \<lparr>tn_state = state, tn_gates_skipped = None, tn_status_detail = detail,
     tn_maintenance_blocked = False\<rparr>"

definition transition_execution :: "PlanState \<Rightarrow> bool \<Rightarrow> string \<Rightarrow> Transition" where
  "transition_execution state gates_skipped detail = \<lparr>tn_state = state, tn_gates_skipped = Some gates_skipped,
     tn_status_detail = detail, tn_maintenance_blocked = False\<rparr>"

definition transition_maintenance_blocked :: "bool \<Rightarrow> string \<Rightarrow> Transition" where
  "transition_maintenance_blocked gates_skipped detail = \<lparr>tn_state = Blocked,
     tn_gates_skipped = Some gates_skipped, tn_status_detail = detail, tn_maintenance_blocked = True\<rparr>"

definition transition_apply :: "Transition \<Rightarrow> Plan \<Rightarrow> Plan" where
  "transition_apply t plan =
     (let plan = plan\<lparr>pl_state := tn_state t\<rparr>;
          plan = (case tn_gates_skipped t of Some skipped \<Rightarrow> plan\<lparr>pl_gates_skipped := Some skipped\<rparr> | None \<Rightarrow> plan)
      in plan\<lparr>pl_status_detail := tn_status_detail t, pl_maintenance_blocked := tn_maintenance_blocked t\<rparr>)"

definition valid_transition :: "Plan \<Rightarrow> Plan \<Rightarrow> bool" where
  "valid_transition stored plan \<longleftrightarrow>
     pl_state stored = pl_state plan
     \<or> (pl_state stored, pl_state plan) \<in> {(Computed, Running), (Computed, Blocked), (Blocked, Running),
          (Running, Blocked), (Running, Succeeded), (Running, Failed)}
     \<or> (pl_steps stored = [] \<and> pl_steps plan = [] \<and> pl_state stored = Computed \<and> pl_state plan = Succeeded)"

definition check_over :: "('b, 'z) plan_json_scheme \<Rightarrow> Plan \<Rightarrow> Plan \<Rightarrow> lifecycle_error + unit" where
  "check_over c stored plan =
     bind_r (ok_or Encoding_Failed (executable_digest c stored)) (\<lambda>stored_digest.
     bind_r (ok_or Encoding_Failed (executable_digest c plan)) (\<lambda>digest.
     bind_r (ensure (stored_digest = digest) (Content_Immutable (pl_id plan))) (\<lambda>_.
     bind_r (ensure (\<not> (pl_state stored = pl_state plan \<and> pl_state stored \<noteq> Blocked
         \<and> (pl_gates_skipped stored \<noteq> pl_gates_skipped plan \<or> pl_status_detail stored \<noteq> pl_status_detail plan
            \<or> pl_maintenance_blocked stored \<noteq> pl_maintenance_blocked plan))) (Audit_Immutable (pl_id plan))) (\<lambda>_.
     ensure (valid_transition stored plan) (Illegal_Transition (pl_id plan) (pl_state stored) (pl_state plan))))))"

definition copy_override :: "StoredObject \<Rightarrow> string \<Rightarrow> StoredObject \<Rightarrow> StoredObject" where
  "copy_override existing key object = (case bt_get (so_properties existing) key of
     Some v \<Rightarrow> object\<lparr>so_properties := bt_insert key v (so_properties object)\<rparr>
   | None \<Rightarrow> object)"

definition validated_plan_object ::
  "('b, 'z) plan_json_scheme \<Rightarrow> int \<Rightarrow> StoredObject option \<Rightarrow> Plan \<Rightarrow> lifecycle_error + StoredObject" where
  "validated_plan_object c now existing plan =
     bind_r (case existing of None \<Rightarrow> Inr ()
        | Some existing \<Rightarrow> bind_r (from_object c existing) (\<lambda>stored. check_over c stored plan)) (\<lambda>_.
     bind_r (to_object c now plan) (\<lambda>object.
     Inr (case existing of None \<Rightarrow> object
        | Some existing \<Rightarrow> copy_override existing ''last_emergency_override_correlation''
            (copy_override existing ''last_emergency_override_reason'' object))))"

section \<open>Writes through a tenant's context\<close>

record tenant_session =
  ts_tenant :: string
  ts_ports :: event_ports
  ts_feedback_export :: bool
  ts_records_for_observations :: "FeedbackObservation list \<Rightarrow> ProviderEventRecord list"

definition with_feedback_export_events ::
  "tenant_session \<Rightarrow> ProviderEventRecord list \<Rightarrow> FeedbackObservation list \<Rightarrow> ProviderEventRecord list" where
  "with_feedback_export_events s events observations =
     (if \<not> ts_feedback_export s \<or> observations = [] then events
      else events @ ts_records_for_observations s observations)"

definition lift_catalog :: "(catalog_error + 'a) \<times> 'g \<Rightarrow> (lifecycle_error + unit) \<times> 'g" where
  "lift_catalog r = (case r of (Inl e, g) \<Rightarrow> (Inl (Catalog e), g) | (Inr _, g) \<Rightarrow> (Inr (), g))"

definition ctx_put_with_provider_events ::
  "ambient \<Rightarrow> tenant_session \<Rightarrow> StoredObject \<Rightarrow> ProviderEventRecord list \<Rightarrow> FeedbackObservation list
     \<Rightarrow> MemoryCatalogGraph \<Rightarrow> (lifecycle_error + unit) \<times> MemoryCatalogGraph" where
  "ctx_put_with_provider_events amb s object events observations g =
     (let events = with_feedback_export_events s events observations in
      if events = [] \<and> observations = [] then (Inr (), snd (memory_put amb (Some (ts_tenant s)) object g))
      else lift_catalog (memory_put_with_provider_events amb (ts_ports s) (Some (ts_tenant s)) object events
             observations g))"

definition ctx_put_objects_with_provider_events ::
  "ambient \<Rightarrow> tenant_session \<Rightarrow> StoredObject list \<Rightarrow> ProviderEventRecord list \<Rightarrow> FeedbackObservation list
     \<Rightarrow> MemoryCatalogGraph \<Rightarrow> (lifecycle_error + unit) \<times> MemoryCatalogGraph" where
  "ctx_put_objects_with_provider_events amb s objects events observations g =
     (let events = with_feedback_export_events s events observations in
      lift_catalog (memory_put_objects_with_provider_events amb (ts_ports s) (Some (ts_tenant s)) objects events
        observations g))"

definition store_with_provider_events ::
  "('b, 'z) plan_json_scheme \<Rightarrow> ambient \<Rightarrow> tenant_session \<Rightarrow> Plan \<Rightarrow> ProviderEventRecord list
     \<Rightarrow> FeedbackObservation list \<Rightarrow> MemoryCatalogGraph \<Rightarrow> (lifecycle_error + unit) \<times> MemoryCatalogGraph" where
  "store_with_provider_events c amb s plan events observations g =
     (case validated_plan_object c (am_now amb) (memory_get g (Some (ts_tenant s)) (pl_id plan)) plan of
        Inl e \<Rightarrow> (Inl e, g)
      | Inr object \<Rightarrow> ctx_put_with_provider_events amb s object events observations g)"

definition store ::
  "('b, 'z) plan_json_scheme \<Rightarrow> ambient \<Rightarrow> tenant_session \<Rightarrow> Plan \<Rightarrow> MemoryCatalogGraph
     \<Rightarrow> (lifecycle_error + unit) \<times> MemoryCatalogGraph" where
  "store c amb s plan = store_with_provider_events c amb s plan [] []"

definition store_with_environment_and_provider_events ::
  "('b, 'z) plan_json_scheme \<Rightarrow> ambient \<Rightarrow> tenant_session \<Rightarrow> Plan \<Rightarrow> StoredObject
     \<Rightarrow> ProviderEventRecord list \<Rightarrow> FeedbackObservation list \<Rightarrow> MemoryCatalogGraph
     \<Rightarrow> (lifecycle_error + unit) \<times> MemoryCatalogGraph" where
  "store_with_environment_and_provider_events c amb s plan environment events observations g =
     (case validated_plan_object c (am_now amb) (memory_get g (Some (ts_tenant s)) (pl_id plan)) plan of
        Inl e \<Rightarrow> (Inl e, g)
      | Inr object \<Rightarrow> ctx_put_objects_with_provider_events amb s [object, environment] events observations g)"

definition load_plan ::
  "('b, 'z) plan_json_scheme \<Rightarrow> tenant_session \<Rightarrow> MemoryCatalogGraph \<Rightarrow> string \<Rightarrow> lifecycle_error + Plan" where
  "load_plan c s g pid =
     bind_r (ok_or (Plan_Not_Found pid) (memory_get g (Some (ts_tenant s)) pid)) (from_object c)"

datatype Persistence =
    Standard
  | WithProviderEvents "ProviderEventRecord list" "FeedbackObservation list"
  | WithEnvironmentAndProviderEvents StoredObject "ProviderEventRecord list" "FeedbackObservation list"
  | Guarded string string string bool

definition intended :: "Plan \<Rightarrow> PlanState \<times> bool option \<times> string \<times> bool" where
  "intended plan = (pl_state plan, pl_gates_skipped plan, pl_status_detail plan, pl_maintenance_blocked plan)"

definition guarded_write ::
  "('b, 'z) plan_json_scheme \<Rightarrow> ambient \<Rightarrow> tenant_session \<Rightarrow> Plan \<Rightarrow> string \<Rightarrow> string \<Rightarrow> string \<Rightarrow> bool
     \<Rightarrow> MemoryCatalogGraph \<Rightarrow> (lifecycle_error + unit) \<times> MemoryCatalogGraph" where
  "guarded_write c amb s plan namespace key fencing_token confirm_ambiguous g =
     (case to_object c (am_now amb) plan of
        Inl e \<Rightarrow> (Inl e, g)
      | Inr object \<Rightarrow>
          (case memory_guarded_put amb (Some (ts_tenant s)) object namespace key fencing_token False g of
             (Inr _, g) \<Rightarrow> (Inr (), g)
           | (Inl e, g) \<Rightarrow>
               (if \<not> confirm_ambiguous then (Inl (Catalog e), g)
                else case load_plan c s g (pl_id plan) of
                  Inr stored \<Rightarrow> (if intended stored = intended plan then Inr () else Inl (Catalog e), g)
                | Inl _ \<Rightarrow> (Inl (Catalog e), g))))"

definition transition ::
  "('b, 'z) plan_json_scheme \<Rightarrow> ambient \<Rightarrow> tenant_session \<Rightarrow> Plan \<Rightarrow> Transition \<Rightarrow> Persistence
     \<Rightarrow> MemoryCatalogGraph \<Rightarrow> (lifecycle_error + unit) \<times> MemoryCatalogGraph" where
  "transition c amb s plan update persistence g =
     (let plan = transition_apply update plan in
      case persistence of
        Standard \<Rightarrow> store c amb s plan g
      | WithProviderEvents events observations \<Rightarrow> store_with_provider_events c amb s plan events observations g
      | WithEnvironmentAndProviderEvents environment events observations \<Rightarrow>
          store_with_environment_and_provider_events c amb s plan environment events observations g
      | Guarded namespace key fencing_token confirm_ambiguous \<Rightarrow>
          guarded_write c amb s plan namespace key fencing_token confirm_ambiguous g)"

section \<open>Queries by property\<close>

record PropertyIndexQuery =
  pq_kind :: string
  pq_key :: string
  pq_value :: string
  pq_matching :: "(string \<times> string list) option"
  pq_equals :: "(string \<times> string) option"
  pq_order_key :: "string option"
  pq_descending :: bool
  pq_limit :: "u32 option"
  pq_offset :: "u32 option"

definition property_integer :: "string \<Rightarrow> StoredObject \<Rightarrow> int option" where
  "property_integer key object = Option.bind (bt_get (so_properties object) key) parse_i64"

definition payload_has_steps :: "('b, 'z) plan_json_scheme \<Rightarrow> StoredObject \<Rightarrow> bool" where
  "payload_has_steps c object =
     (case Option.bind (bt_get (so_properties object) ''plan'') (decode_has_steps c) of
        Some nonempty \<Rightarrow> nonempty | None \<Rightarrow> False)"

definition query_matches :: "('b, 'z) plan_json_scheme \<Rightarrow> PropertyIndexQuery \<Rightarrow> StoredObject \<Rightarrow> bool" where
  "query_matches c q object \<longleftrightarrow>
     (case pq_matching q of None \<Rightarrow> True
      | Some (key, vals) \<Rightarrow>
          (case bt_get (so_properties object) key of None \<Rightarrow> False | Some v \<Rightarrow> v \<in> set vals))
     \<and> (case pq_equals q of None \<Rightarrow> True
        | Some (key, v) \<Rightarrow>
            (case bt_get (so_properties object) key of
               Some w \<Rightarrow> w = v
             | None \<Rightarrow> key = ''has_steps'' \<and> payload_has_steps c object = (v = ''true'')))"

definition query_sort :: "PropertyIndexQuery \<Rightarrow> StoredObject list \<Rightarrow> StoredObject list" where
  "query_sort q objects = (case pq_order_key q of
     None \<Rightarrow> objects
   | Some key \<Rightarrow>
       (if pq_descending q then rev (sort_key (property_integer key) (rev objects))
        else sort_key (property_integer key) objects))"

definition apply_remote_property_index ::
  "('b, 'z) plan_json_scheme \<Rightarrow> StoredObject list \<Rightarrow> PropertyIndexQuery \<Rightarrow> lifecycle_error + StoredObject list" where
  "apply_remote_property_index c objects q =
     (let objects = query_sort q (filter (query_matches c q) objects) in
      bind_r (case pq_offset q of None \<Rightarrow> Inr objects
         | Some offset \<Rightarrow>
             bind_r (ensure (pq_limit q \<noteq> None) Offset_Needs_Limit) (\<lambda>_. Inr (drop (unat offset) objects))) (\<lambda>objects.
      Inr (case pq_limit q of None \<Rightarrow> objects | Some limit \<Rightarrow> take (unat limit) objects)))"

definition find_by_property_matching ::
  "('b, 'z) plan_json_scheme \<Rightarrow> tenant_session \<Rightarrow> MemoryCatalogGraph \<Rightarrow> PropertyIndexQuery
     \<Rightarrow> lifecycle_error + StoredObject list" where
  "find_by_property_matching c s g q =
     bind_r (ensure (trim (pq_kind q) \<noteq> [] \<and> trim (pq_key q) \<noteq> []) Query_Key_Empty) (\<lambda>_.
     bind_r (ensure (case pq_matching q of None \<Rightarrow> True | Some (key, _) \<Rightarrow> trim key \<noteq> []) Query_Key_Empty) (\<lambda>_.
     bind_r (ensure (case pq_equals q of None \<Rightarrow> True | Some (key, v) \<Rightarrow> trim key \<noteq> [] \<and> trim v \<noteq> [])
         Query_Key_Empty) (\<lambda>_.
     bind_r (ensure (case pq_order_key q of None \<Rightarrow> True | Some key \<Rightarrow> trim key \<noteq> []) Query_Key_Empty) (\<lambda>_.
     bind_r (map_err Catalog (memory_find_by_property g (Some (ts_tenant s)) (pq_kind q) (pq_key q) (pq_value q)))
       (\<lambda>objects. apply_remote_property_index c objects q)))))"

definition environment_plan_index_query ::
  "string \<Rightarrow> PlanState list option \<Rightarrow> bool \<Rightarrow> u32 option \<Rightarrow> u32 option \<Rightarrow> bool option \<Rightarrow> PropertyIndexQuery" where
  "environment_plan_index_query environment statuses descending limit offset has_steps =
     \<lparr>pq_kind = kind_plan, pq_key = ''environment'', pq_value = environment,
      pq_matching = map_option (\<lambda>states. (''status'', map plan_state_name states)) statuses,
      pq_equals = map_option (\<lambda>b. (''has_steps'', if b then ''true'' else ''false'')) has_steps,
      pq_order_key = Some ''created_at'', pq_descending = descending, pq_limit = limit, pq_offset = offset\<rparr>"

definition environment_plan_objects ::
  "('b, 'z) plan_json_scheme \<Rightarrow> tenant_session \<Rightarrow> MemoryCatalogGraph \<Rightarrow> string \<Rightarrow> PlanState list option \<Rightarrow> bool
     \<Rightarrow> u32 option \<Rightarrow> u32 option \<Rightarrow> bool option \<Rightarrow> lifecycle_error + StoredObject list" where
  "environment_plan_objects c s g environment statuses descending limit offset has_steps =
     bind_r (ensure (trim environment \<noteq> []) Environment_Required) (\<lambda>_.
     find_by_property_matching c s g
       (environment_plan_index_query environment statuses descending limit offset has_steps))"

section \<open>Peeks and index checks\<close>

definition json_array_is_empty :: "string \<Rightarrow> bool option" where
  "json_array_is_empty raw =
     (case trim raw of
        [] \<Rightarrow> None
      | ch # rest \<Rightarrow>
          (if ch = CHR ''['' \<and> rest \<noteq> [] \<and> last rest = CHR '']'' then Some (trim (butlast rest) = [])
           else None))"

record PlanPayloadPeek =
  pk_created_at :: int
  pk_environment :: string
  pk_state :: PlanState
  pk_steps_empty :: bool

definition peek_plan_payload ::
  "('b, 'z) plan_json_scheme \<Rightarrow> StoredObject \<Rightarrow> lifecycle_error + PlanPayloadPeek" where
  "peek_plan_payload c object =
     bind_r (read_prop object ''plan'' No_Serialized_Plan) (\<lambda>raw.
     bind_r (ok_or (Unparsable_Plan (so_id object)) (decode_identity c raw)) (\<lambda>peek.
     bind_r (case rp_steps peek of None \<Rightarrow> Inr True
        | Some steps \<Rightarrow> ok_or (Unparsable_Plan (so_id object)) (json_array_is_empty steps)) (\<lambda>empty.
     Inr \<lparr>pk_created_at = rp_created_at peek, pk_environment = rp_environment peek, pk_state = rp_state peek,
          pk_steps_empty = empty\<rparr>)))"

definition require_indexed_created_at_matches_payload ::
  "('b, 'z) plan_json_scheme \<Rightarrow> StoredObject \<Rightarrow> lifecycle_error + PlanPayloadPeek" where
  "require_indexed_created_at_matches_payload c object =
     bind_r (read_prop object ''created_at'' No_Created_At) (\<lambda>created_at.
     bind_r (ok_or (Created_At_Not_Integer (so_id object)) (parse_i64 created_at)) (\<lambda>indexed.
     bind_r (peek_plan_payload c object) (\<lambda>peek.
     bind_r (ensure (indexed = pk_created_at peek) (Created_At_Mismatch (so_id object))) (\<lambda>_. Inr peek))))"

definition require_indexed_identity ::
  "('b, 'z) plan_json_scheme \<Rightarrow> StoredObject \<Rightarrow> lifecycle_error + PlanPayloadPeek" where
  "require_indexed_identity c object =
     bind_r (require_indexed_created_at_matches_payload c object) (\<lambda>peek.
     bind_r (read_prop object ''environment'' No_Environment_Index) (\<lambda>environment.
     bind_r (ensure (environment = pk_environment peek) (Environment_Mismatch (so_id object))) (\<lambda>_.
     bind_r (read_prop object ''status'' No_Status) (\<lambda>status.
     bind_r (ensure (status = plan_state_name (pk_state peek)) (Status_Mismatch (so_id object))) (\<lambda>_.
     bind_r (require_has_steps_index object (pk_steps_empty peek)) (\<lambda>_. Inr peek))))))"

definition peek_plan_environment ::
  "('b, 'z) plan_json_scheme \<Rightarrow> StoredObject \<Rightarrow> lifecycle_error + string" where
  "peek_plan_environment c object =
     bind_r (read_prop object ''plan'' No_Serialized_Plan) (\<lambda>raw.
     ok_or (Unparsable_Plan (so_id object)) (decode_environment c raw))"

definition reject_retargeted ::
  "('b, 'z) plan_json_scheme \<Rightarrow> string \<Rightarrow> StoredObject \<Rightarrow> lifecycle_error + unit" where
  "reject_retargeted c environment object =
     (let indexed = bt_get (so_properties object) ''environment'' in
      case peek_plan_environment c object of
        Inl e \<Rightarrow> (if indexed = Some environment then Inl e else Inr ())
      | Inr peeked \<Rightarrow>
          (if peeked \<noteq> environment then Inr ()
           else case indexed of
             Some i \<Rightarrow> ensure (i = environment) (Environment_Mismatch (so_id object))
           | None \<Rightarrow> Inl (No_Environment_Index (so_id object))))"

definition reject_retargeted_environment_index ::
  "('b, 'z) plan_json_scheme \<Rightarrow> StoredObject list \<Rightarrow> string \<Rightarrow> lifecycle_error + unit" where
  "reject_retargeted_environment_index c objects environment =
     try_all (reject_retargeted c environment) objects"

definition omitted_ids :: "('b, 'z) plan_json_scheme \<Rightarrow> string \<Rightarrow> StoredObject list \<Rightarrow> string list" where
  "omitted_ids c environment snapshot =
     map so_id (filter (\<lambda>object. peek_plan_environment c object = Inr environment
         \<and> bt_get (so_properties object) ''environment'' = Some environment) snapshot)"

definition reject_omit_from_index ::
  "('b, 'z) plan_json_scheme \<Rightarrow> StoredObject list \<Rightarrow> string \<Rightarrow> StoredObject list \<Rightarrow> lifecycle_error + unit" where
  "reject_omit_from_index c snapshot environment indexed =
     try_all (\<lambda>oid. ensure (oid \<in> set (map so_id indexed)) (Omitted_From_Index oid))
       (omitted_ids c environment snapshot)"

definition reject_omit :: 
  "('b, 'z) plan_json_scheme \<Rightarrow> StoredObject list option \<Rightarrow> string \<Rightarrow> StoredObject list \<Rightarrow> lifecycle_error + unit" where
  "reject_omit c snapshot environment indexed = (case snapshot of None \<Rightarrow> Inr ()
     | Some objects \<Rightarrow> reject_omit_from_index c objects environment indexed)"

definition require_environment_indexes_match_payloads ::
  "('b, 'z) plan_json_scheme \<Rightarrow> tenant_session \<Rightarrow> MemoryCatalogGraph \<Rightarrow> StoredObject list option \<Rightarrow> string
     \<Rightarrow> lifecycle_error + unit" where
  "require_environment_indexes_match_payloads c s g snapshot environment =
     bind_r (reject_retargeted_environment_index c
         (case snapshot of Some objects \<Rightarrow> objects
          | None \<Rightarrow> memory_list_kind g (Some (ts_tenant s)) kind_plan) environment) (\<lambda>_.
     bind_r (environment_plan_objects c s g environment None True None None None) (\<lambda>objects.
     bind_r (reject_omit c snapshot environment objects) (\<lambda>_.
     try_all (\<lambda>object. bind_r (require_indexed_identity c object) (\<lambda>peek.
         ensure (pk_environment peek = environment) (Foreign_Environment (so_id object)))) objects)))"

section \<open>Selection\<close>

fun newest_from ::
  "('b, 'z) plan_json_scheme \<Rightarrow> string \<Rightarrow> (int \<times> StoredObject) option \<Rightarrow> StoredObject list
     \<Rightarrow> lifecycle_error + (int \<times> StoredObject) option" where
  "newest_from c environment newest [] = Inr newest"
| "newest_from c environment newest (object # objects) =
     bind_r (require_indexed_identity c object) (\<lambda>peek.
     bind_r (ensure (pk_environment peek = environment) (Foreign_Environment (so_id object))) (\<lambda>_.
     newest_from c environment
       (case newest of None \<Rightarrow> Some (pk_created_at peek, object)
        | Some (best, _) \<Rightarrow> if best < pk_created_at peek then Some (pk_created_at peek, object) else newest)
       objects))"

definition newest_plan_from_objects ::
  "('b, 'z) plan_json_scheme \<Rightarrow> StoredObject list \<Rightarrow> string \<Rightarrow> lifecycle_error + Plan option" where
  "newest_plan_from_objects c objects environment =
     bind_r (newest_from c environment None objects) (\<lambda>newest. case newest of
       None \<Rightarrow> Inr None
     | Some (_, object) \<Rightarrow> bind_r (from_object c object) (\<lambda>plan. Inr (Some plan)))"

definition latest_for_environment ::
  "('b, 'z) plan_json_scheme \<Rightarrow> tenant_session \<Rightarrow> MemoryCatalogGraph \<Rightarrow> StoredObject list option \<Rightarrow> string
     \<Rightarrow> lifecycle_error + Plan option" where
  "latest_for_environment c s g snapshot environment =
     bind_r (reject_retargeted_environment_index c
         (case snapshot of Some objects \<Rightarrow> objects
          | None \<Rightarrow> memory_list_kind g (Some (ts_tenant s)) kind_plan) environment) (\<lambda>_.
     bind_r (environment_plan_objects c s g environment None True None None None) (\<lambda>objects.
     bind_r (reject_omit c snapshot environment objects) (\<lambda>_.
     newest_plan_from_objects c objects environment)))"

fun plans_from_objects ::
  "('b, 'z) plan_json_scheme \<Rightarrow> StoredObject list \<Rightarrow> string \<Rightarrow> PlanState list option \<Rightarrow> bool option
     \<Rightarrow> lifecycle_error + Plan list" where
  "plans_from_objects c [] environment statuses has_steps = Inr []"
| "plans_from_objects c (object # objects) environment statuses has_steps =
     bind_r (from_object c object) (\<lambda>plan.
     bind_r (ensure (pl_environment plan = environment) (Foreign_Environment (pl_id plan))) (\<lambda>_.
     bind_r (ensure (case statuses of None \<Rightarrow> True | Some allowed \<Rightarrow> pl_state plan \<in> set allowed)
         (Foreign_Status (pl_id plan))) (\<lambda>_.
     bind_r (plans_from_objects c objects environment statuses has_steps) (\<lambda>plans.
     Inr (if (case has_steps of None \<Rightarrow> False | Some want \<Rightarrow> (pl_steps plan = []) = want) then plans
          else plan # plans)))))"

definition load_for_environment ::
  "('b, 'z) plan_json_scheme \<Rightarrow> tenant_session \<Rightarrow> MemoryCatalogGraph \<Rightarrow> string \<Rightarrow> PlanState list option \<Rightarrow> bool
     \<Rightarrow> u32 option \<Rightarrow> u32 option \<Rightarrow> bool option \<Rightarrow> lifecycle_error + Plan list" where
  "load_for_environment c s g environment statuses descending limit offset has_steps =
     bind_r (environment_plan_objects c s g environment statuses descending limit offset has_steps) (\<lambda>objects.
     plans_from_objects c objects environment statuses has_steps)"

definition load_oldest_for_environment ::
  "('b, 'z) plan_json_scheme \<Rightarrow> tenant_session \<Rightarrow> MemoryCatalogGraph \<Rightarrow> string \<Rightarrow> PlanState list
     \<Rightarrow> lifecycle_error + Plan option" where
  "load_oldest_for_environment c s g environment statuses =
     bind_r (load_for_environment c s g environment (Some statuses) False (Some 1) None (Some True)) (\<lambda>plans.
     Inr (if plans = [] then None else Some (last plans)))"

definition list_for_environment ::
  "('b, 'z) plan_json_scheme \<Rightarrow> tenant_session \<Rightarrow> MemoryCatalogGraph \<Rightarrow> StoredObject list option \<Rightarrow> string
     \<Rightarrow> PlanState list option \<Rightarrow> lifecycle_error + Plan list" where
  "list_for_environment c s g snapshot environment statuses =
     bind_r (require_environment_indexes_match_payloads c s g snapshot environment) (\<lambda>_.
     load_for_environment c s g environment statuses False None None None)"

definition stored_retirement :: "StoredObject \<Rightarrow> EnvironmentRetirement option" where
  "stored_retirement object = retirement_from_properties (bt_get (so_properties object))"

definition environment_retirement ::
  "tenant_session \<Rightarrow> MemoryCatalogGraph \<Rightarrow> string \<Rightarrow> EnvironmentRetirement option" where
  "environment_retirement s g name = (case memory_get g (Some (ts_tenant s)) (env_id name) of
     Some object \<Rightarrow> if so_kind object = kind_environment then stored_retirement object else None
   | None \<Rightarrow> None)"

definition oldest_for_environment ::
  "('b, 'z) plan_json_scheme \<Rightarrow> tenant_session \<Rightarrow> MemoryCatalogGraph \<Rightarrow> StoredObject list option \<Rightarrow> string
     \<Rightarrow> PlanState list \<Rightarrow> lifecycle_error + Plan option" where
  "oldest_for_environment c s g snapshot environment statuses =
     (if environment_retirement s g environment \<noteq> None then Inr None
      else bind_r (require_environment_indexes_match_payloads c s g snapshot environment) (\<lambda>_.
        load_oldest_for_environment c s g environment statuses))"

fun retire_each ::
  "('b, 'z) plan_json_scheme \<Rightarrow> ambient \<Rightarrow> tenant_session \<Rightarrow> Plan list \<Rightarrow> nat \<Rightarrow> MemoryCatalogGraph
     \<Rightarrow> (lifecycle_error + nat) \<times> MemoryCatalogGraph" where
  "retire_each c amb s [] retired g = (Inr retired, g)"
| "retire_each c amb s (plan # plans) retired g =
     (if pl_steps plan \<noteq> [] then (Inl (Empty_Plan_Selected (pl_id plan)), g)
      else case transition c amb s plan (transition_new Succeeded no_op_status_detail) Standard g of
        (Inl e, g) \<Rightarrow> (Inl e, g)
      | (Inr _, g) \<Rightarrow> retire_each c amb s plans (retired + 1) g)"

definition retire_empty_executable_plans ::
  "('b, 'z) plan_json_scheme \<Rightarrow> ambient \<Rightarrow> tenant_session \<Rightarrow> string \<Rightarrow> MemoryCatalogGraph
     \<Rightarrow> (lifecycle_error + nat) \<times> MemoryCatalogGraph" where
  "retire_empty_executable_plans c amb s environment g =
     (case load_for_environment c s g environment (Some [Computed, Running]) False None None (Some False) of
        Inl e \<Rightarrow> (Inl e, g)
      | Inr plans \<Rightarrow> retire_each c amb s plans 0 g)"

end
