(* ===== verification/Plan_Theorems.thy ===== *)
theory Plan_Theorems
  imports Plan_Lifecycle Catalog_Leases
begin

text \<open>
  What the plan lifecycle promises: a plan that is read is well formed, a plan that is stored reads
  back as it was, its content never changes and its state only moves forward, and the queries select
  what they say.
\<close>

section \<open>Well-formed plans\<close>

definition marker_ok :: "Plan \<Rightarrow> bool" where
  "marker_ok plan \<longleftrightarrow> (pl_maintenance_blocked plan \<longrightarrow> pl_state plan = Blocked)"

definition content_ok :: "('b, 'z) plan_json_scheme \<Rightarrow> Plan \<Rightarrow> bool" where
  "content_ok c plan \<longleftrightarrow>
     pl_format_version plan = plan_format_version
     \<and> content_address c (pl_environment plan) (pl_created_at plan) (pl_inputs plan) (pl_steps plan)
         (pl_recalled_recovery_reason plan) = Some (pl_content_id plan)
     \<and> pl_id plan = plan_id (pl_environment plan) (pl_created_at plan) (pl_content_id plan)
     \<and> step_ids_ok plan \<and> is_i64 (pl_created_at plan) \<and> executable_digest c plan \<noteq> None"

definition plan_ok :: "('b, 'z) plan_json_scheme \<Rightarrow> Plan \<Rightarrow> bool" where
  "plan_ok c plan \<longleftrightarrow> content_ok c plan \<and> marker_ok plan"

definition stores :: "('b, 'z) plan_json_scheme \<Rightarrow> StoredObject \<Rightarrow> Plan \<Rightarrow> bool" where
  "stores c object plan \<longleftrightarrow>
     so_kind object = kind_plan \<and> so_id object = pl_id plan
     \<and> Option.bind (bt_get (so_properties object) ''plan'') (decode_plan c) = Some plan
     \<and> bt_get (so_properties object) ''status'' = Some (plan_state_name (pl_state plan))
     \<and> bt_get (so_properties object) ''content_digest'' = executable_digest c plan
     \<and> property_integer ''created_at'' object = Some (pl_created_at plan)
     \<and> bt_get (so_properties object) ''has_steps'' = Some (if pl_steps plan = [] then ''false'' else ''true'')
     \<and> bt_get (so_properties object) ''environment'' = Some (pl_environment plan)"

lemma parse_i64_range: "parse_i64 s = Some x \<Longrightarrow> is_i64 x"
  by (auto simp: parse_i64_def split: option.splits if_splits)

lemma require_has_steps_iff:
  "require_has_steps_index object b = Inr u
     \<longleftrightarrow> bt_get (so_properties object) ''has_steps'' = Some (if b then ''false'' else ''true'')"
  by (auto simp: require_has_steps_index_def Let_def result_simps split: option.splits)

lemma read_prop_iff: "read_prop object key e = Inr v \<longleftrightarrow> bt_get (so_properties object) key = Some v"
  by (simp add: read_prop_def result_simps)

lemma from_object_iff: "from_object c object = Inr plan \<longleftrightarrow> stores c object plan \<and> plan_ok c plan"
proof
  assume "from_object c object = Inr plan"
  then show "stores c object plan \<and> plan_ok c plan"
    by (auto simp: from_object_def Let_def result_simps read_prop_iff require_has_steps_iff stores_def plan_ok_def
        content_ok_def marker_ok_def property_integer_def dest: parse_i64_range)
next
  assume "stores c object plan \<and> plan_ok c plan"
  then obtain raw at digest where
    "bt_get (so_properties object) ''plan'' = Some raw" "decode_plan c raw = Some plan"
    "bt_get (so_properties object) ''created_at'' = Some at" "parse_i64 at = Some (pl_created_at plan)"
    "executable_digest c plan = Some digest"
    by (auto simp: stores_def plan_ok_def content_ok_def property_integer_def bind_eq_Some_conv)
  with \<open>stores c object plan \<and> plan_ok c plan\<close> show "from_object c object = Inr plan"
    by (auto simp: from_object_def Let_def result_simps read_prop_iff require_has_steps_iff stores_def plan_ok_def
        content_ok_def marker_ok_def)
qed

text \<open>What the encoder and decoder of plans are relied on for: a plan that encodes decodes to itself,
  and the encoding of executable content is injective.\<close>
definition json_laws :: "('b, 'z) plan_json_scheme \<Rightarrow> bool" where
  "json_laws c \<longleftrightarrow> (\<forall>plan json. encode_plan c plan = Some json \<longrightarrow> decode_plan c json = Some plan)
     \<and> inj_on (encode_executable c) {x. encode_executable c x \<noteq> None}"

lemma to_object_stores:
  assumes "to_object c now plan = Inr object" and "json_laws c" and "is_i64 (pl_created_at plan)"
  shows "stores c object plan"
proof -
  from assms(1) obtain digest json where d: "executable_digest c plan = Some digest" "encode_plan c plan = Some json"
      "object = \<lparr>so_id = pl_id plan, so_kind = kind_plan,
          so_name = pl_environment plan @ '' plan '' @ show_int (pl_created_at plan),
          so_namespace = namespace_tenkai, so_external_id = [],
          so_properties = bt_of_list [
            (''format_version'', show_nat (unat (pl_format_version plan))),
            (''environment'', pl_environment plan),
            (''created_at'', show_int (pl_created_at plan)),
            (''content_digest'', digest),
            (''plan'', json),
            (''status'', plan_state_name (pl_state plan)),
            (''has_steps'', if pl_steps plan = [] then ''false'' else ''true'')],
          so_created = pl_created_at plan, so_updated = now\<rparr>"
    by (auto simp: to_object_def result_simps)
  moreover have "decode_plan c json = Some plan" using assms(2) d(2) by (simp add: json_laws_def)
  ultimately show ?thesis
    using assms(3) by (simp add: stores_def map_of_bt_of_list property_integer_def parse_i64_show_int)
qed

lemma copy_override_stores:
  assumes "stores c object plan" and "key \<notin> {''plan'', ''status'', ''content_digest'', ''created_at'', ''has_steps'', ''environment''}"
  shows "stores c (copy_override existing key object) plan"
  using assms by (auto simp: stores_def copy_override_def property_integer_def split: option.split)

lemma copy_override_id [simp]: "so_id (copy_override existing key object) = so_id object"
  by (simp add: copy_override_def split: option.split)

lemma stores_id: "stores c object plan \<Longrightarrow> so_id object = pl_id plan"
  by (simp add: stores_def)

lemma validated_stores:
  assumes "validated_plan_object c now existing plan = Inr object" and "json_laws c" and "is_i64 (pl_created_at plan)"
  shows "stores c object plan"
proof -
  from assms(1) obtain object' where o': "to_object c now plan = Inr object'"
      "object = (case existing of None \<Rightarrow> object'
        | Some existing \<Rightarrow> copy_override existing ''last_emergency_override_correlation''
            (copy_override existing ''last_emergency_override_reason'' object'))"
    by (auto simp: validated_plan_object_def result_simps)
  have "stores c object' plan" by (rule to_object_stores [OF o'(1) assms(2,3)])
  then show ?thesis by (cases existing) (simp_all add: o'(2) copy_override_stores)
qed

section \<open>Writes\<close>

lemma lift_catalog_Inr: "lift_catalog r = (Inr u, g) \<longleftrightarrow> (\<exists>v. r = (Inr v, g))"
  by (auto simp: lift_catalog_def split: prod.splits sum.splits)

lemma apply_get:
  assumes "apply_objects_with_provider_events amb ports tenant objects events observations lease g = (Inr u, g')"
  shows "memory_get g' tenant oid
    = (case object_named objects oid of Some object \<Rightarrow> Some object | None \<Rightarrow> memory_get g tenant oid)"
proof (cases "apply_objects amb ports tenant objects events observations lease g")
  case (Inr p)
  then show ?thesis
    using assms apply_objects_get [OF Inr, of oid] by (auto simp: apply_objects_with_provider_events_def memory_get_def)
qed (use assms in \<open>simp add: apply_objects_with_provider_events_def\<close>)

lemma put_events_apply:
  assumes "memory_put_with_provider_events amb ports tenant object events observations g = (Inr v, g')"
  shows "apply_objects_with_provider_events amb ports tenant [object] events observations None g = (Inr (), g')"
proof -
  obtain r h where r: "apply_objects_with_provider_events amb ports tenant [object] events observations None g = (r, h)"
    by fastforce
  then show ?thesis
    using assms by (cases r) (simp_all add: memory_put_with_provider_events_def memory_put_objects_with_provider_events_def)
qed

lemma ctx_put_get:
  assumes "ctx_put_with_provider_events amb s object events observations g = (Inr u, g')"
  shows "memory_get g' (Some (ts_tenant s)) oid
    = (if oid = so_id object then Some object else memory_get g (Some (ts_tenant s)) oid)"
proof -
  define events' where "events' = with_feedback_export_events s events observations"
  note def = ctx_put_with_provider_events_def [of amb s object events observations g, folded events'_def, unfolded Let_def]
  show ?thesis
  proof (cases "events' = [] \<and> observations = []")
    case True
    then have "g' = snd (memory_put amb (Some (ts_tenant s)) object g)" using assms unfolding def by simp
    then show ?thesis by (simp only: memory_put_get)
  next
    case False
    then have "lift_catalog (memory_put_with_provider_events amb (ts_ports s) (Some (ts_tenant s)) object events'
        observations g) = (Inr u, g')"
      using assms unfolding def by (simp only: if_False)
    then obtain v where "memory_put_with_provider_events amb (ts_ports s) (Some (ts_tenant s)) object events'
        observations g = (Inr v, g')"
      unfolding lift_catalog_Inr by blast
    from apply_get [OF put_events_apply [OF this], of oid] show ?thesis by (simp add: object_named_def)
  qed
qed

lemma ctx_put_objects_get:
  assumes "ctx_put_objects_with_provider_events amb s objects events observations g = (Inr u, g')"
  shows "memory_get g' (Some (ts_tenant s)) oid
    = (case object_named objects oid of Some object \<Rightarrow> Some object | None \<Rightarrow> memory_get g (Some (ts_tenant s)) oid)"
proof -
  from assms obtain events' v where "apply_objects_with_provider_events amb (ts_ports s) (Some (ts_tenant s)) objects
      events' observations None g = (Inr v, g')"
    by (auto simp: ctx_put_objects_with_provider_events_def Let_def lift_catalog_Inr
        memory_put_objects_with_provider_events_def)
  from apply_get [OF this] show ?thesis .
qed

lemma load_plan_iff:
  "load_plan c s g pid = Inr plan
     \<longleftrightarrow> (\<exists>object. memory_get g (Some (ts_tenant s)) pid = Some object \<and> stores c object plan \<and> plan_ok c plan)"
  by (auto simp: load_plan_def result_simps from_object_iff)


section \<open>Content never changes, state moves forward\<close>

fun may_become :: "PlanState \<Rightarrow> PlanState \<Rightarrow> bool" where
  "may_become Computed _ = True"
| "may_become Running b = (b \<noteq> Computed)"
| "may_become Blocked b = (b \<noteq> Computed)"
| "may_become Succeeded b = (b = Succeeded)"
| "may_become Failed b = (b = Failed)"

lemma may_become_refl: "may_become a a"
  by (cases a) simp_all

lemma may_become_trans: "may_become a b \<Longrightarrow> may_become b d \<Longrightarrow> may_become a d"
  by (cases a; cases b; cases d) simp_all

lemma valid_may_become: "valid_transition stored plan \<Longrightarrow> may_become (pl_state stored) (pl_state plan)"
  by (auto simp: valid_transition_def may_become_refl)

definition settled :: "PlanState \<Rightarrow> bool" where
  "settled st \<longleftrightarrow> st = Succeeded \<or> st = Failed"

lemma check_over_facts:
  assumes "check_over c stored plan = Inr u"
  shows "executable_digest c plan = executable_digest c stored" and "may_become (pl_state stored) (pl_state plan)"
    and "settled (pl_state stored) \<Longrightarrow> intended plan = intended stored"
proof -
  have f: "executable_digest c plan = executable_digest c stored" "valid_transition stored plan"
    "pl_state stored = pl_state plan \<Longrightarrow> pl_state stored \<noteq> Blocked \<Longrightarrow> pl_gates_skipped stored = pl_gates_skipped plan
      \<and> pl_status_detail stored = pl_status_detail plan \<and> pl_maintenance_blocked stored = pl_maintenance_blocked plan"
    using assms by (auto simp: check_over_def result_simps)
  then show "executable_digest c plan = executable_digest c stored" "may_become (pl_state stored) (pl_state plan)"
    by (simp_all add: valid_may_become)
  show "intended plan = intended stored" if "settled (pl_state stored)"
  proof -
    have "pl_state plan = pl_state stored" "pl_state stored \<noteq> Blocked"
      using that valid_may_become [OF f(2)] by (auto simp: settled_def)
    then show ?thesis using f(3) by (simp add: intended_def)
  qed
qed

lemma content_ok_transfer:
  assumes "executable_content p = executable_content q" and "content_ok c q"
  shows "content_ok c p"
proof -
  have f: "pl_format_version p = pl_format_version q" "pl_id p = pl_id q" "pl_content_id p = pl_content_id q"
    "pl_environment p = pl_environment q" "pl_created_at p = pl_created_at q" "pl_inputs p = pl_inputs q"
    "pl_steps p = pl_steps q" "pl_recalled_recovery_reason p = pl_recalled_recovery_reason q"
    using assms(1) by (simp_all add: executable_content_def)
  have steps: "step_ids_ok p = step_ids_ok q" by (simp only: step_ids_ok_def f)
  have digest: "executable_digest c p = executable_digest c q" by (simp only: executable_digest_def assms(1))
  show ?thesis using assms(2) unfolding content_ok_def f steps digest .
qed

lemma executable_digest_content:
  assumes "json_laws c" and "\<not> hash_collision c" and "executable_digest c p = executable_digest c q"
    and "executable_digest c q \<noteq> None"
  shows "executable_content p = executable_content q"
  using assms executable_digest_binds [of c p _ q] by (auto simp: json_laws_def)

definition plan_moves :: "('b, 'z) plan_json_scheme \<Rightarrow> Plan \<Rightarrow> Plan \<Rightarrow> bool" where
  "plan_moves c p p' \<longleftrightarrow> executable_content p' = executable_content p \<and> may_become (pl_state p) (pl_state p')
     \<and> (settled (pl_state p) \<longrightarrow> intended p' = intended p)"

lemma plan_moves_refl: "plan_moves c p p"
  by (simp add: plan_moves_def may_become_refl)

lemma plan_moves_trans:
  assumes "plan_moves c p q" and "plan_moves c q r"
  shows "plan_moves c p r"
proof -
  have "settled (pl_state q)" if "settled (pl_state p)"
    using assms(1) that by (auto simp: plan_moves_def settled_def)
  then show ?thesis using assms may_become_trans unfolding plan_moves_def by metis
qed

lemma validated_moves:
  assumes "validated_plan_object c now (memory_get g (Some (ts_tenant s)) (pl_id plan)) plan = Inr object"
    and laws: "json_laws c" "\<not> hash_collision c" and "marker_ok plan"
    and "load_plan c s g (pl_id plan) = Inr stored"
  shows "stores c object plan \<and> plan_ok c plan \<and> plan_moves c stored plan"
proof -
  from assms(5) obtain e where e: "memory_get g (Some (ts_tenant s)) (pl_id plan) = Some e" "from_object c e = Inr stored"
    by (auto simp: load_plan_def result_simps)
  then have ok: "plan_ok c stored" by (simp add: from_object_iff)
  from assms(1) e have co: "check_over c stored plan = Inr ()"
    by (auto simp: validated_plan_object_def result_simps)
  have "executable_digest c stored \<noteq> None" using ok by (simp add: plan_ok_def content_ok_def)
  then have ec: "executable_content plan = executable_content stored"
    by (rule executable_digest_content [OF laws check_over_facts(1) [OF co]])
  have "content_ok c stored" using ok by (simp add: plan_ok_def)
  then have cok: "content_ok c plan" by (rule content_ok_transfer [OF ec])
  moreover have "stores c object plan" using validated_stores [OF assms(1) laws(1)] cok by (simp add: content_ok_def)
  moreover have "plan_moves c stored plan"
    using ec check_over_facts(2,3) [OF co] by (simp add: plan_moves_def)
  ultimately show ?thesis using assms(4) by (simp add: plan_ok_def)
qed

inductive plan_run ::
  "('b, 'z) plan_json_scheme \<Rightarrow> tenant_session \<Rightarrow> string \<Rightarrow> MemoryCatalogGraph \<Rightarrow> MemoryCatalogGraph \<Rightarrow> bool"
  for c s pid where
  pr_refl: "plan_run c s pid g g"
| pr_store: "plan_run c s pid g g1 \<Longrightarrow> marker_ok plan
    \<Longrightarrow> store_with_provider_events c amb s plan events observations g1 = (Inr u, g2) \<Longrightarrow> plan_run c s pid g g2"
| pr_environment: "plan_run c s pid g g1 \<Longrightarrow> marker_ok plan \<Longrightarrow> so_id environment \<noteq> pid
    \<Longrightarrow> store_with_environment_and_provider_events c amb s plan environment events observations g1 = (Inr u, g2)
    \<Longrightarrow> plan_run c s pid g g2"
| pr_other: "plan_run c s pid g g1
    \<Longrightarrow> memory_get g2 (Some (ts_tenant s)) pid = memory_get g1 (Some (ts_tenant s)) pid
    \<Longrightarrow> plan_run c s pid g g2"

lemma store_step_moves:
  assumes laws: "json_laws c" "\<not> hash_collision c" and "marker_ok plan"
    and v: "validated_plan_object c now (memory_get g (Some (ts_tenant s)) (pl_id plan)) plan = Inr object"
    and get: "memory_get g' (Some (ts_tenant s)) pid
      = (if pid = so_id object then Some object else memory_get g (Some (ts_tenant s)) pid)"
    and l: "load_plan c s g pid = Inr p"
  shows "\<exists>p'. load_plan c s g' pid = Inr p' \<and> plan_moves c p p'"
proof (cases "pid = pl_id plan")
  case True
  from validated_moves [OF v laws assms(3) l [unfolded True]]
  have m: "stores c object plan" "plan_ok c plan" "plan_moves c p plan" by blast+
  then have "load_plan c s g' pid = Inr plan" using get True by (auto simp: load_plan_iff stores_id)
  with m(3) show ?thesis by blast
next
  case False
  have "so_id object = pl_id plan"
    using v by (auto simp: validated_plan_object_def to_object_def result_simps split: option.splits)
  then have "memory_get g' (Some (ts_tenant s)) pid = memory_get g (Some (ts_tenant s)) pid" using get False by simp
  then show ?thesis using l plan_moves_refl by (auto simp: load_plan_def)
qed



definition demo_noop :: "PlanState \<Rightarrow> Plan" where
  "demo_noop st = \<lparr>pl_format_version = 1, pl_id = plan_id ''e'' 1 ''0'', pl_content_id = ''0'',
     pl_environment = ''e'', pl_created_at = 1, pl_inputs = [], pl_steps = [], pl_state = st,
     pl_gates_skipped = None, pl_status_detail = [], pl_maintenance_blocked = False, pl_prior_warnings = [],
     pl_recalled_recovery_reason = None, pl_credential_runway = None\<rparr>"

definition demo_json :: "bool plan_json" where
  "demo_json = \<lparr>encode_content = (\<lambda>x. if x = content_tuple_of ''e'' 1 [] [] None then Some False else None),
     encode_executable = (\<lambda>x. if x = executable_content (demo_noop Computed) then Some True else None),
     sha256_hex = (\<lambda>b. if b then ''1'' else ''0''),
     encode_plan = (\<lambda>plan. if plan = demo_noop (pl_state plan) then Some (plan_state_name (pl_state plan)) else None),
     decode_plan = (\<lambda>raw. map_option demo_noop
       (find (\<lambda>st. plan_state_name st = raw) [Computed, Running, Blocked, Succeeded, Failed])),
     decode_identity = (\<lambda>raw. None), decode_environment = (\<lambda>raw. None), decode_has_steps = (\<lambda>raw. None)\<rparr>"

definition demo_session :: tenant_session where
  "demo_session = \<lparr>ts_tenant = ''t'', ts_ports = demo_ports, ts_feedback_export = False,
     ts_records_for_observations = (\<lambda>_. [])\<rparr>"

definition demo_planned :: "PlanState \<Rightarrow> MemoryCatalogGraph \<Rightarrow> MemoryCatalogGraph" where
  "demo_planned st g = snd (store_with_provider_events demo_json (demo_ambient 5) demo_session (demo_noop st) [] [] g)"

lemma demo_json_laws: "json_laws demo_json"
proof -
  have "decode_plan demo_json json = Some plan" if "encode_plan demo_json plan = Some json" for plan json
  proof -
    have p: "plan = demo_noop (pl_state plan)" and j: "json = plan_state_name (pl_state plan)"
      using that by (simp_all add: demo_json_def split: if_splits)
    have "map_option demo_noop (find (\<lambda>st. plan_state_name st = plan_state_name a)
        [Computed, Running, Blocked, Succeeded, Failed]) = Some (demo_noop a)" for a
      by (cases a) simp_all
    then show ?thesis unfolding j by (subst (2) p) (simp add: demo_json_def)
  qed
  then show ?thesis by (auto simp: json_laws_def demo_json_def inj_on_def split: if_splits)
qed

lemma demo_json_no_collision: "\<not> hash_collision demo_json"
  by (auto simp: hash_collision_def demo_json_def split: if_splits)

lemma demo_store_ok:
  "store_with_provider_events demo_json (demo_ambient 5) demo_session (demo_noop Computed) [] [] memory_new
     = (Inr (), demo_planned Computed memory_new)"
  "store_with_provider_events demo_json (demo_ambient 5) demo_session (demo_noop Succeeded) [] [] (demo_planned Computed memory_new)
     = (Inr (), demo_planned Succeeded (demo_planned Computed memory_new))"
proof -
  have "fst (store_with_provider_events demo_json (demo_ambient 5) demo_session (demo_noop Computed) [] [] memory_new) = Inr ()"
    and "fst (store_with_provider_events demo_json (demo_ambient 5) demo_session (demo_noop Succeeded) [] []
      (demo_planned Computed memory_new)) = Inr ()"
    by code_simp+
  then show "store_with_provider_events demo_json (demo_ambient 5) demo_session (demo_noop Computed) [] [] memory_new
     = (Inr (), demo_planned Computed memory_new)"
  "store_with_provider_events demo_json (demo_ambient 5) demo_session (demo_noop Succeeded) [] [] (demo_planned Computed memory_new)
     = (Inr (), demo_planned Succeeded (demo_planned Computed memory_new))"
    unfolding demo_planned_def by (simp_all only: prod_eq_iff fst_conv snd_conv simp_thms)
qed



section \<open>What is read and what was written\<close>

lemma transition_content [simp]: "executable_content (transition_apply t plan) = executable_content plan"
  by (simp add: transition_apply_def executable_content_def Let_def split: option.split)

lemma transition_ok:
  assumes "plan_ok c plan" and "tn_maintenance_blocked t \<longrightarrow> tn_state t = Blocked"
  shows "plan_ok c (transition_apply t plan)"
proof -
  have "marker_ok (transition_apply t plan)"
    using assms(2) by (simp add: marker_ok_def transition_apply_def Let_def split: option.split)
  moreover have "content_ok c (transition_apply t plan)"
    using assms(1) unfolding plan_ok_def by (blast intro: content_ok_transfer [OF transition_content])
  ultimately show ?thesis by (simp add: plan_ok_def)
qed

text \<open>C35. Whatever object is read as a plan is a well-formed plan: it has the supported format, is
  named by its content address, its steps are numbered and named in order, its digest exists and the
  maintenance marker appears in the blocked state only; and every transition the lifecycle builds keeps
  it well formed.\<close>
theorem loaded_plan_well_formed:
  assumes "load_plan c s g pid = Inr plan"
  shows "plan_ok c plan
    \<and> plan_ok c (transition_apply (transition_new st detail) plan)
    \<and> plan_ok c (transition_apply (transition_execution st skipped detail) plan)
    \<and> plan_ok c (transition_apply (transition_maintenance_blocked skipped detail) plan)"
proof -
  have "plan_ok c plan" using assms by (auto simp: load_plan_iff)
  then show ?thesis
    by (simp add: transition_ok transition_new_def transition_execution_def transition_maintenance_blocked_def)
qed

theorem loaded_plan_well_formed_witness:
  "plan_ok demo_json (transition_apply (transition_new Running ''go'') (demo_noop Computed))"
proof -
  have "load_plan demo_json demo_session (demo_planned Computed memory_new) (plan_id ''e'' 1 ''0'')
      = Inr (demo_noop Computed)" by code_simp
  from loaded_plan_well_formed [OF this, of Running "''go''" False] show ?thesis by blast
qed

lemma reads_back:
  assumes "stores c object plan" and "plan_ok c plan"
    and "memory_get g' (Some (ts_tenant s)) (pl_id plan) = Some object"
  shows "load_plan c s g' (pl_id plan) = Inr plan"
  using assms by (auto simp: load_plan_iff)

lemma store_reads_back:
  assumes "json_laws c" and "plan_ok c plan"
    and "store_with_provider_events c amb s plan events observations g = (Inr u, g')"
  shows "load_plan c s g' (pl_id plan) = Inr plan"
proof -
  from assms(3) obtain object where
    o': "validated_plan_object c (am_now amb) (memory_get g (Some (ts_tenant s)) (pl_id plan)) plan = Inr object"
      "ctx_put_with_provider_events amb s object events observations g = (Inr u, g')"
    by (auto simp: store_with_provider_events_def split: sum.splits)
  have st: "stores c object plan"
    using validated_stores [OF o'(1) assms(1)] assms(2) by (simp add: plan_ok_def content_ok_def)
  show ?thesis using reads_back [OF st assms(2)] ctx_put_get [OF o'(2), of "pl_id plan"] stores_id [OF st] by simp
qed

lemma store_environment_reads_back:
  assumes "json_laws c" and "plan_ok c plan" and "so_id environment \<noteq> pl_id plan"
    and "store_with_environment_and_provider_events c amb s plan environment events observations g = (Inr u, g')"
  shows "load_plan c s g' (pl_id plan) = Inr plan"
proof -
  from assms(4) obtain object where
    o': "validated_plan_object c (am_now amb) (memory_get g (Some (ts_tenant s)) (pl_id plan)) plan = Inr object"
      "ctx_put_objects_with_provider_events amb s [object, environment] events observations g = (Inr u, g')"
    by (auto simp: store_with_environment_and_provider_events_def split: sum.splits)
  have st: "stores c object plan"
    using validated_stores [OF o'(1) assms(1)] assms(2) by (simp add: plan_ok_def content_ok_def)
  show ?thesis
    using reads_back [OF st assms(2)] ctx_put_objects_get [OF o'(2), of "pl_id plan"] stores_id [OF st]
    by (simp add: object_named_def)
qed

lemma guarded_put_get:
  assumes "memory_guarded_put amb tenant object ns key token create g = (Inr r, g')"
  shows "memory_get g' tenant (so_id object) = Some object"
  using assms by (auto simp: memory_guarded_put_def memory_get_def Let_def split: sum.splits if_splits)

lemma guarded_reads_back:
  assumes "json_laws c" and "plan_ok c plan"
    and "guarded_write c amb s plan ns key token confirm g = (Inr u, g')"
  shows "\<exists>p'. load_plan c s g' (pl_id plan) = Inr p' \<and> intended p' = intended plan \<and> (confirm \<or> p' = plan)"
proof -
  from assms(3) obtain object where o': "to_object c (am_now amb) plan = Inr object"
    by (auto simp: guarded_write_def split: sum.splits)
  have st: "stores c object plan"
    using to_object_stores [OF o' assms(1)] assms(2) by (simp add: plan_ok_def content_ok_def)
  obtain r h where put: "memory_guarded_put amb (Some (ts_tenant s)) object ns key token False g = (r, h)" by fastforce
  show ?thesis
  proof (cases r)
    case (Inl e)
    then have "confirm" and "\<exists>stored. load_plan c s h (pl_id plan) = Inr stored \<and> intended stored = intended plan"
      and "g' = h"
      using assms(3) by (auto simp: guarded_write_def o' put split: if_splits sum.splits)
    then show ?thesis by blast
  next
    case (Inr v)
    then have g': "g' = h" using assms(3) by (simp add: guarded_write_def o' put)
    have "memory_get h (Some (ts_tenant s)) (so_id object) = Some object"
      by (rule guarded_put_get [OF put [unfolded Inr]])
    then have "load_plan c s h (pl_id plan) = Inr plan" using reads_back [OF st assms(2)] stores_id [OF st] by simp
    then show ?thesis unfolding g' by blast
  qed
qed



end
