(* ===== verification/Execution_Admission.thy ===== *)
theory Execution_Admission
  imports Plan_Theorems
begin

text \<open>
  \<open>src/apply/execution_admission.rs\<close> with \<open>list_subscriptions\<close> of \<open>src/environment.rs\<close>: whether a stored plan
  still describes the environment it was computed for.  A rejection is a value of its own, apart from
  the errors of reads.
\<close>

abbreviation rel_subscribes :: string where "rel_subscribes \<equiv> ''subscribes''"
abbreviation rel_has_instance :: string where "rel_has_instance \<equiv> ''has_instance''"

datatype CandidateAdmission = Admissible | Superseded

datatype Rejection =
    EnvironmentMissing
  | DeploymentUnknown string
  | DeploymentChanged string "string option" "string option"
  | ChannelMissing string
  | ChannelMoved string string
  | PreviewClosed preview_error
  | Resubscribed string
  | Unsubscribed string

record Subscription =
  sb_instance :: string
  sb_product :: string
  sb_channel :: StoredObject

definition product_of_channel :: "StoredObject \<Rightarrow> string" where
  "product_of_channel channel =
     (let from_id = (case Option.bind (strip_prefix ''tenkai:channel:'' (so_id channel)) (split_once CHR ''/'') of
          Some (product, _) \<Rightarrow> product | None \<Rightarrow> [])
      in case bt_get (so_properties channel) ''product'' of
        Some name \<Rightarrow> (if name \<noteq> [] then name else from_id)
      | None \<Rightarrow> from_id)"

definition linked_out :: "tenant_session \<Rightarrow> MemoryCatalogGraph \<Rightarrow> string \<Rightarrow> string \<Rightarrow> lifecycle_error + StoredObject list" where
  "linked_out s g oid relation = map_err Catalog (memory_linked g (Some (ts_tenant s)) oid relation ''out'')"

definition instance_name_of :: "StoredObject \<Rightarrow> string" where
  "instance_name_of object = (case bt_get (so_properties object) ''name'' of Some name \<Rightarrow> name | None \<Rightarrow> so_name object)"

definition instance_subscription :: "StoredObject \<Rightarrow> StoredObject \<Rightarrow> Subscription" where
  "instance_subscription object channel =
     (let product = (case bt_get (so_properties object) ''product'' of Some product \<Rightarrow> product | None \<Rightarrow> []) in
      \<lparr>sb_instance = instance_name_of object,
       sb_product = (if product = [] then product_of_channel channel else product), sb_channel = channel\<rparr>)"

fun instance_subscriptions ::
  "tenant_session \<Rightarrow> MemoryCatalogGraph \<Rightarrow> string \<Rightarrow> string list \<Rightarrow> StoredObject list
     \<Rightarrow> lifecycle_error + string list \<times> Subscription list" where
  "instance_subscriptions s g env_name seen [] = Inr (seen, [])"
| "instance_subscriptions s g env_name seen (object # objects) =
     bind_r (linked_out s g (so_id object) rel_subscribes) (\<lambda>channels. case channels of
       [] \<Rightarrow> instance_subscriptions s g env_name seen objects
     | channel # _ \<Rightarrow>
         (let name = instance_name_of object in
          bind_r (ensure (name \<notin> set seen) (Duplicate_Instance env_name name)) (\<lambda>_.
          bind_r (instance_subscriptions s g env_name (name # seen) objects) (\<lambda>(seen, subscriptions).
          Inr (seen, instance_subscription object channel # subscriptions)))))"

fun channel_subscriptions :: "string list \<Rightarrow> StoredObject list \<Rightarrow> Subscription list" where
  "channel_subscriptions seen [] = []"
| "channel_subscriptions seen (channel # channels) =
     (let product = product_of_channel channel in
      if product = [] \<or> product \<in> set seen then channel_subscriptions seen channels
      else \<lparr>sb_instance = product, sb_product = product, sb_channel = channel\<rparr>
        # channel_subscriptions (product # seen) channels)"

definition list_subscriptions ::
  "tenant_session \<Rightarrow> MemoryCatalogGraph \<Rightarrow> StoredObject \<Rightarrow> lifecycle_error + Subscription list" where
  "list_subscriptions s g env_obj =
     bind_r (linked_out s g (so_id env_obj) rel_has_instance) (\<lambda>instances.
     bind_r (instance_subscriptions s g (so_name env_obj) [] instances) (\<lambda>(seen, subscriptions).
     bind_r (linked_out s g (so_id env_obj) rel_subscribes) (\<lambda>channels.
     Inr (sort_key sb_instance (subscriptions @ channel_subscriptions seen channels)))))"

definition subscribes_input :: "Subscription list \<Rightarrow> DesiredStateInput \<Rightarrow> bool" where
  "subscribes_input subscriptions input \<longleftrightarrow>
     list_ex (\<lambda>sub. so_id (sb_channel sub) = in_channel_id input \<and> sb_instance sub = input_instance_name input) subscriptions"

definition resubscribed :: "Subscription list \<Rightarrow> Step \<Rightarrow> bool" where
  "resubscribed subscriptions step \<longleftrightarrow>
     st_action step = Remove \<and> step_instance_name step \<in> set (map sb_instance subscriptions)"

definition step_current :: "StoredObject \<Rightarrow> Step \<Rightarrow> Rejection + unit" where
  "step_current environment step =
     (let name = step_instance_name step;
          actual = bt_get (so_properties environment) (''deployed.'' @ name)
      in if st_host step \<noteq> None then Inr ()
         else if st_action step \<noteq> Rollback
             \<and> bt_get (so_properties environment) (''deployment_health.'' @ name) = Some ''unknown''
         then Inl (DeploymentUnknown (st_product step))
         else ensure (actual = st_from step) (DeploymentChanged (st_product step) (st_from step) actual))"

definition input_current ::
  "('v, 'y) semver_scheme \<Rightarrow> (string \<Rightarrow> Manifest option) \<Rightarrow> tenant_session \<Rightarrow> MemoryCatalogGraph \<Rightarrow> StoredObject
     \<Rightarrow> string \<Rightarrow> DesiredStateInput \<Rightarrow> lifecycle_error + (Rejection + unit)" where
  "input_current sv parse_manifest s g environment environment_name input =
     (case memory_get g (Some (ts_tenant s)) (in_channel_id input) of
        None \<Rightarrow> Inr (Inl (ChannelMissing (in_channel_id input)))
      | Some channel \<Rightarrow>
          (let text = (\<lambda>key. case bt_get (so_properties channel) key of Some v \<Rightarrow> v | None \<Rightarrow> []);
               channel_version = text ''current_version''; channel_release = text ''current_release'';
               moved = Inl (ChannelMoved (in_product input) (in_channel input))
           in if channel_version = [] \<or> channel_release = [] then Inr moved
              else bind_r (map_err Selection_Failed (resolve_subscription_selection sv parse_manifest (ts_tenant s) g
                  environment environment_name (in_product input) channel_version channel_release)) (\<lambda>selected.
                Inr (if selected \<noteq> (in_desired_version input, in_release_id input) then moved else Inr ()))))"

fun inputs_current ::
  "('v, 'y) semver_scheme \<Rightarrow> (string \<Rightarrow> Manifest option) \<Rightarrow> tenant_session \<Rightarrow> MemoryCatalogGraph \<Rightarrow> StoredObject
     \<Rightarrow> string \<Rightarrow> DesiredStateInput list \<Rightarrow> lifecycle_error + (Rejection + unit)" where
  "inputs_current sv parse_manifest s g environment environment_name [] = Inr (Inr ())"
| "inputs_current sv parse_manifest s g environment environment_name (input # inputs) =
     bind_r (input_current sv parse_manifest s g environment environment_name input) (\<lambda>r. case r of
       Inl rejection \<Rightarrow> Inr (Inl rejection)
     | Inr _ \<Rightarrow> inputs_current sv parse_manifest s g environment environment_name inputs)"

definition inspect ::
  "pin_codec \<Rightarrow> ('v, 'y) semver_scheme \<Rightarrow> (string \<Rightarrow> Manifest option) \<Rightarrow> tenant_session \<Rightarrow> MemoryCatalogGraph \<Rightarrow> int
     \<Rightarrow> Plan \<Rightarrow> lifecycle_error + (Rejection + unit)" where
  "inspect pins sv parse_manifest s g now plan =
     (case memory_get g (Some (ts_tenant s)) (env_id (pl_environment plan)) of
        None \<Rightarrow> Inr (Inl EnvironmentMissing)
      | Some environment \<Rightarrow>
          (case admit_plan pins environment now of
             Inl e \<Rightarrow> Inr (Inl (PreviewClosed e))
           | Inr _ \<Rightarrow>
               bind_r (list_subscriptions s g environment) (\<lambda>subscriptions.
               case find (\<lambda>input. \<not> subscribes_input subscriptions input) (pl_inputs plan) of
                 Some input \<Rightarrow> Inr (Inl (Unsubscribed (in_product input)))
               | None \<Rightarrow>
                   (case find (resubscribed subscriptions) (pl_steps plan) of
                      Some step \<Rightarrow> Inr (Inl (Resubscribed (st_product step)))
                    | None \<Rightarrow>
                        (case try_all (step_current environment) (pl_steps plan) of
                           Inl rejection \<Rightarrow> Inr (Inl rejection)
                         | Inr _ \<Rightarrow>
                             inputs_current sv parse_manifest s g environment (pl_environment plan) (pl_inputs plan))))))"

definition classify_candidate ::
  "pin_codec \<Rightarrow> ('v, 'y) semver_scheme \<Rightarrow> (string \<Rightarrow> Manifest option) \<Rightarrow> tenant_session \<Rightarrow> MemoryCatalogGraph \<Rightarrow> int
     \<Rightarrow> Plan \<Rightarrow> lifecycle_error + CandidateAdmission" where
  "classify_candidate pins sv parse_manifest s g now plan =
     bind_r (inspect pins sv parse_manifest s g now plan) (\<lambda>r.
     Inr (case r of Inr _ \<Rightarrow> Admissible | Inl _ \<Rightarrow> Superseded))"

datatype admission_error = Not_Inspected lifecycle_error | Plan_Rejected string Rejection

definition admit ::
  "pin_codec \<Rightarrow> ('v, 'y) semver_scheme \<Rightarrow> (string \<Rightarrow> Manifest option) \<Rightarrow> tenant_session \<Rightarrow> MemoryCatalogGraph \<Rightarrow> int
     \<Rightarrow> Plan \<Rightarrow> admission_error + unit" where
  "admit pins sv parse_manifest s g now plan =
     (case inspect pins sv parse_manifest s g now plan of
        Inl e \<Rightarrow> Inl (Not_Inspected e)
      | Inr r \<Rightarrow> map_err (Plan_Rejected (pl_id plan)) r)"

section \<open>What an admissible plan is\<close>

definition input_selected ::
  "('v, 'y) semver_scheme \<Rightarrow> (string \<Rightarrow> Manifest option) \<Rightarrow> tenant_session \<Rightarrow> MemoryCatalogGraph \<Rightarrow> StoredObject
     \<Rightarrow> string \<Rightarrow> DesiredStateInput \<Rightarrow> bool" where
  "input_selected sv parse_manifest s g environment environment_name input \<longleftrightarrow>
     (\<exists>channel version release. memory_get g (Some (ts_tenant s)) (in_channel_id input) = Some channel
        \<and> bt_get (so_properties channel) ''current_version'' = Some version \<and> version \<noteq> []
        \<and> bt_get (so_properties channel) ''current_release'' = Some release \<and> release \<noteq> []
        \<and> resolve_subscription_selection sv parse_manifest (ts_tenant s) g environment environment_name (in_product input)
            version release = Inr (in_desired_version input, in_release_id input))"

text \<open>The plan still describes the environment: it may be delivered to, every input is subscribed to and
  still selected, nothing that is removed is subscribed to again, and every step that the server tracks
  starts from what is deployed.\<close>
definition plan_current ::
  "pin_codec \<Rightarrow> ('v, 'y) semver_scheme \<Rightarrow> (string \<Rightarrow> Manifest option) \<Rightarrow> tenant_session \<Rightarrow> MemoryCatalogGraph \<Rightarrow> int
     \<Rightarrow> Plan \<Rightarrow> bool" where
  "plan_current pins sv parse_manifest s g now plan \<longleftrightarrow>
     (\<exists>environment subscriptions. memory_get g (Some (ts_tenant s)) (env_id (pl_environment plan)) = Some environment
        \<and> (is_preview environment \<longrightarrow> (\<exists>preview. stored_inspect pins environment = Inr preview
             \<and> pi_status preview = status_active \<and> now < pi_expires_at preview))
        \<and> list_subscriptions s g environment = Inr subscriptions
        \<and> (\<forall>input \<in> set (pl_inputs plan). subscribes_input subscriptions input
             \<and> input_selected sv parse_manifest s g environment (pl_environment plan) input)
        \<and> (\<forall>step \<in> set (pl_steps plan). \<not> resubscribed subscriptions step
             \<and> (st_host step = None \<longrightarrow>
                  bt_get (so_properties environment) (''deployed.'' @ step_instance_name step) = st_from step
                  \<and> (st_action step \<noteq> Rollback \<longrightarrow>
                       bt_get (so_properties environment) (''deployment_health.'' @ step_instance_name step) \<noteq> Some ''unknown''))))"

lemma admit_plan_iff:
  "admit_plan pins environment now = Inr u
     \<longleftrightarrow> (is_preview environment \<longrightarrow> (\<exists>preview. stored_inspect pins environment = Inr preview
           \<and> pi_status preview = status_active \<and> now < pi_expires_at preview))"
proof (cases "is_preview environment")
  case True
  then show ?thesis
    by (cases "stored_inspect pins environment")
      (auto simp: admit_plan_def inspect_from_object_def result_simps)
qed (simp add: admit_plan_def inspect_from_object_def)

lemma step_current_iff:
  "step_current environment step = Inr u \<longleftrightarrow> (st_host step = None \<longrightarrow>
     bt_get (so_properties environment) (''deployed.'' @ step_instance_name step) = st_from step
     \<and> (st_action step \<noteq> Rollback \<longrightarrow>
          bt_get (so_properties environment) (''deployment_health.'' @ step_instance_name step) \<noteq> Some ''unknown''))"
  by (auto simp: step_current_def Let_def result_simps)

lemma try_all_iff: "try_all f xs = Inr u \<longleftrightarrow> (\<forall>x \<in> set xs. f x = Inr ())"
  by (induction xs) (auto simp: result_simps)

lemma input_current_iff:
  "input_current sv parse_manifest s g environment name input = Inr (Inr u)
     \<longleftrightarrow> input_selected sv parse_manifest s g environment name input"
proof (cases "memory_get g (Some (ts_tenant s)) (in_channel_id input)")
  case (Some channel)
  then show ?thesis
    by (cases "bt_get (so_properties channel) ''current_version''"; cases "bt_get (so_properties channel) ''current_release''")
      (auto simp: input_current_def input_selected_def Let_def result_simps)
qed (simp add: input_current_def input_selected_def)

lemma inputs_current_iff:
  "inputs_current sv parse_manifest s g environment name inputs = Inr (Inr u)
     \<longleftrightarrow> (\<forall>input \<in> set inputs. input_selected sv parse_manifest s g environment name input)"
proof (induction inputs)
  case (Cons input inputs)
  show ?case
  proof (cases "input_current sv parse_manifest s g environment name input")
    case (Inr r)
    then show ?thesis
      using Cons input_current_iff [of sv parse_manifest s g environment name input "()"] by (cases r) auto
  next
    case (Inl e)
    then show ?thesis using input_current_iff [of sv parse_manifest s g environment name input "()"] by auto
  qed
qed simp

lemma inspect_iff:
  "inspect pins sv parse_manifest s g now plan = Inr (Inr ()) \<longleftrightarrow> plan_current pins sv parse_manifest s g now plan"
proof (cases "memory_get g (Some (ts_tenant s)) (env_id (pl_environment plan))")
  case env: (Some environment)
  show ?thesis
  proof (cases "admit_plan pins environment now")
    case (Inl e)
    then show ?thesis
      using env admit_plan_iff [of pins environment now "()"] by (auto simp: inspect_def plan_current_def)
  next
    case (Inr u)
    note opened = Inr [unfolded admit_plan_iff]
    show ?thesis
    proof (cases "list_subscriptions s g environment")
      case (Inl e)
      then show ?thesis using env Inr by (simp add: inspect_def plan_current_def)
    next
      case subs: (Inr subscriptions)
      have "inspect pins sv parse_manifest s g now plan = Inr (Inr ()) \<longleftrightarrow>
          (\<forall>input \<in> set (pl_inputs plan). subscribes_input subscriptions input)
          \<and> (\<forall>step \<in> set (pl_steps plan). \<not> resubscribed subscriptions step)
          \<and> (\<forall>step \<in> set (pl_steps plan). step_current environment step = Inr ())
          \<and> (\<forall>input \<in> set (pl_inputs plan). input_selected sv parse_manifest s g environment (pl_environment plan) input)"
        (is "_ \<longleftrightarrow> ?current")
      proof (cases "find (\<lambda>input. \<not> subscribes_input subscriptions input) (pl_inputs plan)")
        case (Some input)
        then have "\<not> ?current" unfolding find_Some_iff by (metis nth_mem)
        then show ?thesis using Some env Inr subs by (simp add: inspect_def)
      next
        case None
        note inputs = this
        show ?thesis
        proof (cases "find (resubscribed subscriptions) (pl_steps plan)")
          case (Some step)
          then have "\<not> ?current" unfolding find_Some_iff by (metis nth_mem)
          then show ?thesis using Some None env Inr subs by (simp add: inspect_def)
        next
          case steps: None
          show ?thesis
          proof (cases "try_all (step_current environment) (pl_steps plan)")
            case (Inl e)
            then have "\<not> ?current" using try_all_iff [of "step_current environment" "pl_steps plan" "()"] by auto
            then show ?thesis using Inl steps inputs env \<open>admit_plan pins environment now = Inr u\<close> subs
              by (simp add: inspect_def)
          next
            case (Inr v)
            have "\<forall>input \<in> set (pl_inputs plan). subscribes_input subscriptions input"
                "\<forall>step \<in> set (pl_steps plan). \<not> resubscribed subscriptions step"
                "\<forall>step \<in> set (pl_steps plan). step_current environment step = Inr ()"
              using inputs steps Inr by (simp_all add: find_None_iff try_all_iff)
            moreover have "inspect pins sv parse_manifest s g now plan
                = inputs_current sv parse_manifest s g environment (pl_environment plan) (pl_inputs plan)"
              using steps inputs env \<open>admit_plan pins environment now = Inr u\<close> subs Inr by (simp add: inspect_def)
            ultimately show ?thesis by (simp add: inputs_current_iff)
          qed
        qed
      qed
      then show ?thesis using env opened subs unfolding plan_current_def step_current_iff by auto
    qed
  qed
qed (simp add: inspect_def plan_current_def)

lemma classify_iff:
  "classify_candidate pins sv parse_manifest s g now plan = Inr Admissible \<longleftrightarrow> plan_current pins sv parse_manifest s g now plan"
  unfolding inspect_iff [symmetric] classify_candidate_def
proof (cases "inspect pins sv parse_manifest s g now plan")
  case (Inr r)
  then show "bind_r (inspect pins sv parse_manifest s g now plan) (\<lambda>r. Inr (case r of Inr _ \<Rightarrow> Admissible | Inl _ \<Rightarrow> Superseded))
      = Inr Admissible \<longleftrightarrow> inspect pins sv parse_manifest s g now plan = Inr (Inr ())"
    by (cases r) simp_all
qed simp

end
