(* ===== verification/Plan_Selection.thy ===== *)
theory Plan_Selection
  imports Execution_Admission Reconciler
begin

text \<open>
  Which plan of an environment is worked on: \<open>held_candidate\<close>, the walk over executable plans in pages
  and \<open>select_plan\<close> of \<open>src/reconciler/environment_lifecycle.rs\<close>, the runtime-managed branch of it, and
  \<open>pending_work\<close> of \<open>src/reconciler.rs\<close>.  Computing a new plan (\<open>create\<close>) and the status of the environment's
  lease are arguments.
\<close>

definition executable_admission_batch :: nat where "executable_admission_batch = 8"

definition held_step :: "(string \<Rightarrow> string option) \<Rightarrow> int \<Rightarrow> Step \<Rightarrow> bool" where
  "held_step properties created_at step \<longleftrightarrow>
     properties (''failed_target.'' @ st_product step) = Some (st_release_id step)
     \<and> (case Option.bind (properties (''failed_target_at.'' @ st_product step)) parse_i64 of
          None \<Rightarrow> True | Some at \<Rightarrow> created_at \<le> at)"

definition held_candidate :: "tenant_session \<Rightarrow> MemoryCatalogGraph \<Rightarrow> Plan \<Rightarrow> bool" where
  "held_candidate s g plan = (case memory_get g (Some (ts_tenant s)) (env_id (pl_environment plan)) of
     None \<Rightarrow> False
   | Some environment \<Rightarrow>
       list_ex (held_step (bt_get (so_properties environment)) (pl_created_at plan)) (pl_steps plan))"

fun first_admissible_in ::
  "(Plan \<Rightarrow> bool) \<Rightarrow> (Plan \<Rightarrow> lifecycle_error + CandidateAdmission) \<Rightarrow> bool \<Rightarrow> Plan list \<Rightarrow> lifecycle_error + Plan option" where
  "first_admissible_in held classify maintenance_blocked_only [] = Inr None"
| "first_admissible_in held classify maintenance_blocked_only (candidate # candidates) =
     (if held candidate then first_admissible_in held classify maintenance_blocked_only candidates
      else if pl_steps candidate = [] then Inl (Empty_Plan_Selected (pl_id candidate))
      else if maintenance_blocked_only \<and> \<not> pl_maintenance_blocked candidate
      then first_admissible_in held classify maintenance_blocked_only candidates
      else bind_r (classify candidate) (\<lambda>admission.
        if admission = Admissible then Inr (Some candidate)
        else first_admissible_in held classify maintenance_blocked_only candidates))"

text \<open>The walk in pages: the offset is a \<open>u32\<close> that is advanced with a check.\<close>
function first_admissible_paged ::
  "(nat \<Rightarrow> lifecycle_error + Plan list) \<Rightarrow> (Plan list \<Rightarrow> lifecycle_error + Plan option) \<Rightarrow> nat
     \<Rightarrow> lifecycle_error + Plan option" where
  "first_admissible_paged page first_in offset =
     (case page offset of
        Inl e \<Rightarrow> Inl e
      | Inr batch \<Rightarrow>
          (if batch = [] then Inr None
           else case first_in batch of
             Inl e \<Rightarrow> Inl e
           | Inr (Some plan) \<Rightarrow> Inr (Some plan)
           | Inr None \<Rightarrow>
               (if length batch < executable_admission_batch then Inr None
                else if offset + executable_admission_batch < 2 ^ 32
                then first_admissible_paged page first_in (offset + executable_admission_batch)
                else Inl Offset_Overflow)))"
  by pat_completeness auto
termination
  by (relation "measure (\<lambda>(page, first_in, offset). 2 ^ 32 - offset)") (auto simp: executable_admission_batch_def)

definition first_admissible_executable ::
  "('b, 'z) plan_json_scheme \<Rightarrow> tenant_session \<Rightarrow> MemoryCatalogGraph \<Rightarrow> (Plan \<Rightarrow> lifecycle_error + CandidateAdmission) \<Rightarrow> bool
     \<Rightarrow> string \<Rightarrow> PlanState list \<Rightarrow> bool \<Rightarrow> lifecycle_error + Plan option" where
  "first_admissible_executable c s g classify embedded environment statuses maintenance_blocked_only =
     (if \<not> embedded
      then bind_r (load_for_environment c s g environment (Some statuses) False None None (Some True))
             (first_admissible_in (held_candidate s g) classify maintenance_blocked_only)
      else first_admissible_paged
             (\<lambda>offset. load_for_environment c s g environment (Some statuses) False
                (Some (of_nat executable_admission_batch)) (Some (of_nat offset)) (Some True))
             (first_admissible_in (held_candidate s g) classify maintenance_blocked_only) 0)"

text \<open>Planning anew, \<open>create\<close>, writes the plan it returns; \<open>clock\<close> is the time at which a candidate is
  inspected.\<close>
definition select_plan ::
  "('b, 'z) plan_json_scheme \<Rightarrow> pin_codec \<Rightarrow> ('v, 'y) semver_scheme \<Rightarrow> (string \<Rightarrow> Manifest option) \<Rightarrow> tenant_session
     \<Rightarrow> (Plan \<Rightarrow> int) \<Rightarrow> (MemoryCatalogGraph \<Rightarrow> (lifecycle_error + Plan) \<times> MemoryCatalogGraph) \<Rightarrow> bool \<Rightarrow> string \<Rightarrow> bool
     \<Rightarrow> MemoryCatalogGraph \<Rightarrow> (lifecycle_error + Plan) \<times> MemoryCatalogGraph" where
  "select_plan c pins sv parse_manifest s clock create embedded environment approval_required g =
     (let classify = (\<lambda>plan. classify_candidate pins sv parse_manifest s g (clock plan) plan) in
      if \<not> approval_required then create g
      else case first_admissible_executable c s g classify embedded environment [Computed] False of
        Inl e \<Rightarrow> (Inl e, g)
      | Inr (Some plan) \<Rightarrow> (Inr plan, g)
      | Inr None \<Rightarrow>
          (case first_admissible_executable c s g classify embedded environment [Blocked] True of
             Inl e \<Rightarrow> (Inl e, g)
           | Inr (Some plan) \<Rightarrow> (Inr plan, g)
           | Inr None \<Rightarrow> create g))"

definition awaiting_runtime :: "Plan \<Rightarrow> EnvironmentStatus" where
  "awaiting_runtime plan = Env_AwaitingRuntime (pl_id plan) (length (pl_steps plan))"

definition held_status ::
  "tenant_session \<Rightarrow> MemoryCatalogGraph \<Rightarrow> Plan \<Rightarrow> lifecycle_error + EnvironmentStatus option" where
  "held_status s g plan = bind_r (map_err Hold_Failed (active_for_plan (ts_tenant s) g plan)) (\<lambda>active. Inr
     (map_option (\<lambda>(hold, scope). Env_Held (pl_id plan) (length (pl_steps plan)) (dh_reason hold) (scope_key scope)) active))"

definition workable :: "tenant_session \<Rightarrow> MemoryCatalogGraph \<Rightarrow> Plan \<Rightarrow> bool" where
  "workable s g plan \<longleftrightarrow> pl_state plan = Running \<or> \<not> held_candidate s g plan"

definition runtime_plan ::
  "('b, 'z) plan_json_scheme \<Rightarrow> tenant_session \<Rightarrow> MemoryCatalogGraph \<Rightarrow> string
     \<Rightarrow> lifecycle_error + EnvironmentStatus option" where
  "runtime_plan c s g environment =
     bind_r (load_oldest_for_environment c s g environment [Computed, Running]) (\<lambda>oldest.
     case (case oldest of Some plan \<Rightarrow> if workable s g plan then Some plan else None | None \<Rightarrow> None) of
       Some plan \<Rightarrow>
         bind_r (if pl_state plan = Computed then held_status s g plan else Inr None) (\<lambda>held.
         Inr (Some (case held of Some status \<Rightarrow> status | None \<Rightarrow> awaiting_runtime plan)))
     | None \<Rightarrow>
         bind_r (load_for_environment c s g environment (Some [Computed, Running]) False None None (Some True))
           (\<lambda>plans. Inr (map_option awaiting_runtime (find (workable s g) plans))))"

definition reconcile_runtime_managed ::
  "('b, 'z) plan_json_scheme \<Rightarrow> pin_codec \<Rightarrow> ambient \<Rightarrow> tenant_session \<Rightarrow> StoredObject list option
     \<Rightarrow> (MemoryCatalogGraph \<Rightarrow> (lifecycle_error + Plan) \<times> MemoryCatalogGraph) \<Rightarrow> string \<Rightarrow> int \<Rightarrow> MemoryCatalogGraph
     \<Rightarrow> (lifecycle_error + EnvironmentStatus) \<times> MemoryCatalogGraph" where
  "reconcile_runtime_managed c pins amb s snapshot create environment now g =
     (case require_environment_indexes_match_payloads c s g snapshot environment of
        Inl e \<Rightarrow> (Inl e, g)
      | Inr _ \<Rightarrow>
          (case retire_empty_executable_plans c amb s environment g of
             (Inl e, g) \<Rightarrow> (Inl e, g)
           | (Inr _, g) \<Rightarrow>
               (case runtime_plan c s g environment of
                  Inl e \<Rightarrow> (Inl e, g)
                | Inr (Some status) \<Rightarrow> (Inr status, g)
                | Inr None \<Rightarrow>
                    (case is_terminal_residue pins amb (ts_tenant s) environment now g of
                       (Inl e, g) \<Rightarrow> (Inl (Preview_Failed e), g)
                     | (Inr True, g) \<Rightarrow> (Inr Env_Current, g)
                     | (Inr False, g) \<Rightarrow>
                         (case create g of
                            (Inl e, g) \<Rightarrow> (Inl e, g)
                          | (Inr stored, g) \<Rightarrow>
                              (if pl_steps stored = [] then (Inr Env_Current, g)
                               else (bind_r (held_status s g stored) (\<lambda>held. Inr (case held of
                                       Some status \<Rightarrow> status | None \<Rightarrow> awaiting_runtime stored)), g)))))))"

definition pending_work ::
  "('b, 'z) plan_json_scheme \<Rightarrow> tenant_session \<Rightarrow> MemoryCatalogGraph \<Rightarrow> StoredObject list option \<Rightarrow> string
     \<Rightarrow> lifecycle_error + Plan option" where
  "pending_work c s g snapshot environment =
     bind_r (oldest_for_environment c s g snapshot environment [Computed, Running]) (\<lambda>oldest.
     case oldest of
       None \<Rightarrow> Inr None
     | Some plan \<Rightarrow>
         (if workable s g plan then Inr (Some plan)
          else bind_r (load_for_environment c s g environment (Some [Computed, Running]) False None None (Some True))
            (\<lambda>plans. Inr (find (workable s g) plans))))"

text \<open>A plan left running by a controller that is gone is failed; an observation of it is an argument.\<close>
fun fail_abandoned ::
  "('b, 'z) plan_json_scheme \<Rightarrow> ambient \<Rightarrow> tenant_session \<Rightarrow> (Plan \<Rightarrow> FeedbackObservation) \<Rightarrow> Plan list
     \<Rightarrow> MemoryCatalogGraph \<Rightarrow> (lifecycle_error + unit) \<times> MemoryCatalogGraph" where
  "fail_abandoned c amb s observe [] g = (Inr (), g)"
| "fail_abandoned c amb s observe (abandoned # plans) g =
     (case transition c amb s abandoned
         (transition_new Failed ''controller stopped after execution began; lease expired before recovery'')
         (WithProviderEvents [] [observe abandoned]) g of
        (Inl e, g) \<Rightarrow> (Inl e, g)
      | (Inr _, g) \<Rightarrow> fail_abandoned c amb s observe plans g)"

definition recover_or_detect_active_plan ::
  "('b, 'z) plan_json_scheme \<Rightarrow> ambient \<Rightarrow> tenant_session \<Rightarrow> (Plan \<Rightarrow> FeedbackObservation) \<Rightarrow> lifecycle_error + bool
     \<Rightarrow> string \<Rightarrow> MemoryCatalogGraph \<Rightarrow> (lifecycle_error + bool) \<times> MemoryCatalogGraph" where
  "recover_or_detect_active_plan c amb s observe leased environment g =
     (case load_for_environment c s g environment (Some [Running]) False None None None of
        Inl e \<Rightarrow> (Inl e, g)
      | Inr running \<Rightarrow>
          (if running = [] then (Inr False, g)
           else case leased of
             Inl e \<Rightarrow> (Inl e, g)
           | Inr True \<Rightarrow> (Inr True, g)
           | Inr False \<Rightarrow>
               (case fail_abandoned c amb s observe running g of
                  (Inl e, g) \<Rightarrow> (Inl e, g) | (Inr _, g) \<Rightarrow> (Inr False, g))))"

section \<open>Pages and the whole list\<close>

lemma first_admissible_append:
  "first_admissible_in held classify only (xs @ ys)
     = bind_r (first_admissible_in held classify only xs)
         (\<lambda>found. case found of Some plan \<Rightarrow> Inr (Some plan) | None \<Rightarrow> first_admissible_in held classify only ys)"
proof (induction xs)
  case (Cons x xs)
  then show ?case
    by (cases "classify x") (simp_all only: append_Cons first_admissible_in.simps bind_r.simps split: if_split, auto)
qed simp

lemma paged_is_walk:
  assumes page: "\<And>offset. offset < 2 ^ 32 \<Longrightarrow> page offset = Inr (take executable_admission_batch (drop offset plans))"
    and "length plans + executable_admission_batch \<le> 2 ^ 32" and "offset \<le> length plans"
  shows "first_admissible_paged page (first_admissible_in held classify only) offset
    = first_admissible_in held classify only (drop offset plans)"
  using assms(3)
proof (induction "length plans - offset" arbitrary: offset rule: less_induct)
  case less
  let ?B = executable_admission_batch and ?f = "first_admissible_in held classify only"
  define batch where "batch = take ?B (drop offset plans)"
  have B: "?B = 8" by (simp add: executable_admission_batch_def)
  have p: "page offset = Inr batch" using page less.prems assms(2) B by (simp add: batch_def)
  have whole: "batch @ drop (offset + ?B) plans = drop offset plans"
    unfolding batch_def by (metis append_take_drop_id drop_drop add.commute)
  have split: "?f (drop offset plans) = bind_r (?f batch)
      (\<lambda>found. case found of Some plan \<Rightarrow> Inr (Some plan) | None \<Rightarrow> ?f (drop (offset + ?B) plans))"
    using first_admissible_append [of held classify only batch "drop (offset + ?B) plans"] whole by simp
  show ?case
  proof (cases "length batch < ?B")
    case True
    then have "drop (offset + ?B) plans = []" by (simp add: batch_def)
    then show ?thesis
      using True p split
      by (subst first_admissible_paged.simps) (simp split: sum.split option.split)
  next
    case False
    then have o: "offset + ?B \<le> length plans" using less.prems B by (simp add: batch_def min_def split: if_splits)
    then have "first_admissible_paged page ?f (offset + ?B) = ?f (drop (offset + ?B) plans)"
      using less.hyps [of "offset + ?B"] B by simp
    moreover have "offset + ?B < 2 ^ 32" using o assms(2) B by simp
    ultimately show ?thesis
      using False p split B
      by (subst first_admissible_paged.simps) (auto split: sum.split option.split)
  qed
qed

section \<open>What a query returns\<close>

lemma environment_plan_objects_iff:
  "environment_plan_objects c s g environment statuses descending limit offset has_steps = Inr objects
     \<longleftrightarrow> trim environment \<noteq> [] \<and> (offset \<noteq> None \<longrightarrow> limit \<noteq> None)
       \<and> objects = (let q = environment_plan_index_query environment statuses descending limit offset has_steps;
             all = query_sort q (filter (query_matches c q)
               (filter (\<lambda>object. bt_get (so_properties object) ''environment'' = Some environment)
                  (memory_list_kind g (Some (ts_tenant s)) kind_plan)));
             rest = (case offset of None \<Rightarrow> all | Some n \<Rightarrow> drop (unat n) all)
           in case limit of None \<Rightarrow> rest | Some n \<Rightarrow> take (unat n) rest)"
proof -
  have t: "trim kind_plan \<noteq> []" "trim ''environment'' \<noteq> []" "trim ''status'' \<noteq> []" "trim ''created_at'' \<noteq> []"
      "trim ''has_steps'' \<noteq> []" "trim ''true'' \<noteq> []" "trim ''false'' \<noteq> []" by code_simp+
  show ?thesis
    by (cases offset)
      (auto simp: environment_plan_objects_def find_by_property_matching_def environment_plan_index_query_def
        memory_find_by_property_def apply_remote_property_index_def result_simps Let_def t split: option.splits)
qed

definition plan_rows ::
  "('b, 'z) plan_json_scheme \<Rightarrow> tenant_session \<Rightarrow> MemoryCatalogGraph \<Rightarrow> string \<Rightarrow> PlanState list \<Rightarrow> StoredObject list" where
  "plan_rows c s g environment statuses =
     sort_key (property_integer ''created_at'')
       (filter (query_matches c (environment_plan_index_query environment (Some statuses) False None None (Some True)))
         (filter (\<lambda>object. bt_get (so_properties object) ''environment'' = Some environment)
            (memory_list_kind g (Some (ts_tenant s)) kind_plan)))"

lemma plan_objects_rows:
  "environment_plan_objects c s g environment (Some statuses) False None None (Some True) = Inr objects
     \<longleftrightarrow> trim environment \<noteq> [] \<and> objects = plan_rows c s g environment statuses"
  "environment_plan_objects c s g environment (Some statuses) False (Some limit) (Some offset) (Some True) = Inr objects
     \<longleftrightarrow> trim environment \<noteq> [] \<and> objects = take (unat limit) (drop (unat offset) (plan_rows c s g environment statuses))"
  "environment_plan_objects c s g environment (Some statuses) False (Some limit) None (Some True) = Inr objects
     \<longleftrightarrow> trim environment \<noteq> [] \<and> objects = take (unat limit) (plan_rows c s g environment statuses)"
  by (simp_all add: environment_plan_objects_iff plan_rows_def Let_def query_matches_def query_sort_def
      environment_plan_index_query_def)

lemma plan_rows_stepped:
  assumes "object \<in> set (plan_rows c s g environment statuses)" and "from_object c object = Inr plan"
  shows "pl_steps plan \<noteq> []"
proof -
  have h: "bt_get (so_properties object) ''has_steps'' = Some (if pl_steps plan = [] then ''false'' else ''true'')"
    using assms(2) by (simp add: from_object_iff stores_def)
  have "query_matches c (environment_plan_index_query environment (Some statuses) False None None (Some True)) object"
    using assms(1) by (simp add: plan_rows_def)
  then show ?thesis using h by (auto simp: query_matches_def environment_plan_index_query_def)
qed

lemma plans_from_rows:
  assumes "set objects \<subseteq> set (plan_rows c s g environment statuses)"
  shows "plans_from_objects c objects environment (Some statuses) (Some True)
    = try_map (\<lambda>object. bind_r (from_object c object) (\<lambda>plan.
        bind_r (ensure (pl_environment plan = environment) (Foreign_Environment (pl_id plan))) (\<lambda>_.
        bind_r (ensure (pl_state plan \<in> set statuses) (Foreign_Status (pl_id plan))) (\<lambda>_. Inr plan)))) objects"
  using assms
proof (induction objects)
  case (Cons object objects)
  show ?case
  proof (cases "from_object c object")
    case (Inr plan)
    have "object \<in> set (plan_rows c s g environment statuses)" using Cons.prems by simp
    then have "pl_steps plan \<noteq> []" using Inr by (rule plan_rows_stepped)
    then show ?thesis using Cons Inr by (simp add: ensure_def)
  qed simp
qed simp

lemma try_map_take: "try_map f xs = Inr ys \<Longrightarrow> try_map f (take n xs) = Inr (take n ys)"
  by (induction n arbitrary: xs ys) (case_tac xs; auto simp: result_simps)+

lemma try_map_drop: "try_map f xs = Inr ys \<Longrightarrow> try_map f (drop n xs) = Inr (drop n ys)"
  by (induction n arbitrary: xs ys) (case_tac xs; auto simp: result_simps)+


lemma load_pages:
  assumes "load_for_environment c s g environment (Some statuses) False None None (Some True) = Inr plans"
  shows "load_for_environment c s g environment (Some statuses) False (Some limit) (Some offset) (Some True)
      = Inr (take (unat limit) (drop (unat offset) plans))"
    and "load_for_environment c s g environment (Some statuses) False (Some limit) None (Some True)
      = Inr (take (unat limit) plans)"
proof -
  let ?rows = "plan_rows c s g environment statuses"
  define step where "step object = bind_r (from_object c object) (\<lambda>plan.
      bind_r (ensure (pl_environment plan = environment) (Foreign_Environment (pl_id plan))) (\<lambda>_.
      bind_r (ensure (pl_state plan \<in> set statuses) (Foreign_Status (pl_id plan))) (\<lambda>_. Inr plan)))" for object
  have read: "plans_from_objects c objects environment (Some statuses) (Some True) = try_map step objects"
    if "set objects \<subseteq> set ?rows" for objects
    unfolding step_def using that by (rule plans_from_rows)
  have t: "trim environment \<noteq> []"
      and all: "environment_plan_objects c s g environment (Some statuses) False None None (Some True) = Inr ?rows"
      and w: "try_map step ?rows = Inr plans"
    using assms read [OF order_refl]
    by (auto simp: load_for_environment_def result_simps plan_objects_rows)
  have "set (take m (drop n ?rows)) \<subseteq> set ?rows" for m n
    by (meson set_drop_subset set_take_subset subset_trans)
  then have "plans_from_objects c (take m (drop n ?rows)) environment (Some statuses) (Some True)
      = Inr (take m (drop n plans))" for m n
    using read try_map_take [OF try_map_drop [OF w]] by simp
  note part = this
  show "load_for_environment c s g environment (Some statuses) False (Some limit) (Some offset) (Some True)
      = Inr (take (unat limit) (drop (unat offset) plans))"
    unfolding load_for_environment_def plan_objects_rows(2) [THEN iffD2, OF conjI, OF t refl] bind_r.simps
    by (rule part)
  show "load_for_environment c s g environment (Some statuses) False (Some limit) None (Some True)
      = Inr (take (unat limit) plans)"
    unfolding load_for_environment_def plan_objects_rows(3) [THEN iffD2, OF conjI, OF t refl] bind_r.simps
    using part [of _ 0] by simp
qed

lemma paged_walk_whole:
  assumes "load_for_environment c s g environment (Some statuses) False None None (Some True) = Inr plans"
    and "length plans + 8 \<le> 2 ^ 32"
  shows "first_admissible_executable c s g classify True environment statuses only
    = first_admissible_executable c s g classify False environment statuses only"
proof -
  let ?page = "\<lambda>offset. load_for_environment c s g environment (Some statuses) False
      (Some (of_nat executable_admission_batch)) (Some (of_nat offset)) (Some True)"
  have page: "?page offset = Inr (take executable_admission_batch (drop offset plans))" if "offset < 2 ^ 32" for offset
    using load_pages(1) [OF assms(1), of "of_nat executable_admission_batch" "of_nat offset"] that
    by (simp add: executable_admission_batch_def unat_of_nat take_bit_nat_eq_self)
  have "first_admissible_paged ?page (first_admissible_in (held_candidate s g) classify only) 0
      = first_admissible_in (held_candidate s g) classify only plans"
    using paged_is_walk [of ?page plans 0, OF page] assms(2) by (simp add: executable_admission_batch_def)
  then show ?thesis using assms(1) by (simp add: first_admissible_executable_def)
qed



lemma plans_from_Inr:
  assumes "plans_from_objects c objects environment (Some statuses) has_steps = Inr plans" and "plan \<in> set plans"
  shows "(\<exists>object \<in> set objects. stores c object plan) \<and> plan_ok c plan
    \<and> pl_environment plan = environment \<and> pl_state plan \<in> set statuses"
  using assms
  by (induction objects arbitrary: plans) (auto simp: result_simps from_object_iff split: if_splits)

lemma stored_plan_in_rows:
  assumes "load_plan c s g oid = Inr plan" and "pl_environment plan = environment"
    and "pl_state plan \<in> set statuses" and "pl_steps plan \<noteq> []"
  obtains object where "object \<in> set (plan_rows c s g environment statuses)"
    and "property_integer ''created_at'' object = Some (pl_created_at plan)"
proof -
  from assms(1) obtain object where o: "memory_get g (Some (ts_tenant s)) oid = Some object" "stores c object plan"
    by (auto simp: load_plan_iff)
  have "object \<in> set (memory_list_kind g (Some (ts_tenant s)) kind_plan)"
    using o map_of_SomeD [OF o(1) [unfolded memory_get_def]]
    by (force simp: memory_list_kind_def stores_def)
  then have "object \<in> set (plan_rows c s g environment statuses)"
    using o(2) assms(2-4) by (simp add: plan_rows_def query_matches_def environment_plan_index_query_def stores_def)
  then show thesis using that o(2) by (simp add: stores_def)
qed

lemma rows_head_oldest:
  assumes "plan_rows c s g environment statuses = first # rest"
    and "object \<in> set (plan_rows c s g environment statuses)"
  shows "property_integer ''created_at'' first \<le> property_integer ''created_at'' object"
proof -
  have "sorted (map (property_integer ''created_at'') (plan_rows c s g environment statuses))"
    by (simp add: plan_rows_def)
  then show ?thesis using assms by auto
qed

text \<open>C37. The oldest plan of an environment in some states is really the oldest: when the query answers
  and a readable plan of that environment in one of those states has steps, the answer is a well-formed
  plan of that environment in one of those states with steps, and it was not created later.\<close>
theorem oldest_plan_is_oldest:
  assumes "load_oldest_for_environment c s g environment statuses = Inr found"
    and "load_plan c s g oid = Inr other" and "pl_environment other = environment"
    and "pl_state other \<in> set statuses" and "pl_steps other \<noteq> []"
  shows "\<exists>plan. found = Some plan \<and> plan_ok c plan \<and> pl_environment plan = environment
    \<and> pl_state plan \<in> set statuses \<and> pl_steps plan \<noteq> [] \<and> pl_created_at plan \<le> pl_created_at other"
proof -
  obtain object where o: "object \<in> set (plan_rows c s g environment statuses)"
      "property_integer ''created_at'' object = Some (pl_created_at other)"
    by (rule stored_plan_in_rows [OF assms(2-5)])
  then obtain first rest where rows: "plan_rows c s g environment statuses = first # rest"
    by (cases "plan_rows c s g environment statuses") auto
  obtain plans where p: "plans_from_objects c [first] environment (Some statuses) (Some True) = Inr plans"
      "found = (if plans = [] then None else Some (last plans))"
    using assms(1) rows
    by (auto simp: load_oldest_for_environment_def load_for_environment_def result_simps plan_objects_rows)
  from p(1) obtain plan where plan: "from_object c first = Inr plan" by (auto simp: result_simps)
  have steps: "pl_steps plan \<noteq> []"
    using plan_rows_stepped [of first c s g environment statuses, OF _ plan] rows by simp
  have plans: "plans = [plan]" using p(1) plan steps by (auto simp: result_simps)
  have "pl_environment plan = environment \<and> pl_state plan \<in> set statuses \<and> plan_ok c plan"
    using plans_from_Inr [OF p(1)] plans by simp
  moreover have "pl_created_at plan \<le> pl_created_at other"
    using rows_head_oldest [OF rows o(1)] o(2) plan by (simp add: from_object_iff stores_def)
  ultimately show ?thesis using p(2) plans steps by simp
qed


section \<open>Sample plans\<close>

definition demo_stepped :: "int \<Rightarrow> Plan" where
  "demo_stepped at = (demo_noop Computed)\<lparr>pl_id := plan_id ''e'' at ''0'', pl_created_at := at,
     pl_steps := [demo_step (plan_id ''e'' at ''0'' @ '':step:0'')]\<rparr>"

definition demo_stepped_json :: "unit plan_json" where
  "demo_stepped_json = \<lparr>encode_content = (\<lambda>_. Some ()), encode_executable = (\<lambda>_. Some ()), sha256_hex = (\<lambda>_. ''0''),
     encode_plan = (\<lambda>plan. Some (show_int (pl_created_at plan))),
     decode_plan = (\<lambda>raw. map_option demo_stepped (parse_i64 raw)),
     decode_identity = (\<lambda>raw. None), decode_environment = (\<lambda>raw. None), decode_has_steps = (\<lambda>raw. None)\<rparr>"

fun demo_stored :: "int list \<Rightarrow> MemoryCatalogGraph" where
  "demo_stored [] = memory_new"
| "demo_stored (at # ats) =
     snd (store_with_provider_events demo_stepped_json (demo_ambient 5) demo_session (demo_stepped at) [] [] (demo_stored ats))"


theorem oldest_plan_is_oldest_witness:
  "\<exists>plan. load_oldest_for_environment demo_stepped_json demo_session (demo_stored [1, 2]) ''e'' [Computed] = Inr (Some plan)
    \<and> pl_created_at plan \<le> 2"
proof -
  have l: "load_oldest_for_environment demo_stepped_json demo_session (demo_stored [1, 2]) ''e'' [Computed]
      = Inr (Some (demo_stepped 1))"
    and o: "load_plan demo_stepped_json demo_session (demo_stored [1, 2]) (plan_id ''e'' 2 ''0'') = Inr (demo_stepped 2)"
    by code_simp+
  show ?thesis
    using oldest_plan_is_oldest [OF l o] l by (auto simp: demo_stepped_def demo_noop_def)
qed


section \<open>What is selected is current\<close>

lemma first_admissible_Some:
  assumes "first_admissible_in held classify only plans = Inr (Some plan)"
  shows "\<not> held plan \<and> pl_steps plan \<noteq> [] \<and> (only \<longrightarrow> pl_maintenance_blocked plan) \<and> classify plan = Inr Admissible
    \<and> (\<exists>older younger. plans = older @ plan # younger
        \<and> (\<forall>p \<in> set older. held p \<or> only \<and> \<not> pl_maintenance_blocked p \<or> classify p \<noteq> Inr Admissible))"
  using assms
proof (induction plans)
  case (Cons p plans)
  have skip: ?case if "first_admissible_in held classify only plans = Inr (Some plan)"
      and p: "held p \<or> only \<and> \<not> pl_maintenance_blocked p \<or> classify p \<noteq> Inr Admissible"
  proof -
    from Cons.IH [OF that(1)] obtain older younger where "plans = older @ plan # younger"
        "\<forall>q \<in> set older. held q \<or> only \<and> \<not> pl_maintenance_blocked q \<or> classify q \<noteq> Inr Admissible" by blast
    then have "p # plans = (p # older) @ plan # younger"
        "\<forall>q \<in> set (p # older). held q \<or> only \<and> \<not> pl_maintenance_blocked q \<or> classify q \<noteq> Inr Admissible" using p by auto
    then show ?thesis using Cons.IH [OF that(1)] by blast
  qed
  show ?case
  proof (cases "held p \<or> only \<and> \<not> pl_maintenance_blocked p")
    case True
    then show ?thesis using Cons.prems skip by (auto split: if_splits)
  next
    case False
    then obtain a where a: "pl_steps p \<noteq> []" "classify p = Inr a"
        "(if a = Admissible then Inr (Some p) else first_admissible_in held classify only plans) = Inr (Some plan)"
      using Cons.prems by (auto simp: result_simps split: if_splits)
    show ?thesis
    proof (cases "a = Admissible")
      case True
      then have "plan = p" using a by simp
      then show ?thesis using a False True by (intro conjI exI [of _ "[]"] exI [of _ plans]) auto
    next
      case False
      then show ?thesis using a skip by simp
    qed
  qed
qed simp

text \<open>C11. What is selected for execution is current: the plan that the walk over executable plans returns is
  well formed, belongs to the environment in one of the wanted states, has steps, is not held by a failed
  target, and still describes the environment in every respect at the time it was inspected; and every
  plan created before it that could be read was held, not blocked by maintenance when that was asked
  for, or no longer current.\<close>
theorem selected_plan_is_current:
  assumes "load_for_environment c s g environment (Some statuses) False None None (Some True) = Inr plans"
    and "length plans + 8 \<le> 2 ^ 32"
    and "first_admissible_executable c s g (\<lambda>p. classify_candidate pins sv parse_manifest s g (clock p) p) embedded
      environment statuses only = Inr (Some plan)"
  shows "plan_ok c plan \<and> pl_environment plan = environment \<and> pl_state plan \<in> set statuses \<and> pl_steps plan \<noteq> []
    \<and> \<not> held_candidate s g plan \<and> (only \<longrightarrow> pl_maintenance_blocked plan)
    \<and> plan_current pins sv parse_manifest s g (clock plan) plan
    \<and> (\<exists>older younger. plans = older @ plan # younger
        \<and> (\<forall>p \<in> set older. held_candidate s g p \<or> only \<and> \<not> pl_maintenance_blocked p
              \<or> \<not> plan_current pins sv parse_manifest s g (clock p) p))"
proof -
  let ?classify = "\<lambda>p. classify_candidate pins sv parse_manifest s g (clock p) p"
  have "first_admissible_executable c s g ?classify False environment statuses only = Inr (Some plan)"
    using assms(3) paged_walk_whole [OF assms(1,2)] by (cases embedded) simp_all
  then have w: "first_admissible_in (held_candidate s g) ?classify only plans = Inr (Some plan)"
    using assms(1) by (simp add: first_admissible_executable_def)
  note first = first_admissible_Some [OF w, unfolded classify_iff]
  then have "plan \<in> set plans" by auto
  then have "plan_ok c plan \<and> pl_environment plan = environment \<and> pl_state plan \<in> set statuses"
    using assms(1) plans_from_Inr [of c _ environment statuses "Some True" plans plan]
    by (auto simp: load_for_environment_def result_simps)
  with first show ?thesis by blast
qed


definition demo_ready :: MemoryCatalogGraph where
  "demo_ready = snd (memory_put (demo_ambient 5) (Some ''t'') demo_facts_object (demo_stored [2, 1]))"

theorem selected_plan_is_current_witness:
  "plan_current demo_pin_codec triple_semver demo_manifest demo_session demo_ready 7 (demo_stepped 1)"
proof -
  have l: "load_for_environment demo_stepped_json demo_session demo_ready ''e'' (Some [Computed]) False None None (Some True)
      = Inr [demo_stepped 1, demo_stepped 2]" by code_simp
  have f: "first_admissible_executable demo_stepped_json demo_session demo_ready
      (\<lambda>p. classify_candidate demo_pin_codec triple_semver demo_manifest demo_session demo_ready 7 p) False ''e'' [Computed] False
      = Inr (Some (demo_stepped 1))" by code_simp
  have "length [demo_stepped 1, demo_stepped 2] + 8 \<le> 2 ^ 32" by simp
  from selected_plan_is_current [OF l this, where clock = "\<lambda>_. 7", OF f] show ?thesis by blast
qed

end
