(* ===== verification/Spec2Isabelle.thy ===== *)
theory Spec2Isabelle
  imports Applier_Theorems Contract_Order Dependency_Document Reconciler Catalog_Leases Plan_Selection
begin

text \<open>
  A verification development for tenkai, a control plane that plans, approves and applies software
  deliveries to environments.  Paths below are relative to the repository's crate root
  (\<open>src/...\<close>) or name a crate under \<open>crates/\<close>.

  \<^bold>\<open>How the parts interact.\<close>  A release publishes a signed compatibility profile.  Planning compares
  profiles with the evidence an environment reported, orders the steps by their contracts and writes a
  content-addressed plan as an object of the catalog graph.  People approve the plan by signing its
  executable digest; a quorum rule says how many and who.  The reconciler ticks over environments,
  takes turns with other hosts by fences and leases, selects the plan to work on and moves it through
  its states.  A step for a host travels as a request; the root-side applier of the host verifies it
  again, admits it under a generation counter and runs its command at most once.

  \<^bold>\<open>Theories, in the order of that path.\<close>
  \<^item> \<open>Prelude\<close>, \<open>Decimal\<close>, \<open>BTree_Map\<close>: results as sums with the error on the left, saturating and checked
    machine integers, printing and parsing of numbers, and the ordered maps and sets of the Rust
    library behind the locale \<open>ordered_map\<close>.
  \<^item> \<open>Ontology\<close> (\<open>src/ontology.rs\<close>), \<open>Facts\<close> (\<open>src/environment.rs\<close>), \<open>Store_Object\<close>: identifiers,
    object ids, environment facts and stored objects.
  \<^item> \<open>Semver\<close>: the semver package as a record of operations, with the laws that are relied on.
  \<^item> \<open>Cycle_Check\<close>, \<open>Compatibility\<close>, \<open>Compat_Eval\<close>, \<open>Compat_Theorems\<close>
    (\<open>src/software_compatibility.rs\<close>): profiles, the depth-first cycle check (shared by two components
    through the locale \<open>cycle_refusal\<close>), evaluation, reports and the refusal of plans that break a
    dependent.  A clean evaluation is equivalent to the declarative \<open>release_fits\<close>.
  \<^item> \<open>Ranks\<close>, \<open>Contract_Order\<close> (\<open>src/plan/convergence.rs\<close>), \<open>Dependency_Document\<close>
    (\<open>src/dependency_document.rs\<close>): contract edges, name-first topological ranks, the rollout order and
    the document a release is handed.
  \<^item> \<open>Plan_Data\<close> (\<open>src/plan.rs\<close>, \<open>src/product_kind.rs\<close>): plans, steps and their two digests.
  \<^item> \<open>Signed_Format\<close> (\<open>src/signature_verification.rs\<close>), \<open>Quorum\<close>, \<open>Approval_Policy\<close>
    (\<open>src/approval_policy.rs\<close>, \<open>src/criticality.rs\<close>), \<open>Plan_Approval\<close> (\<open>src/plan_approval.rs\<close>,
    \<open>src/host_apply/policy.rs\<close>): framing (the locale \<open>prefix_framing\<close>), quorum counting, rule selection,
    automatic approval and verification for execution.
  \<^item> \<open>Host_Apply\<close> (\<open>src/host_apply\<close>), \<open>Applier_Store\<close>, \<open>Applier_Safety\<close>, \<open>Applier_Theorems\<close>
    (\<open>crates/tenkai-host-applier\<close>): request verification, the applied-state record, and the applier as a
    step relation whose writes may be cut short by a crash at any point.
  \<^item> \<open>Expiring_Claims\<close>: the locale of claims that expire, interpreted for the fence and for leases.
  \<^item> \<open>Reconcile_Fence\<close> (\<open>src/reconcile_fence.rs\<close>, \<open>src/writer_fence.rs\<close>), \<open>Environment_Index\<close>,
    \<open>Reconciler\<close> (\<open>src/reconciler.rs\<close>, \<open>src/reconciler/tick_admission.rs\<close>): fences between hosts, the
    incremental index of environments, scheduling with backoff, and a tick as any interleaving of
    admissions with the ends of jobs.
  \<^item> \<open>Catalog_Graph\<close>, \<open>Catalog_Leases\<close> (\<open>src/storage/catalog_graph.rs\<close>): every operation of the in-memory
    graph, leases with fencing tokens, guarded and multi-object writes, and the change history.
  \<^item> \<open>Plan_Lifecycle\<close>, \<open>Plan_Theorems\<close> (\<open>src/plan/lifecycle.rs\<close> with the parts of \<open>src/client\<close> it calls):
    plans as objects of the graph, transitions, index checks and queries.
  \<^item> \<open>Preview\<close> (\<open>src/preview.rs\<close>), \<open>Delivery_Hold\<close> (\<open>src/delivery_hold.rs\<close>), \<open>Release_Selection\<close>
    (\<open>src/plan/release_selection.rs\<close>), \<open>Execution_Admission\<close> (\<open>src/apply/execution_admission.rs\<close>): what
    closes an environment, pauses a plan, picks a release and makes a stored plan stale.
  \<^item> \<open>Plan_Selection\<close> (\<open>src/reconciler/environment_lifecycle.rs\<close>, \<open>pending_work\<close> of \<open>src/reconciler.rs\<close>):
    which plan of an environment is worked on.
  \<^item> This theory: what plans and leases give together.

  \<^bold>\<open>State and errors.\<close>  Rust structs are records with prefixed fields, enums are datatypes, and a \<open>Result\<close>
  is a sum.  An operation that writes returns its result and the new state, so the state after a failure
  is visible: some operations of the graph leave a partition created, and one leaves leases refreshed.
  Errors carry the data that distinguishes them and not the message text.  Operations of different
  processes interleave through step relations (\<open>applier_step\<close>, \<open>tick_step\<close>, \<open>catalog_step\<close>).

  \<^bold>\<open>What is shown.\<close>  For the applier: an invariant over all interleavings and crashes, from which follow
  at most one run of an instance, one live command of a product, no stale step, no silent downgrade,
  recovery, and the refinement of an abstract generation gate.  For approvals: execution needs the
  quorum of distinct people, and one envelope authorizes one content.  For planning: cycle checks,
  ranks and edges are exact, and what a plan leaves installed stays satisfied.  For the reconciler: a
  tick ends and gives back what it took, and hosts take turns.  For the graph and plans: a superseded
  token never writes, history replays, a stored plan keeps its content and only moves forward, success
  is durable, and the queries select what they say.  For delivery: what is selected for execution is
  current, holds pause until they are cleared and keep their history, previews are torn down once, and
  with semantic versions the highest fitting variant is chosen (without them, an unpromoted one can be).

  \<^bold>\<open>Hypotheses.\<close>  Third-party code enters as arguments: JSON (\<open>codec\<close>, \<open>plan_json\<close>, relied on for
  injectivity and for decoding what it encoded), SHA-256, Ed25519 and base64 (\<open>crypto\<close>), semver, the
  TOML of manifests and UUIDs.  No property assumes that SHA-256 has no collisions; where it matters the
  conclusion allows for a collision.  Fencing tokens are drawn from random UUIDs, and a run of the graph
  draws each token at most once.

  \<^bold>\<open>Bounds and termination.\<close>  Every loop is structural or has a termination proof: the cycle search by the
  number of open nodes, Kahn's loop by the incoming edges and the ready nodes, the paged walk by the
  distance of its \<open>u32\<close> offset to its limit, the search for a free audit id by the 1024 ids the code tries.
  A tick is shown to end by a measure of two steps per environment.
  Integers keep their width where they are counted or added; times are \<open>int\<close> with the \<open>i64\<close> saturation
  written out.  Clock readings inside one operation are separate arguments where the code compares
  them, and one argument where it reads the clock once per lease in a loop.

  \<^bold>\<open>Not modelled.\<close>  SQL and files of the SQLite and PostgreSQL stores, HTTP, gRPC and command line
  adapters, the agent's pull protocol, executors that drive containers and processes, archive formats,
  key providers and identity protocols: these are I/O or third-party protocols around the modelled
  operations.  The apply engine (step execution, health gates, rollback), canaries, waves,
  planning itself and maintenance windows are not covered; where a modelled operation calls one of them
  (planning anew, the status of a lease, the maintenance configuration of a new preview), it is an
  argument that may fail and, where it writes, may change the graph.  The embedded and remote branches
  of a context are left out: plans are modelled for a context bound to a tenant of the graph.
\<close>

section \<open>Plans under leases\<close>

text \<open>C6. A controller that lost its lease cannot move a plan: once the lease of an environment has
  passed to another fencing token, a guarded transition with the old token changes no object, whatever
  ran in between, and it reports success only when the store already holds a plan with exactly the
  state and audit fields that were intended and the caller asked for ambiguous writes to be confirmed.\<close>
theorem fenced_out_controller_moves_nothing:
  assumes "catalog_run {} memory_new drawn g" and "lease_slot g (ts_tenant s, ns, key) = Some lease"
    and "catalog_run drawn g drawn1 g1" and "lease_slot g1 (ts_tenant s, ns, key) = Some lease1"
    and "le_fencing_token lease1 \<noteq> le_fencing_token lease"
    and "catalog_run drawn1 g1 drawn2 g2"
    and "transition c amb s plan update (Guarded ns key (le_fencing_token lease) confirm) g2 = (r, g3)"
  shows "memory_get g3 tenant oid = memory_get g2 tenant oid
    \<and> (r = Inr () \<longrightarrow> confirm \<and> (\<exists>stored. load_plan c s g2 (pl_id plan) = Inr stored
          \<and> intended stored = intended (transition_apply update plan)))"
proof -
  obtain e where e: "require_memory_lease (partition_of g2 (Some (ts_tenant s))) ns key (le_fencing_token lease)
      (am_now amb) = Inl e"
    by (rule superseded_refused [where tenant = "Some (ts_tenant s)", unfolded tenant_key_Some, OF assms(1-6)])
  have pid: "pl_id (transition_apply update plan) = pl_id plan"
    by (simp add: transition_apply_def Let_def split: option.split)
  have same: "memory_get (touch t g2) t' oid' = memory_get g2 t' oid'" for t t' oid'
    by (simp add: memory_get_def)
  show ?thesis
    using assms(7) same
    by (auto simp: transition_def guarded_write_def Let_def guarded_put_refused [OF e] load_plan_def pid
        split: sum.splits if_splits)
qed

theorem fenced_out_controller_moves_nothing_witness:
  "\<exists>e. fst (transition demo_json (demo_ambient 25) (demo_session\<lparr>ts_tenant := []\<rparr>) (demo_noop Running)
    (transition_new Succeeded []) (Guarded ''env'' ''prod'' ''t1'' False) demo_taken) = Inl e"
proof -
  let ?r = "transition demo_json (demo_ambient 25) (demo_session\<lparr>ts_tenant := []\<rparr>) (demo_noop Running)
    (transition_new Succeeded []) (Guarded ''env'' ''prod'' ''t1'' False) demo_taken"
  have "fst ?r \<noteq> Inr ()"
    using fenced_out_controller_moves_nothing [OF demo_catalog_runs(1) _ demo_catalog_runs(2) _ _ run_refl,
        of "demo_session\<lparr>ts_tenant := []\<rparr>" "''env''" "''prod''" _ _ demo_json "demo_ambient 25" "demo_noop Running"
          "transition_new Succeeded []" False "fst ?r" "snd ?r"] demo_slots
    by (simp add: new_lease_def)
  then show ?thesis by (cases "fst ?r") auto
qed

end
